(* ===== verification/Prelude.thy ===== *)
theory Prelude
  imports Main "HOL-Library.AList" "HOL-Library.Word" "HOL-Library.List_Lexorder"
    "HOL-Library.Product_Lexorder"
begin

section \<open>Prelude: collections, insertion-ordered maps, transition systems\<close>

text \<open>
  What every theory of the development shares:
  \<^item> the theorem collections \<open>js_lit\<close> (evaluation of string literals), \<open>frame\<close> (which
    part of the state an operation leaves alone) and \<open>effect\<close> (what an operation emits);
  \<^item> the interface of a JavaScript \<open>Map\<close> or plain object used as a dictionary (\<open>js_map\<close>),
    interpreted on association lists: \<open>AList.update\<close> overwrites in place and appends a
    new key at the end, which is JavaScript's insertion order;
  \<^item> the interfaces of a transition system with an invariant (\<open>invariant_system\<close>) and of one that
    refines another (\<open>step_refinement\<close>).
\<close>

named_theorems js_lit \<open>evaluation of JavaScript string literals\<close>
named_theorems frame \<open>what an operation leaves unchanged\<close>
named_theorems effect \<open>what an operation emits\<close>

subsection \<open>Lists and options\<close>

lemma find_Some_set: "find P xs = Some x \<Longrightarrow> x \<in> set xs \<and> P x"
  by (induction xs) (auto split: if_splits)

lemma find_None_all: "find P xs = None \<longleftrightarrow> (\<forall>x \<in> set xs. \<not> P x)"
  by (induction xs) auto

text \<open>JavaScript's \<open>[...new Set(xs)]\<close>: the first occurrence of every element, in order.\<close>

fun uniq :: "'a list \<Rightarrow> 'a list" where
  "uniq [] = []"
| "uniq (x # xs) = x # filter (\<lambda>y. y \<noteq> x) (uniq xs)"

lemma set_uniq [simp]: "set (uniq xs) = set xs"
  by (induction xs) auto

lemma distinct_uniq [simp]: "distinct (uniq xs)"
  by (induction xs) auto

lemma uniq_distinct: "distinct xs \<Longrightarrow> uniq xs = xs"
  by (induction xs) (auto intro!: filter_True)

subsection \<open>Insertion-ordered maps\<close>

locale js_map =
  fixes get :: "'m \<Rightarrow> 'k \<Rightarrow> 'v option"
    and put :: "'k \<Rightarrow> 'v \<Rightarrow> 'm \<Rightarrow> 'm"
    and remove :: "'k \<Rightarrow> 'm \<Rightarrow> 'm"
    and keys :: "'m \<Rightarrow> 'k list"
    and wf :: "'m \<Rightarrow> bool"
  assumes get_put: "get (put k v m) = (get m)(k \<mapsto> v)"
    and get_remove: "get (remove k m) = (get m)(k := None)"
    and keys_get: "set (keys m) = dom (get m)"
    and keys_put: "keys (put k v m) = (if k \<in> set (keys m) then keys m else keys m @ [k])"
    and keys_remove: "keys (remove k m) = filter (\<lambda>k'. k' \<noteq> k) (keys m)"
    and wf_distinct: "wf m = distinct (keys m)"
begin

lemma get_put_same [simp]: "get (put k v m) k = Some v"
  by (simp add: get_put)

lemma get_put_other: "k' \<noteq> k \<Longrightarrow> get (put k v m) k' = get m k'"
  by (simp add: get_put)

lemma get_remove_same [simp]: "get (remove k m) k = None"
  by (simp add: get_remove)

lemma get_remove_other: "k' \<noteq> k \<Longrightarrow> get (remove k m) k' = get m k'"
  by (simp add: get_remove)

lemma wf_put: "wf m \<Longrightarrow> wf (put k v m)"
  by (simp add: wf_distinct keys_put)

lemma wf_remove: "wf m \<Longrightarrow> wf (remove k m)"
  by (simp add: wf_distinct keys_remove)

lemma put_keeps_position: "get m k \<noteq> None \<Longrightarrow> keys (put k v m) = keys m"
  by (simp add: keys_put keys_get domIff)

end

lemma keys_alist_update:
  "map fst (AList.update k v al) = (if k \<in> set (map fst al) then map fst al else map fst al @ [k])"
  by (induction al) auto

lemma keys_alist_delete:
  "map fst (AList.delete k al) = filter (\<lambda>k'. k' \<noteq> k) (map fst al)"
  by (induction al) auto

interpretation alist: js_map map_of AList.update AList.delete "map fst" "\<lambda>al. distinct (map fst al)"
proof unfold_locales
  show "map_of (AList.update k v m) = (map_of m)(k \<mapsto> v)" for k :: 'a and v :: 'b and m
    by (rule update_conv')
  show "map_of (AList.delete k m) = (map_of m)(k := None)" for k :: 'a and m :: "('a \<times> 'b) list"
    by (rule delete_conv')
  show "set (map fst m) = dom (map_of m)" for m :: "('a \<times> 'b) list"
    by (simp add: dom_map_of_conv_image_fst)
qed (simp_all only: keys_alist_update keys_alist_delete)

subsection \<open>Transition systems with an invariant\<close>

locale invariant_system =
  fixes init :: "'s \<Rightarrow> bool"
    and step :: "'s \<Rightarrow> 's \<Rightarrow> bool"
    and inv :: "'s \<Rightarrow> bool"
  assumes inv_init: "init s \<Longrightarrow> inv s"
    and inv_step: "inv s \<Longrightarrow> step s t \<Longrightarrow> inv t"
begin

lemma inv_steps: "step\<^sup>*\<^sup>* s t \<Longrightarrow> inv s \<Longrightarrow> inv t"
  by (induction rule: rtranclp_induct) (auto intro: inv_step)

lemma inv_reachable: "init s \<Longrightarrow> step\<^sup>*\<^sup>* s t \<Longrightarrow> inv t"
  by (blast intro: inv_init inv_steps)

end

text \<open>Every step of the concrete system is a run of the abstract one.\<close>

locale step_refinement =
  fixes cinit :: "'c \<Rightarrow> bool"
    and cstep :: "'c \<Rightarrow> 'c \<Rightarrow> bool"
    and ainit :: "'a \<Rightarrow> bool"
    and astep :: "'a \<Rightarrow> 'a \<Rightarrow> bool"
    and abs :: "'c \<Rightarrow> 'a"
    and inv :: "'c \<Rightarrow> bool"
  assumes start: "cinit s \<Longrightarrow> inv s \<and> ainit (abs s)"
    and follow: "inv s \<Longrightarrow> cstep s t \<Longrightarrow> inv t \<and> astep\<^sup>*\<^sup>* (abs s) (abs t)"
begin

lemma refines_from: "cstep\<^sup>*\<^sup>* s t \<Longrightarrow> inv s \<Longrightarrow> inv t \<and> astep\<^sup>*\<^sup>* (abs s) (abs t)"
  by (induction rule: rtranclp_induct) (auto dest: follow intro: rtranclp_trans)

lemma refines: "cinit s \<Longrightarrow> cstep\<^sup>*\<^sup>* s t \<Longrightarrow> inv t \<and> ainit (abs s) \<and> astep\<^sup>*\<^sup>* (abs s) (abs t)"
  using start refines_from by blast

end

end
