(* ===== verification/JsString.thy ===== *)
theory JsString
  imports Prelude
begin

section \<open>JavaScript strings and the UTF-8 codec of Node's Buffer\<close>

text \<open>
  A JavaScript string is the list of its UTF-16 code units: \<open>s.length\<close>, \<open>===\<close>,
  \<open>slice\<close>, \<open>indexOf\<close> and the order of \<open>sort()\<close> all read code units.  \<open>js\<close> writes
  an ASCII literal.  \<open>utf8_encode\<close> is \<open>Buffer.from(s, "utf8")\<close> (a lone surrogate
  becomes U+FFFD) and \<open>utf8_decode\<close> is \<open>buffer.toString("utf8")\<close> (each maximal
  ill-formed subsequence becomes one U+FFFD).
\<close>

type_synonym code_unit = "16 word"
type_synonym jsstr = "code_unit list"
type_synonym bytes = "8 word list"

definition js :: "string \<Rightarrow> jsstr" where
  "js s = map of_char s"

lemma of_char_less: "(of_char c :: nat) < 256"
  by (metis nat_of_char_less_256)

lemma of_char_16: "(of_char c :: 16 word) = word_of_nat (of_char c)"
  by (simp only: of_nat_of_char)

lemma of_char_16_inj [simp]: "(of_char c :: 16 word) = of_char d \<longleftrightarrow> c = d"
proof
  assume "(of_char c :: 16 word) = of_char d"
  then have "(word_of_nat (of_char c) :: 16 word) = word_of_nat (of_char d)"
    by (simp only: of_char_16)
  then have "unat (word_of_nat (of_char c) :: 16 word) = unat (word_of_nat (of_char d) :: 16 word)"
    by (rule arg_cong)
  then have "(of_char c :: nat) = of_char d"
    using of_char_less [of c] of_char_less [of d] by (simp only: unat_of_nat) simp
  then show "c = d" by simp
qed simp

lemma js_inject [simp, js_lit]: "js s = js t \<longleftrightarrow> s = t"
  by (simp add: js_def inj_def)

lemma js_eq_Nil [simp, js_lit]: "js s = [] \<longleftrightarrow> s = []" "[] = js s \<longleftrightarrow> s = []"
  by (auto simp: js_def)

lemma length_js [simp, js_lit]: "length (js s) = length s"
  by (simp add: js_def)

lemma js_append: "js (s @ t) = js s @ js t"
  by (simp add: js_def)

lemma set_js: "set (js s) = of_char ` set s"
  by (simp add: js_def)

definition unit :: "char \<Rightarrow> code_unit" where
  "unit c = of_char c"

lemma unit_inject [simp]: "unit c = unit d \<longleftrightarrow> c = d"
  by (simp add: unit_def)

lemma unit_in_js [simp, js_lit]: "unit c \<in> set (js s) \<longleftrightarrow> c \<in> set s"
  by (auto simp: unit_def set_js)

lemma js_single: "js [c] = [unit c]"
  by (simp add: js_def unit_def)

subsection \<open>Splitting and joining\<close>

text \<open>
  \<open>cut c s\<close> is \<open>idx = s.indexOf(c)\<close> with \<open>s.slice(0, idx)\<close> and \<open>s.slice(idx + 1)\<close>,
  \<open>None\<close> for \<open>idx === -1\<close>; \<open>split_on\<close> is \<open>s.split(c)\<close> for a one-unit
  separator and \<open>join\<close> is \<open>Array.prototype.join\<close>.
\<close>

fun cut :: "code_unit \<Rightarrow> jsstr \<Rightarrow> (jsstr \<times> jsstr) option" where
  "cut c [] = None"
| "cut c (x # xs) = (if x = c then Some ([], xs)
                     else map_option (\<lambda>(a, b). (x # a, b)) (cut c xs))"

lemma cut_None: "cut c s = None \<longleftrightarrow> c \<notin> set s"
  by (induction s) auto

lemma cut_append: "c \<notin> set a \<Longrightarrow> cut c (a @ c # b) = Some (a, b)"
  by (induction a) auto

lemma cut_Some: "cut c s = Some (a, b) \<longleftrightarrow> s = a @ c # b \<and> c \<notin> set a"
proof
  assume "cut c s = Some (a, b)"
  then show "s = a @ c # b \<and> c \<notin> set a"
    by (induction s arbitrary: a) (auto split: if_splits)
qed (simp add: cut_append)

function split_on :: "code_unit \<Rightarrow> jsstr \<Rightarrow> jsstr list" where
  "split_on c s = (case cut c s of None \<Rightarrow> [s] | Some (a, b) \<Rightarrow> a # split_on c b)"
  by pat_completeness auto
termination
  by (relation "measure (\<lambda>(c, s). length s)") (auto simp: cut_Some dest: sym)

declare split_on.simps [simp del]

fun join :: "jsstr \<Rightarrow> jsstr list \<Rightarrow> jsstr" where
  "join sep [] = []"
| "join sep [x] = x"
| "join sep (x # y # ys) = x @ sep @ join sep (y # ys)"

lemma split_on_join:
  assumes "xs \<noteq> []" and "\<forall>x \<in> set xs. c \<notin> set x"
  shows "split_on c (join [c] xs) = xs"
  using assms
proof (induction "[c]" xs rule: join.induct)
  case (2 x)
  then have "cut c x = None" by (simp add: cut_None)
  then show ?case by (simp add: split_on.simps)
next
  case (3 x y ys)
  then have "cut c (x @ [c] @ join [c] (y # ys)) = Some (x, join [c] (y # ys))"
    by (simp add: cut_append)
  with 3 show ?case by (simp add: split_on.simps [of c "x @ c # join [c] (y # ys)"])
qed simp

subsection \<open>Numbers in strings\<close>

text \<open>
  \<open>show_nat\<close> is the decimal text of a non-negative integer; \<open>parse_int\<close> is
  \<open>Number.parseInt(s, 10)\<close>: white space, an optional sign and the longest run of digits,
  \<open>None\<close> for \<open>NaN\<close>.  The result is the mathematical integer, which a JavaScript
  number holds exactly below \<open>2 ^ 53\<close>.
\<close>

definition digit_unit :: "nat \<Rightarrow> code_unit" where
  "digit_unit d = word_of_nat (48 + d)"

fun show_nat :: "nat \<Rightarrow> jsstr" where
  "show_nat n = (if n < 10 then [digit_unit n] else show_nat (n div 10) @ [digit_unit (n mod 10)])"

declare show_nat.simps [simp del]

definition js_space :: "code_unit \<Rightarrow> bool" where
  "js_space u \<longleftrightarrow> (let n = unat u in n \<in> {9, 10, 11, 12, 13, 32, 160, 5760, 8232, 8233, 8239, 8287, 12288, 65279}
     \<or> 8192 \<le> n \<and> n \<le> 8202)"

definition is_digit :: "code_unit \<Rightarrow> bool" where
  "is_digit u \<longleftrightarrow> 48 \<le> u \<and> u \<le> 57"

definition digits_val :: "jsstr \<Rightarrow> nat" where
  "digits_val ds = foldl (\<lambda>v u. 10 * v + (unat u - 48)) 0 ds"

definition parse_digits :: "jsstr \<Rightarrow> nat option" where
  "parse_digits s = (let ds = takeWhile is_digit s in if ds = [] then None else Some (digits_val ds))"

definition parse_int :: "jsstr \<Rightarrow> int option" where
  "parse_int s = (case dropWhile js_space s of
       [] \<Rightarrow> None
     | u # rest \<Rightarrow>
         if u = unit (CHR ''-'') then map_option (\<lambda>n. - int n) (parse_digits rest)
         else if u = unit (CHR ''+'') then map_option int (parse_digits rest)
         else map_option int (parse_digits (u # rest)))"

lemma digit_unit: "d < 10 \<Longrightarrow> is_digit (digit_unit d) \<and> unat (digit_unit d) = 48 + d"
proof -
  assume d: "d < 10"
  then have u: "unat (digit_unit d) = 48 + d"
    by (simp add: digit_unit_def unat_of_nat del: of_nat_add of_nat_numeral)
  with d show ?thesis by (simp add: is_digit_def word_le_nat_alt)
qed

lemma show_nat_digits: "\<forall>u \<in> set (show_nat n). is_digit u"
proof (induction n rule: show_nat.induct)
  case (1 n)
  then show ?case
    by (cases "n < 10") (auto simp: show_nat.simps [of n] digit_unit)
qed

lemma show_nat_nonempty [simp]: "show_nat n \<noteq> []"
  by (subst show_nat.simps) simp

lemma digits_val_show_nat: "digits_val (show_nat n) = n"
proof (induction n rule: show_nat.induct)
  case (1 n)
  then show ?case
    by (cases "n < 10") (auto simp: show_nat.simps [of n] digits_val_def digit_unit)
qed

lemma parse_int_show_nat: "parse_int (show_nat n) = Some (int n)"
proof -
  obtain u rest where s: "show_nat n = u # rest"
    by (cases "show_nat n") auto
  have u: "is_digit u" using show_nat_digits [of n] by (simp add: s)
  then have "\<not> js_space u" "u \<noteq> unit (CHR ''-'')" "u \<noteq> unit (CHR ''+'')"
    by (auto simp: is_digit_def js_space_def unit_def Let_def word_le_nat_alt)
  moreover have "takeWhile is_digit (show_nat n) = show_nat n"
    using show_nat_digits by (simp add: takeWhile_eq_all_conv)
  ultimately show ?thesis
    using digits_val_show_nat [of n] by (simp add: parse_int_def parse_digits_def s)
qed

subsection \<open>trim, toLowerCase, includes\<close>

definition trim :: "jsstr \<Rightarrow> jsstr" where
  "trim s = rev (dropWhile js_space (rev (dropWhile js_space s)))"

text \<open>\<open>toLowerCase\<close> on the ASCII letters, which is all that its uses here can observe.\<close>

definition lower_unit :: "code_unit \<Rightarrow> code_unit" where
  "lower_unit u = (if 65 \<le> u \<and> u \<le> 90 then u + 32 else u)"

definition to_lower :: "jsstr \<Rightarrow> jsstr" where
  "to_lower s = map lower_unit s"

lemma trim_idem: "trim (trim s) = trim s"
proof -
  let ?d = "dropWhile js_space"
  have dd: "?d (?d xs) = ?d xs" for xs :: jsstr
    by (induction xs) auto
  have keep: "?d (rev (?d (rev (?d s)))) = rev (?d (rev (?d s)))"
  proof (cases "rev (?d (rev (?d s)))")
    case (Cons u us)
    then have ne: "?d (rev (?d s)) \<noteq> []" and u: "u = last (?d (rev (?d s)))"
      by (auto simp: last_rev [symmetric] simp del: last_rev)
    have "last (?d (rev (?d s))) = last (rev (?d s))"
      using ne by (metis dropWhile_eq_drop last_drop length_drop length_greater_0_conv zero_less_diff)
    also have "\<dots> = hd (?d s)"
      using ne by (metis dropWhile.simps(1) last_rev rev_is_Nil_conv)
    finally have "u = hd (?d s)" using u by simp
    moreover have "?d s \<noteq> []" using ne by (metis dropWhile.simps(1) rev.simps(1))
    ultimately have "\<not> js_space u" by (metis hd_dropWhile)
    with Cons show ?thesis by simp
  next
    case Nil
    then show ?thesis by (simp only: dropWhile.simps)
  qed
  then show ?thesis by (simp only: trim_def dd rev_rev_ident)
qed

subsection \<open>UTF-8\<close>

definition utf8_bytes :: "nat \<Rightarrow> nat list" where
  "utf8_bytes cp =
     (if cp < 128 then [cp]
      else if cp < 2048 then [192 + cp div 64, 128 + cp mod 64]
      else if cp < 65536 then [224 + cp div 4096, 128 + cp div 64 mod 64, 128 + cp mod 64]
      else [240 + cp div 262144, 128 + cp div 4096 mod 64, 128 + cp div 64 mod 64, 128 + cp mod 64])"

definition high_surrogate :: "nat \<Rightarrow> bool" where
  "high_surrogate u \<longleftrightarrow> 55296 \<le> u \<and> u < 56320"

definition low_surrogate :: "nat \<Rightarrow> bool" where
  "low_surrogate u \<longleftrightarrow> 56320 \<le> u \<and> u < 57344"

definition astral :: "nat \<Rightarrow> nat \<Rightarrow> nat" where
  "astral u v = 65536 + (u - 55296) * 1024 + (v - 56320)"

fun utf8_enc :: "nat list \<Rightarrow> nat list" where
  "utf8_enc [] = []"
| "utf8_enc [u] = (if high_surrogate u \<or> low_surrogate u then [239, 191, 189] else utf8_bytes u)"
| "utf8_enc (u # v # us) =
     (if high_surrogate u \<and> low_surrogate v then utf8_bytes (astral u v) @ utf8_enc us
      else (if high_surrogate u \<or> low_surrogate u then [239, 191, 189] else utf8_bytes u)
           @ utf8_enc (v # us))"

definition cont_byte :: "nat \<Rightarrow> bool" where
  "cont_byte b \<longleftrightarrow> 128 \<le> b \<and> b < 192"

text \<open>The range of the second byte, which rules out overlong forms, surrogates and code
  points above U+10FFFF.\<close>

definition second_byte :: "nat \<Rightarrow> nat \<Rightarrow> bool" where
  "second_byte b c \<longleftrightarrow>
     (if b = 224 then 160 else if b = 240 then 144 else 128) \<le> c
     \<and> c \<le> (if b = 237 then 159 else if b = 244 then 143 else 191)"

definition surrogates :: "nat \<Rightarrow> nat list" where
  "surrogates cp = [55296 + (cp - 65536) div 1024, 56320 + (cp - 65536) mod 1024]"

fun utf8_dec :: "nat list \<Rightarrow> nat list" where
  "utf8_dec [] = []"
| "utf8_dec (b # bs) =
     (if b < 128 then b # utf8_dec bs
      else if 194 \<le> b \<and> b < 224 then
        (case bs of
           c # cs \<Rightarrow> if cont_byte c then ((b - 192) * 64 + (c - 128)) # utf8_dec cs
                     else 65533 # utf8_dec bs
         | [] \<Rightarrow> [65533])
      else if 224 \<le> b \<and> b < 240 then
        (case bs of
           c # cs \<Rightarrow> if second_byte b c then
               (case cs of
                  d # ds \<Rightarrow> if cont_byte d
                     then ((b - 224) * 4096 + (c - 128) * 64 + (d - 128)) # utf8_dec ds
                     else 65533 # utf8_dec cs
                | [] \<Rightarrow> [65533])
               else 65533 # utf8_dec bs
         | [] \<Rightarrow> [65533])
      else if 240 \<le> b \<and> b < 245 then
        (case bs of
           c # cs \<Rightarrow> if second_byte b c then
               (case cs of
                  d # ds \<Rightarrow> if cont_byte d then
                     (case ds of
                        e # es \<Rightarrow> if cont_byte e
                           then surrogates ((b - 240) * 262144 + (c - 128) * 4096
                                            + (d - 128) * 64 + (e - 128)) @ utf8_dec es
                           else 65533 # utf8_dec ds
                      | [] \<Rightarrow> [65533])
                     else 65533 # utf8_dec cs
                | [] \<Rightarrow> [65533])
               else 65533 # utf8_dec bs
         | [] \<Rightarrow> [65533])
      else 65533 # utf8_dec bs)"

definition utf8_encode :: "jsstr \<Rightarrow> bytes" where
  "utf8_encode s = map word_of_nat (utf8_enc (map unat s))"

definition utf8_decode :: "bytes \<Rightarrow> jsstr" where
  "utf8_decode bs = map word_of_nat (utf8_dec (map unat bs))"

text \<open>Well-formed UTF-16: every surrogate is one half of a pair.\<close>

fun wf_utf16 :: "nat list \<Rightarrow> bool" where
  "wf_utf16 [] \<longleftrightarrow> True"
| "wf_utf16 [u] \<longleftrightarrow> \<not> high_surrogate u \<and> \<not> low_surrogate u"
| "wf_utf16 (u # v # us) \<longleftrightarrow>
     (if high_surrogate u then low_surrogate v \<and> wf_utf16 us
      else \<not> low_surrogate u \<and> wf_utf16 (v # us))"

definition wf_str :: "jsstr \<Rightarrow> bool" where
  "wf_str s \<longleftrightarrow> wf_utf16 (map unat s)"

text \<open>The decoder reads back each code point that the encoder writes.\<close>

lemma second_byte_3:
  assumes "q < 1024" and "32 \<le> q" and "q < 864 \<or> 896 \<le> q"
  shows "second_byte (224 + q div 64) (128 + q mod 64)"
proof -
  define d m where "d = q div 64" and "m = q mod 64"
  have "q = 64 * d + m" "m < 64" by (simp_all add: d_def m_def)
  with assms show ?thesis
    unfolding d_def [symmetric] m_def [symmetric] second_byte_def by auto
qed

lemma second_byte_4:
  assumes "16 \<le> q" and "q < 272"
  shows "second_byte (240 + q div 64) (128 + q mod 64)"
proof -
  define d m where "d = q div 64" and "m = q mod 64"
  have "q = 64 * d + m" "m < 64" by (simp_all add: d_def m_def)
  with assms show ?thesis
    unfolding d_def [symmetric] m_def [symmetric] second_byte_def by auto
qed

lemma dec_unit:
  assumes "u < 65536" and "\<not> high_surrogate u" and "\<not> low_surrogate u"
  shows "utf8_dec (utf8_bytes u @ rest) = u # utf8_dec rest"
proof -
  consider "u < 128" | "128 \<le> u" "u < 2048" | "2048 \<le> u" "u < 65536"
    using assms(1) by linarith
  then show ?thesis
  proof cases
    case 1
    then show ?thesis by (simp add: utf8_bytes_def)
  next
    case 2
    then have "194 \<le> 192 + u div 64" "192 + u div 64 < 224" by simp_all
    with 2 show ?thesis by (simp add: utf8_bytes_def cont_byte_def)
  next
    case 3
    let ?b = "224 + u div 4096" and ?c = "128 + u div 64 mod 64" and ?d = "128 + u mod 64"
    have b: "224 \<le> ?b" "?b < 240" using 3 by simp_all
    define q where "q = u div 64"
    have q: "u div 4096 = q div 64" by (simp add: q_def div_mult2_eq [symmetric])
    have "q < 1024" "32 \<le> q" "q < 864 \<or> 896 \<le> q"
      using 3 assms by (auto simp: q_def high_surrogate_def low_surrogate_def)
    then have "second_byte ?b ?c"
      unfolding q q_def [symmetric] by (rule second_byte_3)
    moreover have "q div 64 * 4096 + q mod 64 * 64 + u mod 64 = u"
      using div_mult_mod_eq [of q 64] div_mult_mod_eq [of u 64] unfolding q_def [symmetric] by linarith
    moreover have "cont_byte ?d" by (simp add: cont_byte_def)
    ultimately show ?thesis using 3 b by (simp add: utf8_bytes_def q flip: q_def)
  qed
qed

lemma dec_astral:
  assumes "high_surrogate u" and "low_surrogate v"
  shows "utf8_dec (utf8_bytes (astral u v) @ rest) = u # v # utf8_dec rest"
proof -
  define cp where "cp = astral u v"
  have cp: "65536 \<le> cp" "cp < 1114112"
    using assms by (auto simp: cp_def astral_def high_surrogate_def low_surrogate_def)
  let ?b = "240 + cp div 262144" and ?c = "128 + cp div 4096 mod 64"
    and ?d = "128 + cp div 64 mod 64" and ?e = "128 + cp mod 64"
  have b: "240 \<le> ?b" "?b < 245" using cp by simp_all
  define q where "q = cp div 4096"
  have q: "cp div 262144 = q div 64" "cp div 64 div 64 = q"
    by (simp_all add: q_def div_mult2_eq [symmetric])
  have sum: "q div 64 * 262144 + q mod 64 * 4096 + cp div 64 mod 64 * 64 + cp mod 64 = cp"
    using div_mult_mod_eq [of q 64] div_mult_mod_eq [of "cp div 64" 64] div_mult_mod_eq [of cp 64]
    unfolding q(2) by linarith
  have "16 \<le> q" "q < 272" using cp by (simp_all add: q_def)
  then have sb: "second_byte ?b ?c"
    unfolding q q_def [symmetric] by (rule second_byte_4)
  obtain h l where "u = 55296 + h" "v = 56320 + l" "l < 1024"
    using assms by (auto simp: high_surrogate_def low_surrogate_def le_iff_add)
  then have "surrogates cp = [u, v]"
    by (simp add: surrogates_def cp_def astral_def)
  moreover have "cont_byte ?d" "cont_byte ?e" by (simp_all add: cont_byte_def)
  ultimately show ?thesis
    using cp b sb sum unfolding cp_def [symmetric] utf8_bytes_def
    by (simp add: q(1) flip: q_def)
qed

lemma utf8_dec_enc:
  "wf_utf16 us \<Longrightarrow> \<forall>u \<in> set us. u < 65536 \<Longrightarrow> utf8_dec (utf8_enc us) = us"
proof (induction us rule: utf8_enc.induct)
  case (2 u)
  then show ?case using dec_unit [of u "[]"] by simp
next
  case (3 u v us)
  then show ?case
    by (cases "high_surrogate u") (auto simp: dec_unit dec_astral split: if_splits)
qed simp

lemma utf8_enc_bytes: "\<forall>u \<in> set us. u < 65536 \<Longrightarrow> \<forall>b \<in> set (utf8_enc us). b < 256"
proof (induction us rule: utf8_enc.induct)
  case (3 u v us)
  have "astral u v < 1114112" if "high_surrogate u" "low_surrogate v"
    using that by (auto simp: astral_def high_surrogate_def low_surrogate_def)
  with 3 show ?case by (auto simp: utf8_bytes_def split: if_splits)
qed (auto simp: utf8_bytes_def)

lemma utf8_enc_length: "\<forall>u \<in> set us. u < 65536 \<Longrightarrow> length (utf8_enc us) \<le> 3 * length us"
  by (induction us rule: utf8_enc.induct) (auto simp: utf8_bytes_def)

lemma unat_16_less: "\<forall>u \<in> set (map unat (s :: jsstr)). u < 65536"
  using unsigned_less [where 'b = 16, where 'a = nat] by auto

lemma utf8_roundtrip: "wf_str s \<Longrightarrow> utf8_decode (utf8_encode s) = s"
proof -
  assume wf: "wf_str s"
  have "map unat (utf8_encode s) = utf8_enc (map unat s)"
    using utf8_enc_bytes [OF unat_16_less, of s]
    by (auto simp: utf8_encode_def unat_of_nat intro!: map_idI)
  with wf show ?thesis
    using utf8_dec_enc [OF _ unat_16_less, of s]
    by (simp add: utf8_decode_def wf_str_def comp_def)
qed

lemma utf8_length: "length (utf8_encode s) \<le> 3 * length s"
  using utf8_enc_length [OF unat_16_less, of s] by (simp add: utf8_encode_def)

lemma wf_utf16_append_plain:
  "\<forall>u \<in> set us. \<not> high_surrogate u \<and> \<not> low_surrogate u \<Longrightarrow> wf_utf16 (us @ vs) \<longleftrightarrow> wf_utf16 vs"
proof (induction us)
  case (Cons u us)
  then show ?case by (cases "us @ vs") auto
qed simp

lemma js_not_surrogate: "\<forall>u \<in> set (map unat (js s)). \<not> high_surrogate u \<and> \<not> low_surrogate u"
proof -
  have "unat (of_char c :: 16 word) < 256" for c
    using of_char_less [of c] unfolding of_char_16 unat_of_nat take_bit_eq_mod
    by (meson mod_less_eq_dividend le_less_trans)
  then have "\<forall>u \<in> set (map unat (js s)). u < 256" by (auto simp: js_def)
  then show ?thesis by (auto simp: high_surrogate_def low_surrogate_def)
qed

lemma wf_str_js_append [simp]: "wf_str (js s @ t) \<longleftrightarrow> wf_str t"
  using wf_utf16_append_plain [OF js_not_surrogate] by (simp add: wf_str_def)

lemma wf_str_js [simp]: "wf_str (js s)"
  using wf_str_js_append [of s "[]"] by (simp add: wf_str_def)

text \<open>Evaluation of the encoder on literals.\<close>

lemma utf8_enc_ascii: "\<forall>u \<in> set us. u < 128 \<Longrightarrow> utf8_enc us = us"
  by (induction us rule: utf8_enc.induct) (auto simp: utf8_bytes_def high_surrogate_def low_surrogate_def)

lemma unat_of_char_16: "unat (of_char c :: 16 word) = of_char c"
  unfolding of_char_16 unat_of_nat by (rule mod_less [OF less_trans [OF of_char_less]]) simp

lemma utf8_js [js_lit]: "list_all (\<lambda>c. (of_char c :: nat) < 128) s \<Longrightarrow> utf8_encode (js s) = map of_char s"
proof -
  assume "list_all (\<lambda>c. (of_char c :: nat) < 128) s"
  then have "utf8_enc (map unat (js s)) = map of_char s"
    by (subst utf8_enc_ascii) (simp_all add: list_all_iff js_def unat_of_char_16)
  then show ?thesis by (simp add: utf8_encode_def of_nat_of_char)
qed

subsection \<open>Hexadecimal digits\<close>

definition hex_digit :: "nat \<Rightarrow> code_unit" where
  "hex_digit d = (if d < 10 then word_of_nat (48 + d) else word_of_nat (87 + d))"

definition hex_val :: "code_unit \<Rightarrow> nat option" where
  "hex_val u = (let n = unat u in
     if 48 \<le> n \<and> n \<le> 57 then Some (n - 48)
     else if 97 \<le> n \<and> n \<le> 102 then Some (n - 87)
     else if 65 \<le> n \<and> n \<le> 70 then Some (n - 55) else None)"

lemma hex_val_digit: "d < 16 \<Longrightarrow> hex_val (hex_digit d) = Some d"
  by (auto simp: hex_val_def hex_digit_def Let_def unat_of_nat simp del: of_nat_add of_nat_numeral)

end
