(* ===== verification/ClientProtocol.thy ===== *)
theory ClientProtocol
  imports JsString
begin

section \<open>The browser protocol (gateway/src/clientProtocol.ts, frontend/types/protocol.ts)\<close>

text \<open>
  The messages of both directions, the values \<open>JSON.parse\<close> can return, and the validation
  that narrows such a value to a client message.  \<open>validateClientMessage\<close> has three
  results: the message, a rejection with its text, and a thrown TypeError, which
  \<open>String(type)\<close> raises on an object whose own \<open>toString\<close> hides the inherited one.
\<close>

subsection \<open>JSON values\<close>

text \<open>
  A number is represented by the text \<open>String(n)\<close> gives for it, which is all this program
  can observe; the pairs of an object are its own properties, with distinct keys.
\<close>

datatype json = JNull | JBool bool | JNum jsstr | JStr jsstr | JArr "json list"
  | JObj "(jsstr \<times> json) list"

text \<open>\<open>raw[key]\<close> for a key that neither arrays nor \<open>Object.prototype\<close> define:
  \<open>None\<close> is \<open>undefined\<close>.\<close>

fun field :: "json \<Rightarrow> jsstr \<Rightarrow> json option" where
  "field (JObj kvs) k = map_of kvs k"
| "field _ k = None"

text \<open>\<open>typeof raw !== "object" || raw === null\<close>, negated.\<close>

fun is_object :: "json \<Rightarrow> bool" where
  "is_object (JObj _) = True"
| "is_object (JArr _) = True"
| "is_object _ = False"

text \<open>\<open>String(v)\<close>; \<open>None\<close> is a thrown TypeError ("Cannot convert object to primitive
  value"): a JSON value is never callable, so an own \<open>toString\<close> leaves only
  \<open>valueOf\<close>, which yields no primitive either.\<close>

fun js_String :: "json \<Rightarrow> jsstr option" where
  "js_String JNull = Some (js ''null'')"
| "js_String (JBool b) = Some (if b then js ''true'' else js ''false'')"
| "js_String (JNum n) = Some n"
| "js_String (JStr s) = Some s"
| "js_String (JArr vs) = map_option (join (js '',''))
     (those (map (\<lambda>v. if v = JNull then Some [] else js_String v) vs))"
| "js_String (JObj kvs) = (if js ''toString'' \<in> fst ` set kvs then None else Some (js ''[object Object]''))"

definition js_String_opt :: "json option \<Rightarrow> jsstr option" where
  "js_String_opt v = (case v of None \<Rightarrow> Some (js ''undefined'') | Some x \<Rightarrow> js_String x)"

subsection \<open>Client to gateway\<close>

datatype Presence = Online | Away | Offline

datatype MessageTarget = TPublic | TDirect (peerId: jsstr) | TGroup (groupId: jsstr)

datatype ClientMessage =
    Register jsstr jsstr
  | Login jsstr jsstr
  | Logout
  | SetNickname jsstr
  | SendMessage MessageTarget jsstr
  | CreateGroup jsstr "jsstr list"
  | SetPresence Presence
  | RequestState

definition MAX_NICKNAME_LEN :: nat where "MAX_NICKNAME_LEN = 24"
definition MAX_TEXT_LEN :: nat where "MAX_TEXT_LEN = 4000"
definition MAX_GROUP_NAME_LEN :: nat where "MAX_GROUP_NAME_LEN = 48"
definition MAX_GROUP_MEMBERS :: nat where "MAX_GROUP_MEMBERS = 64"
definition MAX_USERNAME_LEN :: nat where "MAX_USERNAME_LEN = 24"
definition MAX_PASSWORD_LEN :: nat where "MAX_PASSWORD_LEN = 256"

lemmas limits = MAX_NICKNAME_LEN_def MAX_TEXT_LEN_def MAX_GROUP_NAME_LEN_def MAX_GROUP_MEMBERS_def
  MAX_USERNAME_LEN_def MAX_PASSWORD_LEN_def

datatype ValidationResult = Valid ClientMessage | Invalid jsstr | Throws

fun nonEmptyString :: "json option \<Rightarrow> jsstr option" where
  "nonEmptyString (Some (JStr s)) = (if 0 < length s then Some s else None)"
| "nonEmptyString _ = None"

definition bounded_string :: "nat \<Rightarrow> json option \<Rightarrow> jsstr option" where
  "bounded_string n v = (case nonEmptyString v of
     None \<Rightarrow> None | Some s \<Rightarrow> if length s > n then None else Some s)"

definition range_error :: "string \<Rightarrow> nat \<Rightarrow> jsstr" where
  "range_error what n = js (what @ '' must be 1-'') @ show_nat n @ js '' characters''"

definition validate_credentials ::
    "(jsstr \<Rightarrow> jsstr \<Rightarrow> ClientMessage) \<Rightarrow> json \<Rightarrow> ValidationResult" where
  "validate_credentials mk obj =
     (case bounded_string MAX_USERNAME_LEN (field obj (js ''username'')) of
        None \<Rightarrow> Invalid (range_error ''username'' MAX_USERNAME_LEN)
      | Some u \<Rightarrow>
          (case bounded_string MAX_PASSWORD_LEN (field obj (js ''password'')) of
             None \<Rightarrow> Invalid (js ''password is required'')
           | Some p \<Rightarrow> Valid (mk u p)))"

definition quoted :: "string \<Rightarrow> string" where
  "quoted s = CHR 0x27 # s @ [CHR 0x27]"

definition validateTarget :: "json option \<Rightarrow> jsstr + MessageTarget" where
  "validateTarget raw = (case raw of
     None \<Rightarrow> Inl (js ''target must be an object'')
   | Some obj \<Rightarrow>
       if \<not> is_object obj then Inl (js ''target must be an object'')
       else if field obj (js ''kind'') = Some (JStr (js ''public'')) then Inr TPublic
       else if field obj (js ''kind'') = Some (JStr (js ''direct'')) then
         (case nonEmptyString (field obj (js ''peerId'')) of
            None \<Rightarrow> Inl (js ''direct target requires peerId'') | Some p \<Rightarrow> Inr (TDirect p))
       else if field obj (js ''kind'') = Some (JStr (js ''group'')) then
         (case nonEmptyString (field obj (js ''groupId'')) of
            None \<Rightarrow> Inl (js ''group target requires groupId'') | Some g \<Rightarrow> Inr (TGroup g))
       else Inl (js (''target.kind must be '' @ quoted ''public'' @ '', '' @ quoted ''direct'' @ '', or '' @ quoted ''group'')))"

fun all_strings :: "json list \<Rightarrow> jsstr list option" where
  "all_strings [] = Some []"
| "all_strings (JStr s # vs) = (if 0 < length s then map_option (\<lambda>ss. s # ss) (all_strings vs) else None)"
| "all_strings (_ # vs) = None"

fun member_ids :: "json option \<Rightarrow> jsstr list option" where
  "member_ids (Some (JArr vs)) =
     (if length vs = 0 \<or> length vs > MAX_GROUP_MEMBERS then None else all_strings vs)"
| "member_ids _ = None"

definition validateClientMessage :: "json \<Rightarrow> ValidationResult" where
  "validateClientMessage raw =
     (if \<not> is_object raw then Invalid (js ''message must be a JSON object'')
      else let type = field raw (js ''type'') in
        if type = Some (JStr (js ''register'')) then validate_credentials Register raw
        else if type = Some (JStr (js ''login'')) then validate_credentials Login raw
        else if type = Some (JStr (js ''logout'')) then Valid Logout
        else if type = Some (JStr (js ''setNickname'')) then
          (case bounded_string MAX_NICKNAME_LEN (field raw (js ''nickname'')) of
             None \<Rightarrow> Invalid (range_error ''nickname'' MAX_NICKNAME_LEN)
           | Some n \<Rightarrow> Valid (SetNickname n))
        else if type = Some (JStr (js ''sendMessage'')) then
          (case bounded_string MAX_TEXT_LEN (field raw (js ''text'')) of
             None \<Rightarrow> Invalid (range_error ''text'' MAX_TEXT_LEN)
           | Some text \<Rightarrow>
               (case validateTarget (field raw (js ''target'')) of
                  Inl e \<Rightarrow> Invalid e | Inr target \<Rightarrow> Valid (SendMessage target text)))
        else if type = Some (JStr (js ''createGroup'')) then
          (case bounded_string MAX_GROUP_NAME_LEN (field raw (js ''name'')) of
             None \<Rightarrow> Invalid (range_error ''group name'' MAX_GROUP_NAME_LEN)
           | Some name \<Rightarrow>
               (case member_ids (field raw (js ''memberIds'')) of
                  None \<Rightarrow> Invalid (js ''memberIds must be a non-empty array of up to ''
                            @ show_nat MAX_GROUP_MEMBERS @ js '' user ids'')
                | Some ids \<Rightarrow> Valid (CreateGroup name ids)))
        else if type = Some (JStr (js ''setPresence'')) then
          (if field raw (js ''presence'') = Some (JStr (js ''online'')) then Valid (SetPresence Online)
           else if field raw (js ''presence'') = Some (JStr (js ''away'')) then Valid (SetPresence Away)
           else Invalid (js (''presence must be '' @ quoted ''online'' @ '' or '' @ quoted ''away'')))
        else if type = Some (JStr (js ''requestState'')) then Valid RequestState
        else (case js_String_opt type of
                None \<Rightarrow> Throws
              | Some t \<Rightarrow> Invalid (js (''unknown message type '' @ [CHR 0x27]) @ t @ js [CHR 0x27])))"

subsection \<open>Gateway to client\<close>

record UserSummary =
  us_id :: jsstr
  us_username :: jsstr
  us_presence :: Presence

datatype ConversationKind = KPublic | KDirect | KGroup

record ConversationSummary =
  cs_id :: jsstr
  cs_kind :: ConversationKind
  cs_title :: jsstr
  cs_memberIds :: "jsstr list"

datatype MessageKind = Chat | System

record MessageSummary =
  ms_id :: jsstr
  ms_conversationId :: jsstr
  ms_kind :: MessageKind
  ms_senderId :: "jsstr option"
  ms_senderUsername :: "jsstr option"
  ms_text :: jsstr
  ms_timestamp :: jsstr

datatype ServerMessage =
    SReady jsstr jsstr "UserSummary list" "ConversationSummary list" "MessageSummary list"
  | SLoggedOut
  | SUserUpdate UserSummary
  | SUserOffline jsstr
  | SConversationCreated ConversationSummary
  | SMessage MessageSummary
  | SError jsstr jsstr "jsstr option"

fun is_error :: "ServerMessage \<Rightarrow> bool" where
  "is_error (SError _ _ _) = True"
| "is_error _ = False"

subsection \<open>What the browser encodes (frontend/types/protocol.ts)\<close>

text \<open>\<open>encodeOutbound\<close> is \<open>JSON.stringify\<close>; the value it writes, which the gateway's
  \<open>JSON.parse\<close> reads back:\<close>

fun presence_name :: "Presence \<Rightarrow> jsstr" where
  "presence_name Online = js ''online''"
| "presence_name Away = js ''away''"
| "presence_name Offline = js ''offline''"

definition tagged :: "string \<Rightarrow> (string \<times> json) list \<Rightarrow> json" where
  "tagged t kvs = JObj ((js ''type'', JStr (js t)) # map (\<lambda>(k, v). (js k, v)) kvs)"

fun target_json :: "MessageTarget \<Rightarrow> json" where
  "target_json TPublic = JObj [(js ''kind'', JStr (js ''public''))]"
| "target_json (TDirect p) = JObj [(js ''kind'', JStr (js ''direct'')), (js ''peerId'', JStr p)]"
| "target_json (TGroup g) = JObj [(js ''kind'', JStr (js ''group'')), (js ''groupId'', JStr g)]"

fun outbound_json :: "ClientMessage \<Rightarrow> json" where
  "outbound_json (Register u p) = tagged ''register'' [(''username'', JStr u), (''password'', JStr p)]"
| "outbound_json (Login u p) = tagged ''login'' [(''username'', JStr u), (''password'', JStr p)]"
| "outbound_json Logout = tagged ''logout'' []"
| "outbound_json (SetNickname n) = tagged ''setNickname'' [(''nickname'', JStr n)]"
| "outbound_json (SendMessage t text) = tagged ''sendMessage'' [(''target'', target_json t), (''text'', JStr text)]"
| "outbound_json (CreateGroup name ids) =
     tagged ''createGroup'' [(''name'', JStr name), (''memberIds'', JArr (map JStr ids))]"
| "outbound_json (SetPresence p) = tagged ''setPresence'' [(''presence'', JStr (presence_name p))]"
| "outbound_json RequestState = tagged ''requestState'' []"

subsection \<open>The contract of a valid message\<close>

definition sized :: "nat \<Rightarrow> jsstr \<Rightarrow> bool" where
  "sized n s \<longleftrightarrow> 0 < length s \<and> length s \<le> n"

fun valid_target :: "MessageTarget \<Rightarrow> bool" where
  "valid_target TPublic \<longleftrightarrow> True"
| "valid_target (TDirect p) \<longleftrightarrow> p \<noteq> []"
| "valid_target (TGroup g) \<longleftrightarrow> g \<noteq> []"

fun valid_client_message :: "ClientMessage \<Rightarrow> bool" where
  "valid_client_message (Register u p) \<longleftrightarrow> sized MAX_USERNAME_LEN u \<and> sized MAX_PASSWORD_LEN p"
| "valid_client_message (Login u p) \<longleftrightarrow> sized MAX_USERNAME_LEN u \<and> sized MAX_PASSWORD_LEN p"
| "valid_client_message (SetNickname n) \<longleftrightarrow> sized MAX_NICKNAME_LEN n"
| "valid_client_message (SendMessage t text) \<longleftrightarrow> valid_target t \<and> sized MAX_TEXT_LEN text"
| "valid_client_message (CreateGroup name ids) \<longleftrightarrow> sized MAX_GROUP_NAME_LEN name
     \<and> ids \<noteq> [] \<and> length ids \<le> MAX_GROUP_MEMBERS \<and> [] \<notin> set ids"
| "valid_client_message (SetPresence p) \<longleftrightarrow> p \<noteq> Offline"
| "valid_client_message _ \<longleftrightarrow> True"

lemma bounded_string_Some: "bounded_string n v = Some s \<longleftrightarrow> v = Some (JStr s) \<and> sized n s"
  by (cases v rule: nonEmptyString.cases) (auto simp: bounded_string_def sized_def)

lemma nonEmptyString_Some: "nonEmptyString v = Some s \<longleftrightarrow> v = Some (JStr s) \<and> s \<noteq> []"
  by (cases v rule: nonEmptyString.cases) auto

lemma all_strings_Some: "all_strings vs = Some ss \<longleftrightarrow> vs = map JStr ss \<and> [] \<notin> set ss"
proof (induction vs arbitrary: ss rule: all_strings.induct)
  case (2 s vs)
  then show ?case by (cases ss) auto
next
  case 1
  then show ?case by auto
qed (simp_all add: Cons_eq_map_conv)

lemma member_ids_Some:
  "member_ids v = Some ids \<longleftrightarrow>
     v = Some (JArr (map JStr ids)) \<and> ids \<noteq> [] \<and> length ids \<le> MAX_GROUP_MEMBERS \<and> [] \<notin> set ids"
  by (cases v rule: member_ids.cases) (auto simp: all_strings_Some)

lemma validateTarget_sound: "validateTarget raw = Inr t \<Longrightarrow> valid_target t"
  by (auto simp: validateTarget_def nonEmptyString_Some split: option.splits if_splits)

lemma validateTarget_complete: "valid_target t \<Longrightarrow> validateTarget (Some (target_json t)) = Inr t"
  by (cases t) (simp_all add: validateTarget_def)

lemma validate_credentials_Valid:
  "validate_credentials mk obj = Valid m \<Longrightarrow>
   \<exists>u p. m = mk u p \<and> sized MAX_USERNAME_LEN u \<and> sized MAX_PASSWORD_LEN p"
  by (auto simp: validate_credentials_def bounded_string_Some split: option.splits)

lemma validate_outbound:
  assumes "valid_client_message m"
  shows "validateClientMessage (outbound_json m) = Valid m"
proof -
  have str: "bounded_string n (Some (JStr s)) = Some s" if "sized n s" for n s
    using that by (simp add: bounded_string_Some)
  have ids: "member_ids (Some (JArr (map JStr ids))) = Some ids"
    if "ids \<noteq> []" "length ids \<le> MAX_GROUP_MEMBERS" "[] \<notin> set ids" for ids
    using that by (simp only: member_ids_Some) simp
  show ?thesis
  proof (cases m)
    case (SetPresence p)
    with assms show ?thesis by (cases p) (simp_all add: validateClientMessage_def tagged_def)
  qed (use assms in \<open>simp_all add: validateClientMessage_def tagged_def validate_credentials_def str ids
         validateTarget_complete del: member_ids.simps\<close>)
qed

subsection \<open>Properties\<close>

text \<open>C33: Validation is sound.  Whatever value the browser sends, a message that validation
  lets through respects every limit of the protocol: the sizes of user name, password,
  nickname, text and group name, a non-empty target id, one to 64 non-empty member ids, and
  a presence the client may set.\<close>

theorem validation_sound:
  assumes "validateClientMessage raw = Valid m"
  shows "valid_client_message m"
  using assms
  by (auto simp: validateClientMessage_def Let_def bounded_string_Some member_ids_Some
      split: if_splits option.splits sum.splits
      dest!: validate_credentials_Valid validateTarget_sound)

theorem validation_sound_witness:
  "valid_client_message (SendMessage (TDirect (js ''u2'')) (js ''hi''))"
proof (rule validation_sound)
  show "validateClientMessage (JObj [(js ''type'', JStr (js ''sendMessage'')), (js ''text'', JStr (js ''hi'')),
      (js ''target'', JObj [(js ''kind'', JStr (js ''direct'')), (js ''peerId'', JStr (js ''u2''))])])
    = Valid (SendMessage (TDirect (js ''u2'')) (js ''hi''))"
    by (simp add: validateClientMessage_def bounded_string_def limits validateTarget_def)
qed

text \<open>Validation is complete.  Every message within the limits that the frontend encodes
  is accepted by the gateway and read back as the same message, so the two copies of the
  protocol agree.\<close>

theorem validation_complete:
  assumes "valid_client_message m"
  shows "validateClientMessage (outbound_json m) = Valid m"
  using assms by (rule validate_outbound)

theorem validation_complete_witness:
  "validateClientMessage (outbound_json (CreateGroup (js ''team'') [js ''u2''])) = Valid (CreateGroup (js ''team'') [js ''u2''])"
  by (rule validation_complete) (simp add: sized_def limits)

text \<open>C34: A thrown exception is possible, and exactly in one place.  Validation throws if and
  only if the message is an object whose \<open>type\<close> cannot be converted to a string; a message
  whose type is a string, and one with no type at all, never makes it throw.\<close>

theorem validation_throws_iff:
  "validateClientMessage raw = Throws \<longleftrightarrow> (\<exists>v. is_object raw \<and> field raw (js ''type'') = Some v \<and> js_String v = None)"
proof -
  have nothrow: "validate_credentials mk obj \<noteq> Throws" for mk obj
    by (auto simp: validate_credentials_def split: option.splits)
  show ?thesis
    by (cases "field raw (js ''type'')")
      (auto simp: validateClientMessage_def js_String_opt_def nothrow Let_def
        split: if_splits option.splits sum.splits)
qed

text \<open>A small message, accepted before any login, makes validation throw: an
  object whose type is an object with its own \<open>toString\<close> property.\<close>

theorem hostile_type_throws:
  "validateClientMessage (JObj [(js ''type'', JObj [(js ''toString'', v)])]) = Throws"
  by (simp add: validateClientMessage_def js_String_opt_def)

end
