(* ===== verification/Sessions.thy ===== *)
theory Sessions
  imports ClientProtocol
begin

section \<open>Sessions and the roster (gateway/src/session.ts, gateway/src/sessionManager.ts)\<close>

text \<open>
  A browser session and the map of the sessions that are logged in.  JavaScript shares one
  \<open>Session\<close> object between the closures of its socket and the map, so the map holds
  references (numbers) into a heap of sessions; a backend connection is a reference as well.
\<close>

text \<open>\<open>ws.readyState\<close>; an accepted socket is past CONNECTING.\<close>

datatype ReadyState = WsOpen | WsClosing | WsClosed

record Session =
  s_id :: jsstr
  s_authenticated :: bool
  s_backend :: "nat option"
  s_nickname :: jsstr
  s_desiredUsername :: "jsstr option"
  s_readyAnnounced :: bool
  s_presence :: Presence
  s_welcomed :: bool
  s_closed :: bool
  s_pending :: "ClientMessage list"
  s_ws :: ReadyState

definition new_Session :: "jsstr \<Rightarrow> Session" where
  "new_Session uuid =
     \<lparr>s_id = js ''pending:'' @ uuid, s_authenticated = False, s_backend = None, s_nickname = [],
      s_desiredUsername = None, s_readyAnnounced = False, s_presence = Online, s_welcomed = False,
      s_closed = False, s_pending = [], s_ws = WsOpen\<rparr>"

definition queueUntilReady :: "ClientMessage \<Rightarrow> Session \<Rightarrow> Session" where
  "queueUntilReady message s = s\<lparr>s_pending := s_pending s @ [message]\<rparr>"

definition drainQueue :: "Session \<Rightarrow> ClientMessage list \<times> Session" where
  "drainQueue s = (s_pending s, s\<lparr>s_pending := []\<rparr>)"

subsection \<open>The roster\<close>

type_synonym sessions = "nat \<Rightarrow> Session"
type_synonym roster = "(jsstr \<times> nat) list"

definition roster_add :: "sessions \<Rightarrow> nat \<Rightarrow> roster \<Rightarrow> roster" where
  "roster_add h r byId = AList.update (s_id (h r)) r byId"

definition roster_remove :: "jsstr \<Rightarrow> roster \<Rightarrow> roster" where
  "roster_remove sessionId byId = AList.delete sessionId byId"

definition roster_get :: "roster \<Rightarrow> jsstr \<Rightarrow> nat option" where
  "roster_get byId sessionId = map_of byId sessionId"

definition roster_all :: "roster \<Rightarrow> nat list" where
  "roster_all byId = map snd byId"

definition findByNickname :: "sessions \<Rightarrow> roster \<Rightarrow> jsstr \<Rightarrow> nat option" where
  "findByNickname h byId nickname =
     find (\<lambda>r. s_welcomed (h r) \<and> s_nickname (h r) = nickname) (roster_all byId)"

definition summarize :: "Session \<Rightarrow> UserSummary" where
  "summarize s = \<lparr>us_id = s_id s, us_username = s_nickname s, us_presence = s_presence s\<rparr>"

definition welcomedUsers :: "sessions \<Rightarrow> roster \<Rightarrow> UserSummary list" where
  "welcomedUsers h byId = map (\<lambda>r. summarize (h r)) (filter (\<lambda>r. s_welcomed (h r)) (roster_all byId))"

lemma roster_get_add: "roster_get (roster_add h r m) = (roster_get m)(s_id (h r) \<mapsto> r)"
  by (simp add: roster_get_def roster_add_def alist.get_put fun_eq_iff)

lemma roster_get_remove: "roster_get (roster_remove i m) = (roster_get m)(i := None)"
  by (simp add: roster_get_def roster_remove_def alist.get_remove fun_eq_iff)

definition roster_wf :: "roster \<Rightarrow> bool" where
  "roster_wf m \<longleftrightarrow> distinct (map fst m)"

lemma roster_wf_add: "roster_wf m \<Longrightarrow> roster_wf (roster_add h r m)"
  unfolding roster_wf_def roster_add_def by (rule alist.wf_put)

lemma roster_wf_remove: "roster_wf m \<Longrightarrow> roster_wf (roster_remove i m)"
  unfolding roster_wf_def roster_remove_def by (rule alist.wf_remove)

lemma roster_all_get: "roster_wf m \<Longrightarrow> r \<in> set (roster_all m) \<longleftrightarrow> (\<exists>i. roster_get m i = Some r)"
  by (force simp: roster_wf_def roster_all_def roster_get_def image_iff intro: map_of_is_SomeI dest: map_of_SomeD)

lemma findByNickname_Some:
  "findByNickname h m n = Some r \<Longrightarrow> r \<in> set (roster_all m) \<and> s_welcomed (h r) \<and> s_nickname (h r) = n"
  by (auto simp: findByNickname_def dest: find_Some_set)

lemma findByNickname_None:
  "findByNickname h m n = None \<longleftrightarrow> (\<forall>r \<in> set (roster_all m). \<not> (s_welcomed (h r) \<and> s_nickname (h r) = n))"
  by (auto simp: findByNickname_def find_None_all)

lemma welcomedUsers_set:
  "roster_wf m \<Longrightarrow> set (welcomedUsers h m) = {summarize (h q) |q. s_welcomed (h q) \<and> (\<exists>k. roster_get m k = Some q)}"
  by (auto simp: welcomedUsers_def roster_all_get)

end
