(* ===== verification/WireProtocol.thy ===== *)
theory WireProtocol
  imports JsString
begin

section \<open>Length-prefixed framing (gateway/src/wireProtocol.ts)\<close>

text \<open>
  The frame decoder of the gateway's TCP side and its encoder.  The decoder's state is the
  buffer of bytes received and not yet consumed; \<open>push\<close> appends a chunk and peels off the
  complete frames.  The interface \<open>frame_channel\<close> states what a client of a framing layer
  relies on (chunking is irrelevant, an encoded frame comes back) and derives that any
  chunking of a sequence of encoded frames is read back as that sequence.
\<close>

subsection \<open>The code\<close>

definition FRAME_HEADER_SIZE :: nat where
  "FRAME_HEADER_SIZE = 4"

record FrameDecoder =
  buffer :: bytes
  maxPayloadSize :: nat

definition new_FrameDecoder :: "nat \<Rightarrow> FrameDecoder" where
  "new_FrameDecoder m = \<lparr>buffer = [], maxPayloadSize = m\<rparr>"

text \<open>\<open>buffer.readUInt32BE(0)\<close> and \<open>header.writeUInt32BE(n, 0)\<close>.\<close>

fun readUInt32BE :: "bytes \<Rightarrow> nat" where
  "readUInt32BE (a # b # c # d # _) = unat a * 16777216 + unat b * 65536 + unat c * 256 + unat d"
| "readUInt32BE _ = 0"

definition uint32be :: "nat \<Rightarrow> bytes" where
  "uint32be n = [word_of_nat (n div 16777216), word_of_nat (n div 65536), word_of_nat (n div 256),
                 word_of_nat n]"

text \<open>The loop of \<open>push\<close>: the frames, what is left in the buffer, and whether the loop
  returned with \<open>error: "too_large"\<close>.\<close>

function drain :: "nat \<Rightarrow> bytes \<Rightarrow> bytes list \<times> bytes \<times> bool" where
  "drain m buf =
     (if length buf < FRAME_HEADER_SIZE then ([], buf, False)
      else let len = readUInt32BE buf in
        if len > m then ([], buf, True)
        else if length buf < FRAME_HEADER_SIZE + len then ([], buf, False)
        else let payload = take len (drop FRAME_HEADER_SIZE buf);
                 (frames, rest, err) = drain m (drop (FRAME_HEADER_SIZE + len) buf)
             in (payload # frames, rest, err))"
  by pat_completeness auto
termination
  by (relation "measure (\<lambda>(m, buf). length buf)") (auto simp: FRAME_HEADER_SIZE_def)

declare drain.simps [simp del]

definition push :: "FrameDecoder \<Rightarrow> bytes \<Rightarrow> FrameDecoder \<times> bytes list \<times> bool" where
  "push d chunk =
     (let buf = (if buffer d = [] then chunk else buffer d @ chunk);
          (frames, rest, err) = drain (maxPayloadSize d) buf
      in (d\<lparr>buffer := rest\<rparr>, frames, err))"

text \<open>\<open>encodeFrame\<close>; \<open>writeUInt32BE\<close> throws a RangeError (\<open>None\<close>) when the length
  does not fit in 32 bits.\<close>

definition encodeFrame :: "bytes \<Rightarrow> bytes option" where
  "encodeFrame body = (if length body < 2 ^ 32 then Some (uint32be (length body) @ body) else None)"

definition encodeFrame_str :: "jsstr \<Rightarrow> bytes option" where
  "encodeFrame_str payload = encodeFrame (utf8_encode payload)"

subsection \<open>The interface of a framing layer\<close>

fun feed_all :: "('d \<Rightarrow> 'b list \<Rightarrow> ('p list \<times> 'd) option) \<Rightarrow> 'd \<Rightarrow> 'b list list \<Rightarrow> ('p list \<times> 'd) option" where
  "feed_all feed d [] = Some ([], d)"
| "feed_all feed d (c # cs) =
     (case feed d c of None \<Rightarrow> None
      | Some (fs, d') \<Rightarrow> map_option (\<lambda>(gs, d''). (fs @ gs, d'')) (feed_all feed d' cs))"

locale frame_channel =
  fixes enc :: "'p \<Rightarrow> 'b list"
    and feed :: "'d \<Rightarrow> 'b list \<Rightarrow> ('p list \<times> 'd) option"
    and settled :: "'d \<Rightarrow> bool"
    and idle :: "'d \<Rightarrow> bool"
    and fits :: "'d \<Rightarrow> 'p \<Rightarrow> bool"
  assumes feed_append: "feed d (a @ b) =
      (case feed d a of None \<Rightarrow> None
       | Some (fs, d') \<Rightarrow> map_option (\<lambda>(gs, d''). (fs @ gs, d'')) (feed d' b))"
    and feed_nothing: "settled d \<Longrightarrow> feed d [] = Some ([], d)"
    and feed_settled: "feed d c = Some (fs, d') \<Longrightarrow> settled d'"
    and idle_settled: "idle d \<Longrightarrow> settled d"
    and feed_frame: "idle d \<Longrightarrow> fits d p \<Longrightarrow> feed d (enc p) = Some ([p], d)"
begin

lemma feed_chunks: "settled d \<Longrightarrow> feed_all feed d cs = feed d (concat cs)"
proof (induction cs arbitrary: d)
  case (Cons c cs)
  then show ?case
    by (auto simp: feed_append dest: feed_settled split: option.splits)
qed (simp add: feed_nothing)

lemma feed_frames: "idle d \<Longrightarrow> \<forall>p \<in> set ps. fits d p \<Longrightarrow> feed d (concat (map enc ps)) = Some (ps, d)"
  by (induction ps) (simp_all add: feed_nothing idle_settled feed_append feed_frame)

lemma chunked_frames:
  "idle d \<Longrightarrow> \<forall>p \<in> set ps. fits d p \<Longrightarrow> concat cs = concat (map enc ps) \<Longrightarrow>
   feed_all feed d cs = Some (ps, d)"
  by (simp add: feed_chunks idle_settled feed_frames)

end

subsection \<open>Facts of the loop\<close>

lemma read_uint32be: "n < 2 ^ 32 \<Longrightarrow> readUInt32BE (uint32be n @ rest) = n"
proof -
  assume "n < 2 ^ 32"
  moreover define a b c where "a = n div 256" and "b = a div 256" and "c = b div 256"
  ultimately have "c < 256" and div: "n div 65536 = b" "n div 16777216 = c"
    by (simp_all add: div_mult2_eq [symmetric])
  then show ?thesis
    using div_mult_mod_eq [of n 256] div_mult_mod_eq [of a 256] div_mult_mod_eq [of b 256]
    by (simp add: uint32be_def div unat_of_nat flip: a_def b_def c_def)
qed

lemma length_uint32be [simp]: "length (uint32be n) = FRAME_HEADER_SIZE"
  by (simp add: uint32be_def FRAME_HEADER_SIZE_def)

lemma read_append: "FRAME_HEADER_SIZE \<le> length buf \<Longrightarrow> readUInt32BE (buf @ tail) = readUInt32BE buf"
  by (induction buf rule: readUInt32BE.induct) (auto simp: FRAME_HEADER_SIZE_def)

text \<open>The four ways an iteration of the loop can go.\<close>

lemma drain_short: "length buf < FRAME_HEADER_SIZE \<Longrightarrow> drain m buf = ([], buf, False)"
  by (simp add: drain.simps)

lemma drain_large:
  "FRAME_HEADER_SIZE \<le> length buf \<Longrightarrow> m < readUInt32BE buf \<Longrightarrow> drain m buf = ([], buf, True)"
  by (simp add: drain.simps)

lemma drain_wait:
  "FRAME_HEADER_SIZE \<le> length buf \<Longrightarrow> readUInt32BE buf \<le> m \<Longrightarrow>
   length buf < FRAME_HEADER_SIZE + readUInt32BE buf \<Longrightarrow> drain m buf = ([], buf, False)"
  by (simp add: drain.simps)

lemma drain_step:
  "FRAME_HEADER_SIZE + readUInt32BE buf \<le> length buf \<Longrightarrow> readUInt32BE buf \<le> m \<Longrightarrow>
   drain m (drop (FRAME_HEADER_SIZE + readUInt32BE buf) buf) = (fs, rest, err) \<Longrightarrow>
   drain m buf = (take (readUInt32BE buf) (drop FRAME_HEADER_SIZE buf) # fs, rest, err)"
  by (simp add: drain.simps [of m buf] Let_def)

lemma drain_induct [case_names short large wait step]:
  assumes "\<And>buf. length buf < FRAME_HEADER_SIZE \<Longrightarrow> P buf"
    and "\<And>buf. FRAME_HEADER_SIZE \<le> length buf \<Longrightarrow> m < readUInt32BE buf \<Longrightarrow> P buf"
    and "\<And>buf. FRAME_HEADER_SIZE \<le> length buf \<Longrightarrow> readUInt32BE buf \<le> m \<Longrightarrow>
           length buf < FRAME_HEADER_SIZE + readUInt32BE buf \<Longrightarrow> P buf"
    and "\<And>buf. FRAME_HEADER_SIZE + readUInt32BE buf \<le> length buf \<Longrightarrow> readUInt32BE buf \<le> m \<Longrightarrow>
           P (drop (FRAME_HEADER_SIZE + readUInt32BE buf) buf) \<Longrightarrow> P buf"
  shows "P buf"
proof (induction buf rule: length_induct)
  case (1 buf)
  consider "length buf < FRAME_HEADER_SIZE" | "FRAME_HEADER_SIZE \<le> length buf" "m < readUInt32BE buf"
    | "FRAME_HEADER_SIZE \<le> length buf" "readUInt32BE buf \<le> m" "length buf < FRAME_HEADER_SIZE + readUInt32BE buf"
    | "FRAME_HEADER_SIZE + readUInt32BE buf \<le> length buf" "readUInt32BE buf \<le> m"
    by linarith
  then show ?case
  proof cases
    case 4
    with 1 have "P (drop (FRAME_HEADER_SIZE + readUInt32BE buf) buf)"
      by (simp add: FRAME_HEADER_SIZE_def)
    with 4 show ?thesis by (rule assms(4))
  qed (auto intro: assms)
qed

lemma drain_append:
  "drain m (a @ b) =
     (case drain m a of (fs, rest, err) \<Rightarrow>
        if err then (fs, rest @ b, True)
        else (case drain m (rest @ b) of (gs, rest', err') \<Rightarrow> (fs @ gs, rest', err')))"
proof (induction a rule: drain_induct [where m = m])
  case (short a)
  then show ?case by (simp add: drain_short split: prod.splits)
next
  case (large a)
  then show ?case by (simp add: drain_large read_append)
next
  case (wait a)
  then show ?case by (simp add: drain_wait split: prod.splits)
next
  case (step a)
  let ?d = "drop (FRAME_HEADER_SIZE + readUInt32BE a) a"
  obtain fs rest err where d: "drain m ?d = (fs, rest, err)" by (metis prod_cases3)
  obtain gs rest' err' where r: "drain m (?d @ b) = (gs, rest', err')" by (metis prod_cases3)
  from step have "drain m (a @ b) = (take (readUInt32BE a) (drop FRAME_HEADER_SIZE a) # gs, rest', err')"
    using drain_step [of "a @ b" m gs rest' err'] r by (simp add: read_append)
  with step.IH d r show ?case
    by (auto simp: drain_step [OF step.hyps(1,2) d] split: prod.splits if_splits)
qed

lemma drain_rest: "drain m buf = (fs, rest, False) \<Longrightarrow> drain m rest = ([], rest, False)"
proof (induction buf arbitrary: fs rule: drain_induct [where m = m])
  case (step buf)
  obtain gs rest' err where d: "drain m (drop (FRAME_HEADER_SIZE + readUInt32BE buf) buf) = (gs, rest', err)"
    by (metis prod_cases3)
  with step show ?case by (simp add: drain_step [OF step.hyps(1,2) d])
qed (auto simp: drain_short drain_large drain_wait)

lemma drain_stuck: "drain m rest = ([], rest, False) \<Longrightarrow> length rest < FRAME_HEADER_SIZE + m"
proof (induction rest rule: drain_induct [where m = m])
  case (step buf)
  obtain gs rest' err where d: "drain m (drop (FRAME_HEADER_SIZE + readUInt32BE buf) buf) = (gs, rest', err)"
    by (metis prod_cases3)
  with step show ?case by (simp add: drain_step [OF step.hyps(1,2) d])
qed (auto simp: drain_large)

lemma drain_frame:
  assumes "length p \<le> m" and "length p < 2 ^ 32"
  shows "drain m (uint32be (length p) @ p) = ([p], [], False)"
proof -
  have "readUInt32BE (uint32be (length p) @ p) = length p"
    using assms(2) by (rule read_uint32be)
  moreover have "drain m [] = ([], [], False)"
    by (simp add: drain_short FRAME_HEADER_SIZE_def)
  ultimately show ?thesis
    using drain_step [of "uint32be (length p) @ p" m "[]" "[]" False] assms(1) by simp
qed

subsection \<open>The decoder provides the interface\<close>

definition decoder_feed :: "FrameDecoder \<Rightarrow> bytes \<Rightarrow> (bytes list \<times> FrameDecoder) option" where
  "decoder_feed d chunk = (case push d chunk of (d', frames, err) \<Rightarrow> if err then None else Some (frames, d'))"

definition decoder_settled :: "FrameDecoder \<Rightarrow> bool" where
  "decoder_settled d \<longleftrightarrow> drain (maxPayloadSize d) (buffer d) = ([], buffer d, False)"

lemma push_drain:
  "push d chunk = (case drain (maxPayloadSize d) (buffer d @ chunk) of
     (frames, rest, err) \<Rightarrow> (d\<lparr>buffer := rest\<rparr>, frames, err))"
  by (simp add: push_def)

interpretation wire: frame_channel "\<lambda>p. uint32be (length p) @ p" decoder_feed decoder_settled
  "\<lambda>d. buffer d = []" "\<lambda>d p. length p \<le> maxPayloadSize d \<and> length p < 2 ^ 32"
proof
  fix d a b
  show "decoder_feed d (a @ b) =
      (case decoder_feed d a of None \<Rightarrow> None
       | Some (fs, d') \<Rightarrow> map_option (\<lambda>(gs, d''). (fs @ gs, d'')) (decoder_feed d' b))"
    by (auto simp: decoder_feed_def push_drain drain_append [of _ "buffer d @ a", simplified]
        split: prod.splits bool.splits)
next
  fix d :: FrameDecoder
  assume "buffer d = []"
  then show "decoder_settled d"
    by (simp add: decoder_settled_def drain.simps FRAME_HEADER_SIZE_def)
qed (auto simp: decoder_feed_def decoder_settled_def push_drain drain_frame
       split: prod.splits if_splits dest: drain_rest)

subsection \<open>Properties\<close>

lemma encoded_frames:
  "map encodeFrame ps = map Some fs \<Longrightarrow>
   fs = map (\<lambda>p. uint32be (length p) @ p) ps \<and> (\<forall>p \<in> set ps. length p < 2 ^ 32)"
proof (induction ps arbitrary: fs)
  case (Cons p ps)
  then show ?case by (cases fs) (auto simp: encodeFrame_def split: if_splits)
qed simp

lemma drain_encoded:
  "map encodeFrame ps = map Some fs \<Longrightarrow> \<forall>p \<in> set ps. length p \<le> m \<Longrightarrow>
   drain m (concat fs) = (ps, [], False)"
  using wire.feed_frames [of "new_FrameDecoder m" ps] encoded_frames [of ps fs]
  by (auto simp: decoder_feed_def push_drain new_FrameDecoder_def split: prod.splits if_splits)

text \<open>C10: Chunking is irrelevant.  However TCP cuts the encodings of a sequence of payloads
  into chunks, pushing the chunks one after the other yields exactly these payloads in order,
  with no error and an empty buffer at the end, as long as no payload exceeds the limit.\<close>

theorem frames_survive_chunking:
  assumes "map encodeFrame ps = map Some fs"
    and "\<forall>p \<in> set ps. length p \<le> m"
    and "concat chunks = concat fs"
  shows "feed_all decoder_feed (new_FrameDecoder m) chunks = Some (ps, new_FrameDecoder m)"
  using assms encoded_frames [OF assms(1)]
  by (intro wire.chunked_frames) (auto simp: new_FrameDecoder_def)

theorem frames_survive_chunking_witness:
  "feed_all decoder_feed (new_FrameDecoder 8)
     [[0, 0], [0], [2, 7], [9, 0, 0, 0, 0, 0, 0, 0, 1], [5]] = Some ([[7, 9], [], [5]], new_FrameDecoder 8)"
  by (rule frames_survive_chunking [where fs = "[[0, 0, 0, 2, 7, 9], [0, 0, 0, 0], [0, 0, 0, 1, 5]]"])
    (simp_all add: encodeFrame_def uint32be_def)

text \<open>An oversized frame is refused on its header.  The frames in front of it are
  delivered, the decoder reports the error without waiting for a byte of the payload, and it
  reports it again on every later chunk without delivering anything.\<close>

theorem oversized_frame_refused:
  assumes "map encodeFrame ps = map Some fs" and "\<forall>p \<in> set ps. length p \<le> m"
    and "m < n" and "n < 2 ^ 32"
    and "push (new_FrameDecoder m) (concat fs @ uint32be n @ rest) = (d, frames, err)"
  shows "frames = ps \<and> err \<and> (\<exists>d'. push d more_bytes = (d', [], True))"
proof -
  have "drain m (concat fs) = (ps, [], False)"
    by (rule drain_encoded [OF assms(1,2)])
  moreover have "drain m (uint32be n @ tl) = ([], uint32be n @ tl, True)" for tl
    using assms(3,4) by (simp add: drain_large read_uint32be)
  ultimately show ?thesis
    using assms(5) by (auto simp: push_drain new_FrameDecoder_def drain_append [of m "concat fs"])
qed

theorem oversized_frame_refused_witness:
  "\<exists>d. push (new_FrameDecoder 2) ([0, 0, 0, 1, 7] @ uint32be 3 @ [1]) = (d, [[7]], True)
     \<and> (\<exists>d'. push d [2, 3] = (d', [], True))"
proof -
  obtain d frames err where p: "push (new_FrameDecoder 2) (concat [[0, 0, 0, 1, 7]] @ uint32be 3 @ [1]) = (d, frames, err)"
    by (metis prod_cases3)
  have "map encodeFrame [[7]] = map Some [[0, 0, 0, 1, 7]]"
    by (simp add: encodeFrame_def uint32be_def)
  from oversized_frame_refused [OF this _ _ _ p] show ?thesis using p by auto
qed

text \<open>The decoder's memory is bounded.  Whatever the peer sends, after a chunk that is
  accepted the buffer holds less than one header and one payload of the maximal size.\<close>

theorem decoder_buffer_bounded:
  assumes "decoder_feed d chunk = Some (frames, d')"
  shows "length (buffer d') < FRAME_HEADER_SIZE + maxPayloadSize d'"
  using assms drain_stuck [OF drain_rest]
  by (auto simp: decoder_feed_def push_drain split: prod.splits if_splits)

theorem decoder_buffer_bounded_witness:
  "\<exists>frames d'. decoder_feed (new_FrameDecoder 2) [0, 0, 0, 2, 9] = Some (frames, d')
     \<and> length (buffer d') < 6"
proof -
  have "decoder_feed (new_FrameDecoder 2) [0, 0, 0, 2, 9]
      = Some ([], (new_FrameDecoder 2)\<lparr>buffer := [0, 0, 0, 2, 9]\<rparr>)"
    by (simp add: decoder_feed_def push_drain new_FrameDecoder_def drain_wait FRAME_HEADER_SIZE_def)
  from decoder_buffer_bounded [OF this] this show ?thesis
    by (simp add: new_FrameDecoder_def FRAME_HEADER_SIZE_def)
qed

end
