(* ===== verification/BackendMessages.thy ===== *)
theory BackendMessages
  imports JsString
begin

section \<open>The backend's line vocabulary (gateway/src/backendMessages.ts)\<close>

text \<open>
  Parsing of the lines the C++ server sends and formatting of the lines the gateway sends,
  with two specifications taken from the other side of the connection: \<open>server_line\<close>, the
  line formats of docs/PROTOCOL.md section 4 as src/Server.cpp builds them, and
  \<open>handle_line\<close>, the server's reading of a line (src/Server.cpp).
\<close>

subsection \<open>Parsing\<close>

datatype BackendEvent =
    EvWelcome (nickname: jsstr)
  | EvSys jsstr
  | EvMsg jsstr jsstr
  | EvPriv jsstr jsstr
  | EvPrivSent jsstr jsstr
  | EvNick jsstr jsstr
  | EvList int "jsstr list"
  | EvErr jsstr jsstr
  | EvUnknown jsstr

definition SP :: code_unit where
  "SP = unit (CHR '' '')"

definition splitFirst :: "jsstr \<Rightarrow> jsstr \<times> jsstr" where
  "splitFirst s = (case cut SP s of None \<Rightarrow> (s, []) | Some (a, b) \<Rightarrow> (a, b))"

definition parseBackendLine :: "jsstr \<Rightarrow> BackendEvent" where
  "parseBackendLine payload =
     (let (type, rest) = splitFirst payload in
      if type = js ''WELCOME'' then EvWelcome rest
      else if type = js ''SYS'' then EvSys rest
      else if type = js ''MSG'' then (let (sender, text) = splitFirst rest in EvMsg sender text)
      else if type = js ''PRIV'' then (let (sender, text) = splitFirst rest in EvPriv sender text)
      else if type = js ''PRIV_SENT'' then (let (recipient, text) = splitFirst rest in EvPrivSent recipient text)
      else if type = js ''NICK'' then (let (oldNick, newNick) = splitFirst rest in EvNick oldNick newNick)
      else if type = js ''LIST'' then
        (let (countStr, namesRest) = splitFirst rest;
             count = parse_int countStr;
             names = (if 0 < length namesRest then split_on SP namesRest else [])
         in EvList (case count of Some n \<Rightarrow> n | None \<Rightarrow> int (length names)) names)
      else if type = js ''ERR'' then (let (code, text) = splitFirst rest in EvErr code text)
      else EvUnknown payload)"

subsection \<open>Formatting\<close>

definition formatNickCommand :: "jsstr \<Rightarrow> jsstr" where
  "formatNickCommand nick = js ''/nick '' @ nick"

definition formatMsgCommand :: "jsstr \<Rightarrow> jsstr \<Rightarrow> jsstr" where
  "formatMsgCommand targetNick text = js ''/msg '' @ targetNick @ js '' '' @ text"

definition formatListCommand :: jsstr where
  "formatListCommand = js ''/list''"

definition formatChatLine :: "jsstr \<Rightarrow> jsstr" where
  "formatChatLine text = text"

definition formatExitCommand :: jsstr where
  "formatExitCommand = js ''/exit''"

subsection \<open>Specification: the lines of docs/PROTOCOL.md section 4\<close>

fun server_line :: "BackendEvent \<Rightarrow> jsstr" where
  "server_line (EvWelcome nick) = js ''WELCOME '' @ nick"
| "server_line (EvSys text) = js ''SYS '' @ text"
| "server_line (EvMsg sender text) = js ''MSG '' @ sender @ js '' '' @ text"
| "server_line (EvPriv sender text) = js ''PRIV '' @ sender @ js '' '' @ text"
| "server_line (EvPrivSent recipient text) = js ''PRIV_SENT '' @ recipient @ js '' '' @ text"
| "server_line (EvNick old new) = js ''NICK '' @ old @ js '' '' @ new"
| "server_line (EvList count names) = js ''LIST '' @ show_nat (nat count) @ concat (map (\<lambda>n. js '' '' @ n) names)"
| "server_line (EvErr code text) = js ''ERR '' @ code @ js '' '' @ text"
| "server_line (EvUnknown raw) = raw"

text \<open>The events the server can mean: a name or a code is one word.\<close>

fun spoken :: "BackendEvent \<Rightarrow> bool" where
  "spoken (EvMsg sender _) \<longleftrightarrow> SP \<notin> set sender"
| "spoken (EvPriv sender _) \<longleftrightarrow> SP \<notin> set sender"
| "spoken (EvPrivSent recipient _) \<longleftrightarrow> SP \<notin> set recipient"
| "spoken (EvNick old _) \<longleftrightarrow> SP \<notin> set old"
| "spoken (EvList count names) \<longleftrightarrow> 0 \<le> count \<and> (\<forall>n \<in> set names. n \<noteq> [] \<and> SP \<notin> set n)"
| "spoken (EvErr code _) \<longleftrightarrow> SP \<notin> set code"
| "spoken (EvUnknown _) \<longleftrightarrow> False"
| "spoken _ \<longleftrightarrow> True"

subsection \<open>Specification: what the server makes of a line (src/Server.cpp)\<close>

datatype backend_command =
    CmdBlank
  | CmdNick jsstr
  | CmdMsg jsstr
  | CmdList
  | CmdExit
  | CmdBad jsstr
  | CmdChat jsstr

definition eol :: "code_unit \<Rightarrow> bool" where
  "eol u \<longleftrightarrow> u = 13 \<or> u = 10"

definition strip_eol :: "jsstr \<Rightarrow> jsstr" where
  "strip_eol s = rev (dropWhile eol (rev s))"

definition handle_line :: "jsstr \<Rightarrow> backend_command" where
  "handle_line raw =
     (let line = strip_eol raw in
      case line of
        [] \<Rightarrow> CmdBlank
      | c # _ \<Rightarrow>
          if c = unit (CHR ''/'') then
            (let (cmd, rest) = splitFirst line in
             if cmd = js ''/nick'' then CmdNick rest
             else if cmd = js ''/msg'' then CmdMsg rest
             else if cmd = js ''/list'' then CmdList
             else if cmd = js ''/exit'' then CmdExit
             else CmdBad cmd)
          else CmdChat line)"

text \<open>The two words of \<open>/msg\<close>'s arguments, as \<open>handle_msg\<close> splits them; \<open>None\<close> is
  \<open>MSG_USAGE\<close>.\<close>

definition msg_args :: "jsstr \<Rightarrow> (jsstr \<times> jsstr) option" where
  "msg_args args = (let (target, text) = splitFirst args in
     if target = [] \<or> text = [] then None else Some (target, text))"

subsection \<open>Lemmas\<close>

lemma js_sp: "js '' '' = [SP]"
  by (simp add: js_single SP_def)

lemma js_cons: "js (c # s) = unit c # js s"
  by (simp add: js_def unit_def)

lemma js_word: "js (s @ '' '') @ t = js s @ SP # t"
  by (simp add: js_append js_sp)

lemma splitFirst_word: "SP \<notin> set a \<Longrightarrow> splitFirst (a @ SP # b) = (a, b)"
  by (simp add: splitFirst_def cut_append)

lemma splitFirst_js: "CHR '' '' \<notin> set s \<Longrightarrow> splitFirst (js (s @ '' '') @ t) = (js s, t)"
  unfolding js_word by (rule splitFirst_word) (simp add: SP_def)

lemma splitFirst_single: "SP \<notin> set a \<Longrightarrow> splitFirst a = (a, [])"
  by (simp add: splitFirst_def cut_None [THEN iffD2])

lemma names_join: "x @ concat (map (\<lambda>n. SP # n) xs) = join [SP] (x # xs)"
proof (induction xs arbitrary: x)
  case (Cons y ys)
  show ?case using Cons.IH [of y] by simp
qed simp

lemma concat_names: "concat (map (\<lambda>n. SP # n) (x # xs)) = SP # join [SP] (x # xs)"
  using names_join [of x xs] by simp

lemma append_single: "(@) [c] = (#) c"
  by (simp add: fun_eq_iff)

lemma digits_no_space: "SP \<notin> set (show_nat n)"
  using show_nat_digits [of n] by (auto simp: SP_def unit_def is_digit_def word_le_nat_alt)

lemma parse_list_names:
  assumes "\<forall>n \<in> set names. n \<noteq> [] \<and> SP \<notin> set n"
  shows "splitFirst (show_nat k @ concat (map (\<lambda>n. SP # n) names)) = (show_nat k, join [SP] names)
    \<and> (if 0 < length (join [SP] names) then split_on SP (join [SP] names) else []) = names"
proof (cases names)
  case Nil
  then show ?thesis by (simp add: splitFirst_single digits_no_space)
next
  case (Cons x xs)
  have "join [SP] (x # xs) \<noteq> []" using assms Cons by (cases xs) auto
  with assms Cons show ?thesis
    by (auto simp: concat_names splitFirst_word digits_no_space split_on_join simp del: concat.simps list.map)
qed

lemmas line_splits =
  splitFirst_js [where s = "''WELCOME''", simplified] splitFirst_js [where s = "''SYS''", simplified]
  splitFirst_js [where s = "''MSG''", simplified] splitFirst_js [where s = "''PRIV''", simplified]
  splitFirst_js [where s = "''PRIV_SENT''", simplified] splitFirst_js [where s = "''NICK''", simplified]
  splitFirst_js [where s = "''LIST''", simplified] splitFirst_js [where s = "''ERR''", simplified]

lemma strip_eol_id: "s = [] \<or> \<not> eol (last s) \<Longrightarrow> strip_eol s = s"
  by (cases s rule: rev_cases) (auto simp: strip_eol_def)

lemma strip_eol_append: "strip_eol (s @ t) = (if strip_eol t = [] then strip_eol s else s @ strip_eol t)"
  by (auto simp: strip_eol_def dropWhile_append1 dropWhile_append2 dropWhile_append)

lemma parse_spoken: "spoken e \<Longrightarrow> parseBackendLine (server_line e) = e"
proof (cases e)
  case (EvList count names)
  assume "spoken e"
  with EvList have n: "\<forall>n \<in> set names. n \<noteq> [] \<and> SP \<notin> set n" and c: "0 \<le> count" by auto
  show ?thesis
    using parse_list_names [OF n, of "nat count"] c
    by (simp add: EvList parseBackendLine_def line_splits js_sp append_single parse_int_show_nat Let_def)
qed (simp_all add: parseBackendLine_def line_splits js_sp splitFirst_word)

subsection \<open>Properties\<close>

text \<open>The parser reads back every line of the protocol document: for each kind of server
  line, parsing the text the server builds gives the event with the same fields, chat text
  with spaces included.\<close>

theorem parse_server_line:
  assumes "spoken e"
  shows "parseBackendLine (server_line e) = e"
  using assms by (rule parse_spoken)

theorem parse_server_line_witness:
  "parseBackendLine (js ''LIST 2 alice bob'') = EvList 2 [js ''alice'', js ''bob'']"
proof -
  have "show_nat 2 = js ''2''" by (simp add: show_nat.simps js_def digit_unit_def)
  then have l: "server_line (EvList 2 [js ''alice'', js ''bob'']) = js ''LIST 2 alice bob''"
    by (simp add: js_append [symmetric])
  have "spoken (EvList 2 [js ''alice'', js ''bob''])" by (simp add: SP_def)
  from parse_server_line [OF this] show ?thesis unfolding l .
qed

text \<open>Every line the gateway formats for an account is read by the server as meant: a
  nickname command as a change to that nickname, a message command with a one-word target as
  a private message to that target with the whole text, and the exit and list commands as
  such.\<close>

theorem commands_understood:
  assumes "nick \<noteq> []" and "SP \<notin> set nick" and "text \<noteq> []" and "\<not> eol (last text)" and "\<not> eol (last nick)"
  shows "handle_line (formatNickCommand nick) = CmdNick nick
    \<and> (\<exists>args. handle_line (formatMsgCommand nick text) = CmdMsg args \<and> msg_args args = Some (nick, text))
    \<and> handle_line formatListCommand = CmdList \<and> handle_line formatExitCommand = CmdExit"
proof (intro conjI exI)
  have slash: "js (CHR ''/'' # s) @ t = unit (CHR ''/'') # js s @ t" for s t
    by (simp add: js_cons)
  show "handle_line (formatNickCommand nick) = CmdNick nick"
    using assms splitFirst_js [where s = "''/nick''" and t = nick]
    by (simp add: handle_line_def formatNickCommand_def strip_eol_id slash)
  show "handle_line (formatMsgCommand nick text) = CmdMsg (nick @ SP # text)"
    using assms splitFirst_js [where s = "''/msg''" and t = "nick @ SP # text"]
    by (simp add: handle_line_def formatMsgCommand_def strip_eol_id slash js_sp)
  show "msg_args (nick @ SP # text) = Some (nick, text)"
    using assms by (simp add: msg_args_def splitFirst_word)
  have "\<not> eol (unit (CHR ''t''))" by (simp add: eol_def unit_def)
  then have "strip_eol (js ''/list'') = js ''/list''" "strip_eol (js ''/exit'') = js ''/exit''"
    by (simp_all add: strip_eol_id js_def unit_def)
  moreover have "splitFirst (js ''/list'') = (js ''/list'', [])" "splitFirst (js ''/exit'') = (js ''/exit'', [])"
    by (simp_all add: splitFirst_single SP_def)
  ultimately show "handle_line formatListCommand = CmdList" "handle_line formatExitCommand = CmdExit"
    by (simp_all add: handle_line_def formatListCommand_def formatExitCommand_def slash [where t = "[]", simplified])
qed

theorem commands_understood_witness:
  "handle_line (formatNickCommand (js ''bob'')) = CmdNick (js ''bob'')
   \<and> (\<exists>args. handle_line (formatMsgCommand (js ''bob'') (js ''hi all'')) = CmdMsg args
        \<and> msg_args args = Some (js ''bob'', js ''hi all''))"
proof -
  have "\<not> eol (last (js ''hi all''))" "\<not> eol (last (js ''bob''))" by (simp_all add: js_def eol_def)
  then show ?thesis
    using commands_understood [of "js ''bob''" "js ''hi all''"] by (simp add: SP_def)
qed

text \<open>A public chat text reaches the room exactly when it is not read as a command.  What
  the gateway forwards is broadcast by the server, without its trailing line breaks, if and
  only if the text is not blank and does not begin with a slash; a text that begins with a
  slash is executed as a command of the sender's connection.\<close>

theorem public_text_broadcast_iff:
  "(\<exists>line. handle_line (formatChatLine text) = CmdChat line) \<longleftrightarrow>
     strip_eol text \<noteq> [] \<and> hd text \<noteq> unit (CHR ''/'')"
proof -
  have "strip_eol text \<noteq> [] \<Longrightarrow> hd (strip_eol text) = hd text"
  proof -
    assume ne: "strip_eol text \<noteq> []"
    obtain t where "text = strip_eol text @ t"
      by (metis rev_append rev_rev_ident strip_eol_def takeWhile_dropWhile_id)
    with ne show ?thesis by (metis hd_append2)
  qed
  then show ?thesis
    by (cases "strip_eol text") (auto simp: handle_line_def formatChatLine_def Let_def split: prod.splits)
qed

text \<open>The text of a public message can drive the sender's own backend connection: what the
  gateway sends for the chat text \<open>/exit\<close> is its exit command, for \<open>/nick\<close> and a name its
  nickname command, and for \<open>/msg\<close>, a name and a text its private message command.\<close>

theorem slash_text_is_command:
  "formatChatLine (js ''/exit'') = formatExitCommand
   \<and> formatChatLine (js ''/nick '' @ nick) = formatNickCommand nick
   \<and> formatChatLine (js ''/msg '' @ target @ js '' '' @ text) = formatMsgCommand target text"
  by (simp add: formatChatLine_def formatExitCommand_def formatNickCommand_def formatMsgCommand_def)

end
