(* ===== verification/BackendConnection.thy ===== *)
theory BackendConnection
  imports WireProtocol BackendMessages
begin

section \<open>A connection to the C++ server (gateway/src/backendConnection.ts)\<close>

text \<open>
  One TCP connection of the gateway: the socket's life cycle as the code can observe it, the
  frame decoder, and the events it emits.  \<open>bc_session\<close> is the session whose closures
  listen to the connection, \<open>bc_unacked\<close> counts the writes whose callback has not run.
\<close>

subsection \<open>The code\<close>

text \<open>\<open>NoSocket\<close>: \<open>this.socket\<close> is null; \<open>Connecting\<close>: \<open>connect\<close> was called;
  \<open>Wired\<close>: its callback ran \<open>wireSocket\<close>; \<open>Failed\<close>: \<open>onConnectError\<close> ran;
  \<open>Gone\<close>: the peer or an error closed it; \<open>Destroyed\<close>: \<open>close()\<close> destroyed it.\<close>

datatype SocketState = NoSocket | Connecting | Wired | Failed | Gone | Destroyed

record BackendConnection =
  bc_session :: nat
  bc_socket :: SocketState
  bc_closed :: bool
  bc_decoder :: FrameDecoder
  bc_unacked :: nat

definition new_BackendConnection :: "nat \<Rightarrow> nat \<Rightarrow> BackendConnection" where
  "new_BackendConnection session maxMessageBytes =
     \<lparr>bc_session = session, bc_socket = NoSocket, bc_closed = False,
      bc_decoder = new_FrameDecoder maxMessageBytes, bc_unacked = 0\<rparr>"

definition connect :: "BackendConnection \<Rightarrow> BackendConnection" where
  "connect b = b\<lparr>bc_socket := Connecting\<rparr>"

definition on_connected :: "BackendConnection \<Rightarrow> BackendConnection" where
  "on_connected b = b\<lparr>bc_socket := Wired\<rparr>"

definition onConnectError :: "BackendConnection \<Rightarrow> BackendConnection" where
  "onConnectError b = b\<lparr>bc_socket := Failed\<rparr>"

text \<open>The \<open>data\<close> listener up to the emission of the events, and whether it calls
  \<open>close()\<close> after them.\<close>

definition on_data :: "bytes \<Rightarrow> BackendConnection \<Rightarrow> BackendConnection \<times> BackendEvent list \<times> bool" where
  "on_data chunk b =
     (let (d, frames, too_large) = push (bc_decoder b) chunk
      in (b\<lparr>bc_decoder := d\<rparr>, map (\<lambda>frame. parseBackendLine (utf8_decode frame)) frames, too_large))"

text \<open>The \<open>close\<close> listener; the second component tells whether \<open>close\<close> is emitted.\<close>

definition on_close :: "BackendConnection \<Rightarrow> BackendConnection \<times> bool" where
  "on_close b = (if \<not> bc_closed b then (b\<lparr>bc_socket := Gone, bc_closed := True\<rparr>, True)
                 else (b\<lparr>bc_socket := Gone\<rparr>, False))"

text \<open>\<open>sendLine\<close> with \<open>writeFrame\<close>: \<open>None\<close> is a rejected promise, otherwise the
  bytes given to \<open>socket.write\<close>.\<close>

definition sendLine :: "jsstr \<Rightarrow> BackendConnection \<Rightarrow> (BackendConnection \<times> bytes) option" where
  "sendLine line b =
     (if bc_socket b = NoSocket \<or> bc_closed b then None
      else map_option (\<lambda>bytes. (b\<lparr>bc_unacked := Suc (bc_unacked b)\<rparr>, bytes)) (encodeFrame_str line))"

text \<open>\<open>close()\<close>; the second component tells whether the socket is destroyed.\<close>

definition close :: "BackendConnection \<Rightarrow> BackendConnection \<times> bool" where
  "close b =
     (if bc_closed b then (b, False)
      else if bc_socket b = NoSocket then (b\<lparr>bc_closed := True\<rparr>, False)
      else (b\<lparr>bc_closed := True, bc_socket := Destroyed\<rparr>, True))"

subsection \<open>A connection's life as a step relation\<close>

text \<open>What the owner calls and what the socket does, from the call of \<open>connect\<close> on,
  which the owner makes once, right after the construction.  A socket that is destroyed or
  gone raises no further \<open>data\<close>; its \<open>close\<close> event comes once, after either.\<close>

datatype conn_label =
    Call_send jsstr | Call_close
  | Ev_connected | Ev_failed | Ev_data bytes | Ev_close | Ev_written

datatype conn_out = Emit BackendEvent | EmitClose | Write bytes | Reject | Destroy

inductive conn_step :: "BackendConnection \<Rightarrow> conn_label \<Rightarrow> conn_out list \<Rightarrow> BackendConnection \<Rightarrow> bool" where
  send: "sendLine line b = Some (b', bytes) \<Longrightarrow> conn_step b (Call_send line) [Write bytes] b'"
| send_rejected: "sendLine line b = None \<Longrightarrow> conn_step b (Call_send line) [Reject] b"
| close: "close b = (b', d) \<Longrightarrow> conn_step b Call_close (if d then [Destroy] else []) b'"
| connected: "bc_socket b = Connecting \<Longrightarrow> conn_step b Ev_connected [] (on_connected b)"
| failed: "bc_socket b = Connecting \<Longrightarrow> conn_step b Ev_failed [Reject] (onConnectError b)"
| data: "bc_socket b = Wired \<Longrightarrow> on_data chunk b = (b', evs, False) \<Longrightarrow>
    conn_step b (Ev_data chunk) (map Emit evs) b'"
| data_too_large: "bc_socket b = Wired \<Longrightarrow> on_data chunk b = (b', evs, True) \<Longrightarrow> close b' = (b'', d) \<Longrightarrow>
    conn_step b (Ev_data chunk) (map Emit evs @ (if d then [Destroy] else [])) b''"
| closed: "bc_socket b \<in> {Wired, Destroyed} \<Longrightarrow> on_close b = (b', e) \<Longrightarrow>
    conn_step b Ev_close (if e then [EmitClose] else []) b'"
| written: "bc_unacked b = Suc n \<Longrightarrow> conn_step b Ev_written [] (b\<lparr>bc_unacked := n\<rparr>)"

inductive_cases conn_stepE: "conn_step b l out b'"

inductive conn_run :: "BackendConnection \<Rightarrow> conn_out list \<Rightarrow> BackendConnection \<Rightarrow> bool" where
  run_start: "conn_run (connect (new_BackendConnection s m)) [] (connect (new_BackendConnection s m))"
| run_step: "conn_run b out b' \<Longrightarrow> conn_step b' l out' b'' \<Longrightarrow> conn_run b (out @ out') b''"

lemmas conn_ops = connect_def on_connected_def onConnectError_def on_data_def on_close_def sendLine_def close_def

definition conn_inv :: "BackendConnection \<Rightarrow> bool" where
  "conn_inv b \<longleftrightarrow> bc_socket b \<noteq> NoSocket \<and> (bc_closed b \<longleftrightarrow> bc_socket b \<in> {Gone, Destroyed})"

lemma conn_inv_step: "conn_step b l out b' \<Longrightarrow> conn_inv b \<Longrightarrow> conn_inv b'"
  by (induction rule: conn_step.induct)
    (auto simp: conn_inv_def conn_ops Let_def split: if_splits prod.splits option.splits)

text \<open>The end of a connection: \<open>Destroy\<close> when the gateway closed it, \<open>EmitClose\<close> when the
  peer did.\<close>

definition is_end :: "conn_out \<Rightarrow> bool" where
  "is_end x \<longleftrightarrow> x = Destroy \<or> x = EmitClose"

definition open_out :: "conn_out list \<Rightarrow> bool" where
  "open_out out \<longleftrightarrow> (\<forall>x \<in> set out. \<not> is_end x)"

definition ended_out :: "conn_out list \<Rightarrow> bool" where
  "ended_out out \<longleftrightarrow> (\<exists>before x after. out = before @ x # after \<and> is_end x \<and> open_out before \<and> set after \<subseteq> {Reject})"

lemma step_open:
  "conn_step b l out b' \<Longrightarrow> conn_inv b \<Longrightarrow> \<not> bc_closed b \<Longrightarrow>
   (if bc_closed b' then (\<exists>before x. out = before @ [x] \<and> is_end x \<and> open_out before) else open_out out)"
  by (induction rule: conn_step.induct)
    (auto simp: conn_inv_def conn_ops Let_def is_end_def open_out_def split: if_splits prod.splits option.splits)

lemma step_closed:
  "conn_step b l out b' \<Longrightarrow> conn_inv b \<Longrightarrow> bc_closed b \<Longrightarrow> bc_closed b' \<and> set out \<subseteq> {Reject}"
  by (induction rule: conn_step.induct)
    (auto simp: conn_inv_def conn_ops Let_def split: if_splits prod.splits option.splits)

lemma ended_append: "ended_out out \<Longrightarrow> set out' \<subseteq> {Reject} \<Longrightarrow> ended_out (out @ out')"
  unfolding ended_out_def by (elim exE, rename_tac a x c, rule_tac x = a in exI, rule_tac x = x in exI,
      rule_tac x = "c @ out'" in exI) auto

lemma ended_now: "open_out out \<Longrightarrow> open_out before \<Longrightarrow> is_end x \<Longrightarrow> ended_out (out @ before @ [x])"
  unfolding ended_out_def by (rule exI [of _ "out @ before"], rule exI [of _ x], rule exI [of _ "[]"])
    (auto simp: open_out_def)

lemma run_shape:
  "conn_run b out b' \<Longrightarrow> conn_inv b' \<and> (if bc_closed b' then ended_out out else open_out out)"
proof (induction rule: conn_run.induct)
  case (run_start s m)
  then show ?case by (simp add: conn_inv_def connect_def new_BackendConnection_def open_out_def)
next
  case (run_step b out b' l out' b'')
  then have inv: "conn_inv b'" and inv': "conn_inv b''" by (blast intro: conn_inv_step)+
  show ?case
  proof (cases "bc_closed b'")
    case True
    with step_closed [OF run_step.hyps(2) inv] run_step.IH inv' show ?thesis by (simp add: ended_append)
  next
    case False
    with run_step.IH have o: "open_out out" by simp
    note st = step_open [OF run_step.hyps(2) inv False]
    show ?thesis
    proof (cases "bc_closed b''")
      case True
      with st obtain before x where "out' = before @ [x]" "is_end x" "open_out before" by auto
      with True inv' o show ?thesis by (simp add: ended_now)
    next
      case False
      with st have "open_out out'" by simp
      with o False inv' show ?thesis by (auto simp: open_out_def)
    qed
  qed
qed

text \<open>A connection ends once.  In every run the end (the socket destroyed by the gateway,
  or \<open>close\<close> emitted for the peer's closing) occurs at most once, never both, and after it no
  event is emitted and nothing is written: later \<open>sendLine\<close> calls are rejected.\<close>

theorem connection_ends_once:
  assumes "conn_run b out b'"
  shows "length (filter is_end out) \<le> 1 \<and>
    (\<forall>before x after. out = before @ x # after \<and> is_end x \<longrightarrow> bc_closed b' \<and> set after \<subseteq> {Reject})"
proof (cases "bc_closed b'")
  case False
  with run_shape [OF assms] have "open_out out" by simp
  then show ?thesis by (auto simp: open_out_def filter_empty_conv)
next
  case True
  with run_shape [OF assms] obtain before x after
    where out: "out = before @ x # after" "is_end x" "open_out before" "set after \<subseteq> {Reject}"
    by (auto simp: ended_out_def)
  have none: "\<not> is_end Reject" by (simp add: is_end_def)
  with out have "filter is_end out = [x]" by (auto simp: open_out_def filter_empty_conv)
  moreover have "set after' \<subseteq> {Reject}" if "out = before' @ y # after'" "is_end y" for before' y after'
  proof -
    from that out have "y \<notin> set before" "y \<notin> set after" using none by (auto simp: open_out_def)
    with that out(1) have "before' @ y # after' = before @ x # after" by simp
    then have "after' = after"
      using \<open>y \<notin> set before\<close> \<open>y \<notin> set after\<close> by (auto simp: append_eq_append_conv2 Cons_eq_append_conv append_eq_Cons_conv)
    with out show ?thesis by simp
  qed
  ultimately show ?thesis using True by auto
qed

theorem connection_ends_once_witness:
  "\<exists>b b'. conn_run b [Write [0, 0, 0, 1, 97], Destroy, Reject] b' \<and> bc_closed b'"
proof -
  let ?b = "on_connected (connect (new_BackendConnection 0 2))"
  have l: "encodeFrame_str (js ''a'') = Some [0, 0, 0, 1, 97]"
    by (simp add: encodeFrame_str_def encodeFrame_def utf8_js uint32be_def)
  have "conn_run (connect (new_BackendConnection 0 2)) ([] @ []) ?b"
    by (rule run_step [OF run_start connected]) (simp add: connect_def)
  moreover obtain b1 where s1: "sendLine (js ''a'') ?b = Some (b1, [0, 0, 0, 1, 97])"
    and b1: "bc_closed b1 = False" "bc_socket b1 = Wired" "bc_decoder b1 = new_FrameDecoder 2"
    by (simp add: conn_ops new_BackendConnection_def l)
  ultimately have r1: "conn_run (connect (new_BackendConnection 0 2)) (([] @ []) @ [Write [0, 0, 0, 1, 97]]) b1"
    by (blast intro: run_step send)
  have d: "push (new_FrameDecoder 2) [0, 0, 0, 3] = ((new_FrameDecoder 2)\<lparr>buffer := [0, 0, 0, 3]\<rparr>, [], True)"
    by (simp add: push_drain new_FrameDecoder_def drain_large FRAME_HEADER_SIZE_def)
  let ?b1' = "b1\<lparr>bc_decoder := (new_FrameDecoder 2)\<lparr>buffer := [0, 0, 0, 3]\<rparr>\<rparr>"
  let ?b2 = "?b1'\<lparr>bc_closed := True, bc_socket := Destroyed\<rparr>"
  have "on_data [0, 0, 0, 3] b1 = (?b1', [], True)" and "close ?b1' = (?b2, True)"
    using b1 by (simp_all add: on_data_def d close_def)
  from data_too_large [OF b1(2) this] have s2: "conn_step b1 (Ev_data [0, 0, 0, 3]) [Destroy] ?b2"
    by simp
  have "conn_step ?b2 (Call_send (js ''a'')) [Reject] ?b2"
    by (intro send_rejected) (simp add: sendLine_def)
  from run_step [OF run_step [OF r1 s2] this]
  have r: "conn_run (connect (new_BackendConnection 0 2)) [Write [0, 0, 0, 1, 97], Destroy, Reject] ?b2" by simp
  have "bc_closed ?b2"
    using connection_ends_once [OF r] by (metis append_Cons append_Nil is_end_def)
  with r show ?thesis by blast
qed

subsection \<open>What the gateway reads is what the server said\<close>

fun read_chunks :: "BackendConnection \<Rightarrow> bytes list \<Rightarrow> BackendEvent list \<times> bool" where
  "read_chunks b [] = ([], False)"
| "read_chunks b (c # cs) =
     (case on_data c b of (b', evs, too_large) \<Rightarrow>
        if too_large then (evs, True)
        else (case read_chunks b' cs of (evs', e) \<Rightarrow> (evs @ evs', e)))"

lemma read_chunks_feed:
  "feed_all decoder_feed (bc_decoder b) cs = Some (ps, d) \<Longrightarrow>
   read_chunks b cs = (map (\<lambda>p. parseBackendLine (utf8_decode p)) ps, False)"
proof (induction cs arbitrary: b ps d)
  case (Cons c cs)
  then show ?case
    by (force simp: on_data_def decoder_feed_def Let_def split: option.splits prod.splits if_splits)
qed simp

text \<open>End to end reading.  When the server sends lines of its vocabulary, each one frame of
  at most the maximal size, then however TCP cuts the bytes into chunks, the connection emits
  exactly the events the server meant, in order.\<close>

theorem events_are_server_lines:
  assumes "\<forall>e \<in> set evs. spoken e \<and> wf_str (server_line e) \<and> length (utf8_encode (server_line e)) \<le> m"
    and "map (\<lambda>e. encodeFrame_str (server_line e)) evs = map Some frames"
    and "concat chunks = concat frames"
  shows "read_chunks (connect (new_BackendConnection s m)) chunks = (evs, False)"
proof -
  let ?ps = "map (\<lambda>e. utf8_encode (server_line e)) evs"
  have "map encodeFrame ?ps = map Some frames"
    using assms(2) by (simp add: encodeFrame_str_def comp_def)
  note f = encoded_frames [OF this]
  have "feed_all decoder_feed (new_FrameDecoder m) chunks = Some (?ps, new_FrameDecoder m)"
    using assms(1,3) f by (intro wire.chunked_frames) (auto simp: new_FrameDecoder_def)
  then have "read_chunks (connect (new_BackendConnection s m)) chunks
      = (map (\<lambda>p. parseBackendLine (utf8_decode p)) ?ps, False)"
    by (intro read_chunks_feed) (simp add: connect_def new_BackendConnection_def)
  moreover have "map (\<lambda>p. parseBackendLine (utf8_decode p)) ?ps = evs"
    using assms(1) by (simp add: utf8_roundtrip parse_spoken map_idI)
  ultimately show ?thesis by simp
qed

theorem events_are_server_lines_witness:
  "read_chunks (connect (new_BackendConnection 0 64))
     [[0, 0, 0, 9, 87, 69, 76], [67, 79, 77, 69, 32], [97]] = ([EvWelcome (js ''a'')], False)"
proof (rule events_are_server_lines)
  have l: "server_line (EvWelcome (js ''a'')) = js ''WELCOME a''"
    by (simp add: js_append [symmetric])
  show "map (\<lambda>e. encodeFrame_str (server_line e)) [EvWelcome (js ''a'')]
      = map Some [[0, 0, 0, 9, 87, 69, 76, 67, 79, 77, 69, 32, 97]]"
    unfolding list.map l by (simp add: encodeFrame_str_def encodeFrame_def utf8_js uint32be_def)
  show "\<forall>e \<in> set [EvWelcome (js ''a'')]. spoken e \<and> wf_str (server_line e) \<and> length (utf8_encode (server_line e)) \<le> 64"
    unfolding list.set ball_simps l by (simp add: utf8_js)
qed simp

end
