(* ===== verification/Database.thy ===== *)
theory Database
  imports ClientProtocol "HOL-Library.Sublist"
begin

section \<open>The SQLite tables (gateway/src/db.ts)\<close>

text \<open>
  The four tables of the schema as lists of rows in insertion order, and the statements the
  gateway runs on them.  A statement that violates a PRIMARY KEY or UNIQUE constraint throws
  (\<open>Inl\<close> with SQLite's text) and leaves the tables as they were; \<open>INSERT OR IGNORE\<close> skips
  the row instead.  A text is stored as it is: node:sqlite stores UTF-8, so that a lone surrogate is
  read back as U+FFFD, and a text with a NUL is read back up to it; both are left out, and what is
  said of texts read from the tables is meant for texts without them.  \<open>db_inv\<close> is the schema's constraints with the references between
  the tables that the gateway maintains.
\<close>

record UserRow =
  u_id :: jsstr
  u_username :: jsstr
  u_password_hash :: jsstr
  u_password_salt :: jsstr
  u_created_at :: jsstr

record ConversationRow =
  c_id :: jsstr
  c_kind :: ConversationKind
  c_title :: jsstr
  c_created_at :: jsstr

record MessageRow =
  m_id :: jsstr
  m_conversation_id :: jsstr
  m_kind :: MessageKind
  m_sender_id :: "jsstr option"
  m_sender_username :: "jsstr option"
  m_text :: jsstr
  m_created_at :: jsstr

record Db =
  t_users :: "UserRow list"
  t_conversations :: "ConversationRow list"
  t_members :: "(jsstr \<times> jsstr) list"
  t_messages :: "MessageRow list"

definition PUBLIC_CONVERSATION_ID :: jsstr where
  "PUBLIC_CONVERSATION_ID = js ''public''"

subsection \<open>Statements\<close>

definition unique_error :: "string \<Rightarrow> jsstr" where
  "unique_error column = js (''UNIQUE constraint failed: '' @ column)"

definition insert_user :: "UserRow \<Rightarrow> Db \<Rightarrow> jsstr + Db" where
  "insert_user u db =
     (if u_id u \<in> u_id ` set (t_users db) then Inl (unique_error ''users.id'')
      else if u_username u \<in> u_username ` set (t_users db) then Inl (unique_error ''users.username'')
      else Inr (db\<lparr>t_users := t_users db @ [u]\<rparr>))"

definition update_username :: "jsstr \<Rightarrow> jsstr \<Rightarrow> Db \<Rightarrow> jsstr + Db" where
  "update_username i name db =
     (if \<exists>u \<in> set (t_users db). u_id u \<noteq> i \<and> u_username u = name \<and> i \<in> u_id ` set (t_users db)
      then Inl (unique_error ''users.username'')
      else Inr (db\<lparr>t_users := map (\<lambda>u. if u_id u = i then u\<lparr>u_username := name\<rparr> else u) (t_users db)\<rparr>))"

definition insert_conversation :: "ConversationRow \<Rightarrow> Db \<Rightarrow> jsstr + Db" where
  "insert_conversation c db =
     (if c_id c \<in> c_id ` set (t_conversations db) then Inl (unique_error ''conversations.id'')
      else Inr (db\<lparr>t_conversations := t_conversations db @ [c]\<rparr>))"

definition insert_or_ignore_conversation :: "ConversationRow \<Rightarrow> Db \<Rightarrow> Db" where
  "insert_or_ignore_conversation c db =
     (if c_id c \<in> c_id ` set (t_conversations db) then db
      else db\<lparr>t_conversations := t_conversations db @ [c]\<rparr>)"

definition insert_or_ignore_member :: "jsstr \<Rightarrow> jsstr \<Rightarrow> Db \<Rightarrow> Db" where
  "insert_or_ignore_member c u db =
     (if (c, u) \<in> set (t_members db) then db else db\<lparr>t_members := t_members db @ [(c, u)]\<rparr>)"

definition insert_message :: "MessageRow \<Rightarrow> Db \<Rightarrow> jsstr + Db" where
  "insert_message m db =
     (if m_id m \<in> m_id ` set (t_messages db) then Inl (unique_error ''messages.id'')
      else Inr (db\<lparr>t_messages := t_messages db @ [m]\<rparr>))"

text \<open>\<open>openDatabase\<close> on a new file (\<open>CREATE TABLE\<close>) and on an existing one
  (\<open>CREATE TABLE IF NOT EXISTS\<close>): the public conversation always exists afterwards.\<close>

definition empty_tables :: Db where
  "empty_tables = \<lparr>t_users = [], t_conversations = [], t_members = [], t_messages = []\<rparr>"

definition openDatabase :: "jsstr \<Rightarrow> Db option \<Rightarrow> Db" where
  "openDatabase now file =
     insert_or_ignore_conversation
       \<lparr>c_id = PUBLIC_CONVERSATION_ID, c_kind = KPublic, c_title = js ''Public Chat'', c_created_at = now\<rparr>
       (case file of None \<Rightarrow> empty_tables | Some db \<Rightarrow> db)"

subsection \<open>The invariant\<close>

definition conv_ids :: "Db \<Rightarrow> jsstr set" where
  "conv_ids db = c_id ` set (t_conversations db)"

definition user_ids :: "Db \<Rightarrow> jsstr set" where
  "user_ids db = u_id ` set (t_users db)"

definition keys_distinct :: "Db \<Rightarrow> bool" where
  "keys_distinct db \<longleftrightarrow> distinct (map u_id (t_users db)) \<and> distinct (map u_username (t_users db))
     \<and> distinct (map c_id (t_conversations db)) \<and> distinct (t_members db)
     \<and> distinct (map m_id (t_messages db))"

definition references_ok :: "Db \<Rightarrow> bool" where
  "references_ok db \<longleftrightarrow> (\<forall>(c, u) \<in> set (t_members db). c \<in> conv_ids db)
     \<and> (\<forall>m \<in> set (t_messages db). m_conversation_id m \<in> conv_ids db)"

definition public_ok :: "Db \<Rightarrow> bool" where
  "public_ok db \<longleftrightarrow> (\<exists>c \<in> set (t_conversations db). c_id c = PUBLIC_CONVERSATION_ID \<and> c_kind c = KPublic)"

definition db_inv :: "Db \<Rightarrow> bool" where
  "db_inv db \<longleftrightarrow> keys_distinct db \<and> references_ok db \<and> public_ok db"

lemmas db_inv_defs = db_inv_def keys_distinct_def references_ok_def public_ok_def conv_ids_def

lemma insert_user_inv: "db_inv db \<Longrightarrow> insert_user u db = Inr db' \<Longrightarrow> db_inv db'"
  by (auto simp: insert_user_def db_inv_defs split: if_splits)

lemma insert_conversation_inv: "db_inv db \<Longrightarrow> insert_conversation c db = Inr db' \<Longrightarrow> db_inv db'"
  by (auto simp: insert_conversation_def db_inv_defs split: if_splits)

lemma insert_or_ignore_conversation_inv: "db_inv db \<Longrightarrow> db_inv (insert_or_ignore_conversation c db)"
  by (auto simp: insert_or_ignore_conversation_def db_inv_defs)

lemma insert_or_ignore_member_inv:
  "db_inv db \<Longrightarrow> c \<in> conv_ids db \<Longrightarrow> db_inv (insert_or_ignore_member c u db)"
  by (auto simp: insert_or_ignore_member_def db_inv_defs)

lemma insert_message_inv:
  "db_inv db \<Longrightarrow> m_conversation_id m \<in> conv_ids db \<Longrightarrow> insert_message m db = Inr db' \<Longrightarrow> db_inv db'"
  by (auto simp: insert_message_def db_inv_defs split: if_splits)

lemma update_username_ids: "update_username i name db = Inr db' \<Longrightarrow> map u_id (t_users db') = map u_id (t_users db)"
  by (auto simp: update_username_def split: if_splits)

lemma rename_distinct:
  assumes "distinct (map u_id us)" and "distinct (map u_username us)"
    and "\<forall>u \<in> set us. u_id u \<noteq> i \<longrightarrow> u_username u = name \<longrightarrow> i \<notin> u_id ` set us"
  shows "distinct (map u_username (map (\<lambda>u. if u_id u = i then u\<lparr>u_username := name\<rparr> else u) us))"
  using assms
proof (induction us)
  case (Cons u us)
  then show ?case
    by (cases "u_id u = i") (force simp: comp_def image_iff split: if_splits)+
qed simp

lemma update_username_inv: "db_inv db \<Longrightarrow> update_username i name db = Inr db' \<Longrightarrow> db_inv db'"
proof -
  assume inv: "db_inv db" and upd: "update_username i name db = Inr db'"
  then have db': "db' = db\<lparr>t_users := map (\<lambda>u. if u_id u = i then u\<lparr>u_username := name\<rparr> else u) (t_users db)\<rparr>"
    and free: "\<forall>u \<in> set (t_users db). u_id u \<noteq> i \<longrightarrow> u_username u = name \<longrightarrow> i \<notin> u_id ` set (t_users db)"
    by (auto simp: update_username_def split: if_splits)
  have "distinct (map u_username (t_users db'))"
    unfolding db' using rename_distinct [OF _ _ free] inv by (simp add: db_inv_def keys_distinct_def)
  moreover have "distinct (map u_id (t_users db'))"
    unfolding update_username_ids [OF upd] using inv by (simp add: db_inv_def keys_distinct_def)
  ultimately show "db_inv db'" using inv by (simp add: db_inv_def keys_distinct_def references_ok_def
      public_ok_def conv_ids_def) (simp add: db')
qed

lemma openDatabase_new_inv: "db_inv (openDatabase now None)"
  by (simp add: openDatabase_def insert_or_ignore_conversation_def empty_tables_def db_inv_defs)

lemma public_in_conv_ids: "db_inv db \<Longrightarrow> PUBLIC_CONVERSATION_ID \<in> conv_ids db"
  unfolding db_inv_defs by (metis image_eqI)

lemma openDatabase_again_inv: "db_inv db \<Longrightarrow> openDatabase now (Some db) = db"
  using public_in_conv_ids [of db]
  by (simp add: openDatabase_def insert_or_ignore_conversation_def conv_ids_def)

subsection \<open>Statements\<close>

text \<open>
  Outside a transaction SQLite commits every statement by itself.  \<open>stmt\<close> is one statement with
  which the program changes the tables: what a process that is killed leaves behind is the result
  of a sequence of them.  Members and messages are only inserted for conversations that exist.
\<close>

inductive stmt :: "Db \<Rightarrow> Db \<Rightarrow> bool" where
  stmt_user: "insert_user u db = Inr db' \<Longrightarrow> stmt db db'"
| stmt_rename: "update_username i name db = Inr db' \<Longrightarrow> stmt db db'"
| stmt_conversation: "insert_conversation c db = Inr db' \<Longrightarrow> stmt db db'"
| stmt_member: "c \<in> conv_ids db \<Longrightarrow> stmt db (insert_or_ignore_member c u db)"
| stmt_message: "m_conversation_id m \<in> conv_ids db \<Longrightarrow> insert_message m db = Inr db' \<Longrightarrow> stmt db db'"

text \<open>What statements keep: the accounts, and every row of the other tables, which only grow at the end.\<close>

definition kept :: "Db \<Rightarrow> Db \<Rightarrow> bool" where
  "kept db db' \<longleftrightarrow> user_ids db \<subseteq> user_ids db' \<and> prefix (t_conversations db) (t_conversations db')
     \<and> prefix (t_members db) (t_members db') \<and> prefix (t_messages db) (t_messages db')"

lemma kept_refl [simp]: "kept db db"
  by (simp add: kept_def)

lemma kept_trans: "kept db db1 \<Longrightarrow> kept db1 db2 \<Longrightarrow> kept db db2"
  by (auto simp: kept_def intro: prefix_order.trans)

lemma stmt_kept:
  assumes "stmt db db'"
  shows "kept db db'"
  using assms
proof cases
  case (stmt_rename i name)
  then have "user_ids db' = user_ids db"
    using arg_cong [OF update_username_ids [OF stmt_rename], of set] by (simp add: user_ids_def)
  with stmt_rename show ?thesis by (auto simp: kept_def update_username_def split: if_splits)
qed (auto simp: kept_def insert_user_def insert_conversation_def insert_or_ignore_member_def insert_message_def user_ids_def
    split: if_splits)

lemma stmt_inv:
  assumes "stmt db db'" and "db_inv db"
  shows "db_inv db'"
  using assms
  by (cases rule: stmt.cases)
    (auto intro: insert_user_inv update_username_inv insert_conversation_inv insert_or_ignore_member_inv insert_message_inv)

lemma stmts_kept: "stmt\<^sup>*\<^sup>* db db' \<Longrightarrow> kept db db'"
  by (induction rule: rtranclp_induct) (auto intro: kept_trans stmt_kept)

lemma stmts_inv: "stmt\<^sup>*\<^sup>* db db' \<Longrightarrow> db_inv db \<Longrightarrow> db_inv db'"
  by (induction rule: rtranclp_induct) (auto intro: stmt_inv)

subsection \<open>A restart\<close>

text \<open>Persistence across restarts.  Opening a new file gives tables that satisfy the
  schema, and opening the file of an earlier run changes no table: accounts, conversations,
  memberships and history are those of the run before.\<close>

theorem reopen_keeps_everything:
  assumes "db_inv db"
  shows "openDatabase now (Some db) = db \<and> db_inv (openDatabase now None)"
  using assms by (simp add: openDatabase_again_inv openDatabase_new_inv)

theorem reopen_keeps_everything_witness:
  "openDatabase (js ''t1'') (Some (openDatabase (js ''t0'') None)) = openDatabase (js ''t0'') None"
  using reopen_keeps_everything [OF openDatabase_new_inv [of "js ''t0''"]] by simp

end
