(* ===== verification/Accounts.thy ===== *)
theory Accounts
  imports Database
begin

section \<open>Accounts and passwords (gateway/src/auth.ts, gateway/src/users.ts)\<close>

text \<open>
  Registration and login against the users table.  The key derivation function \<open>scrypt\<close>
  of node:crypto is a parameter \<open>kdf\<close> (password, salt and key length to key); the salt, the
  new id and the time of a registration are inputs.  \<open>register\<close> and \<open>login\<close> await the key
  derivation, so each is two functions: what runs before the await and what runs after it,
  on the tables as they are then.
\<close>

type_synonym kdf = "jsstr \<Rightarrow> bytes \<Rightarrow> nat \<Rightarrow> bytes"

subsection \<open>Hexadecimal text\<close>

fun to_hex :: "bytes \<Rightarrow> jsstr" where
  "to_hex [] = []"
| "to_hex (b # bs) = hex_digit (unat b div 16) # hex_digit (unat b mod 16) # to_hex bs"

text \<open>\<open>Buffer.from(s, "hex")\<close> stops at the first pair that is not two hexadecimal digits.\<close>

fun from_hex :: "jsstr \<Rightarrow> bytes" where
  "from_hex (a # b # s) =
     (case (hex_val a, hex_val b) of
        (Some x, Some y) \<Rightarrow> word_of_nat (16 * x + y) # from_hex s
      | _ \<Rightarrow> [])"
| "from_hex _ = []"

lemma from_to_hex: "from_hex (to_hex bs) = bs"
proof (induction bs)
  case (Cons b bs)
  have "unat b < 256" using unsigned_less [of b, where 'a = nat] by simp
  then have "unat b div 16 < 16" "unat b mod 16 < 16" by simp_all
  moreover have "word_of_nat (16 * (unat b div 16) + unat b mod 16) = b" by simp
  ultimately show ?case using Cons.IH by (simp add: hex_val_digit del: of_nat_add of_nat_mult)
qed simp

subsection \<open>auth.ts\<close>

record PasswordRecord =
  pr_hash :: jsstr
  pr_salt :: jsstr

definition KEY_LENGTH :: nat where
  "KEY_LENGTH = 64"

definition hashPassword :: "kdf \<Rightarrow> bytes \<Rightarrow> jsstr \<Rightarrow> PasswordRecord" where
  "hashPassword kdf salt password =
     (let derived = kdf password salt KEY_LENGTH in \<lparr>pr_hash = to_hex derived, pr_salt = to_hex salt\<rparr>)"

definition verifyPassword :: "kdf \<Rightarrow> jsstr \<Rightarrow> PasswordRecord \<Rightarrow> bool" where
  "verifyPassword kdf password rec =
     (let salt = from_hex (pr_salt rec);
          derived = kdf password salt KEY_LENGTH;
          expected = from_hex (pr_hash rec)
      in if length derived \<noteq> length expected then False else derived = expected)"

subsection \<open>users.ts\<close>

record UserRecord =
  ur_id :: jsstr
  ur_username :: jsstr

definition username_unit :: "code_unit \<Rightarrow> bool" where
  "username_unit u \<longleftrightarrow> (65 \<le> u \<and> u \<le> 90) \<or> (97 \<le> u \<and> u \<le> 122) \<or> (48 \<le> u \<and> u \<le> 57)
     \<or> u = 95 \<or> u = 45"

definition USERNAME_RE :: "jsstr \<Rightarrow> bool" where
  "USERNAME_RE s \<longleftrightarrow> 1 \<le> length s \<and> length s \<le> 24 \<and> list_all username_unit s"

definition MIN_PASSWORD_LENGTH :: nat where "MIN_PASSWORD_LENGTH = 8"
definition MAX_PASSWORD_LENGTH :: nat where "MAX_PASSWORD_LENGTH = 256"

definition validateUsername :: "jsstr \<Rightarrow> jsstr option" where
  "validateUsername username =
     (if \<not> USERNAME_RE username
      then Some (js (''Username must be 1-24 characters: letters, digits, '' @ quoted ''_'' @ '' or ''
                  @ quoted ''-'' @ '' only.''))
      else None)"

definition validatePassword :: "jsstr \<Rightarrow> jsstr option" where
  "validatePassword password =
     (if length password < MIN_PASSWORD_LENGTH
      then Some (js ''Password must be at least '' @ show_nat MIN_PASSWORD_LENGTH @ js '' characters.'')
      else if length password > MAX_PASSWORD_LENGTH then Some (js ''Password is too long.'')
      else None)"

definition to_record :: "UserRow \<Rightarrow> UserRecord" where
  "to_record u = \<lparr>ur_id = u_id u, ur_username = u_username u\<rparr>"

definition row_by_username :: "Db \<Rightarrow> jsstr \<Rightarrow> UserRow option" where
  "row_by_username db name = find (\<lambda>u. u_username u = name) (t_users db)"

definition findByUsername :: "Db \<Rightarrow> jsstr \<Rightarrow> UserRecord option" where
  "findByUsername db name = map_option to_record (row_by_username db name)"

definition findById :: "Db \<Rightarrow> jsstr \<Rightarrow> UserRecord option" where
  "findById db i = map_option to_record (find (\<lambda>u. u_id u = i) (t_users db))"

definition taken_error :: jsstr where
  "taken_error = js ''That username is already taken.''"

text \<open>\<open>register\<close> up to \<open>await hashPassword\<close>: the error it throws, if any.\<close>

definition register_check :: "Db \<Rightarrow> jsstr \<Rightarrow> jsstr \<Rightarrow> jsstr option" where
  "register_check db username password =
     (case validateUsername username of
        Some e \<Rightarrow> Some e
      | None \<Rightarrow>
          (case validatePassword password of
             Some e \<Rightarrow> Some e
           | None \<Rightarrow> if findByUsername db username \<noteq> None then Some taken_error else None))"

text \<open>\<open>register\<close> after the await.\<close>

definition register_insert ::
    "kdf \<Rightarrow> bytes \<Rightarrow> jsstr \<Rightarrow> jsstr \<Rightarrow> Db \<Rightarrow> jsstr \<Rightarrow> jsstr \<Rightarrow> jsstr + (Db \<times> UserRecord)" where
  "register_insert kdf salt uuid now db username password =
     (let rec = hashPassword kdf salt password in
      case insert_user \<lparr>u_id = uuid, u_username = username, u_password_hash = pr_hash rec,
                        u_password_salt = pr_salt rec, u_created_at = now\<rparr> db of
        Inl e \<Rightarrow> Inl e
      | Inr db' \<Rightarrow> Inr (db', \<lparr>ur_id = uuid, ur_username = username\<rparr>))"

text \<open>\<open>login\<close> up to \<open>await verifyPassword\<close> is \<open>row_by_username\<close>; the rest, on the row read then:\<close>

definition login_verify :: "kdf \<Rightarrow> UserRow \<Rightarrow> jsstr \<Rightarrow> UserRecord option" where
  "login_verify kdf row password =
     (if verifyPassword kdf password \<lparr>pr_hash = u_password_hash row, pr_salt = u_password_salt row\<rparr>
      then Some (to_record row) else None)"

definition login :: "kdf \<Rightarrow> Db \<Rightarrow> jsstr \<Rightarrow> jsstr \<Rightarrow> UserRecord option" where
  "login kdf db username password =
     (case row_by_username db username of None \<Rightarrow> None | Some row \<Rightarrow> login_verify kdf row password)"

definition rename :: "Db \<Rightarrow> jsstr \<Rightarrow> jsstr \<Rightarrow> jsstr + Db" where
  "rename db userId newUsername =
     (case validateUsername newUsername of
        Some e \<Rightarrow> Inl e
      | None \<Rightarrow>
          (case findByUsername db newUsername of
             Some existing \<Rightarrow> if ur_id existing \<noteq> userId then Inl taken_error
                             else update_username userId newUsername db
           | None \<Rightarrow> update_username userId newUsername db))"

subsection \<open>Lemmas\<close>

lemma verify_hash: "verifyPassword kdf p (hashPassword kdf salt p')
    \<longleftrightarrow> kdf p salt KEY_LENGTH = kdf p' salt KEY_LENGTH"
  by (auto simp: verifyPassword_def hashPassword_def from_to_hex Let_def)

lemma row_by_username_Some: "row_by_username db n = Some u \<Longrightarrow> u \<in> set (t_users db) \<and> u_username u = n"
  by (auto simp: row_by_username_def dest: find_Some_set)

lemma row_by_username_None: "row_by_username db n = None \<longleftrightarrow> n \<notin> u_username ` set (t_users db)"
  by (auto simp: row_by_username_def find_None_all)

lemma row_by_username_append:
  "row_by_username (db\<lparr>t_users := t_users db @ [u]\<rparr>) n =
     (case row_by_username db n of Some v \<Rightarrow> Some v | None \<Rightarrow> if u_username u = n then Some u else None)"
proof -
  have "find P (xs @ [x]) = (case find P xs of Some v \<Rightarrow> Some v | None \<Rightarrow> if P x then Some x else None)"
    for P :: "UserRow \<Rightarrow> bool" and xs x
    by (induction xs) auto
  then show ?thesis by (simp add: row_by_username_def)
qed

lemma register_insert_Inr:
  "register_insert kdf salt uuid now db n p = Inr (db', r) \<Longrightarrow>
   \<exists>u. insert_user u db = Inr db' \<and> u_id u = uuid \<and> u_username u = n \<and> ur_id r = uuid \<and> ur_username r = n
     \<and> u_password_hash u = pr_hash (hashPassword kdf salt p) \<and> u_password_salt u = pr_salt (hashPassword kdf salt p)"
  by (auto simp: register_insert_def Let_def split: sum.splits)

lemma register_insert_inv: "db_inv db \<Longrightarrow> register_insert kdf salt uuid now db n p = Inr (db', r) \<Longrightarrow> db_inv db'"
  using insert_user_inv by (auto dest!: register_insert_Inr)

lemma rename_Inr: "rename db i n = Inr db' \<Longrightarrow> update_username i n db = Inr db' \<and> USERNAME_RE n"
  by (auto simp: rename_def validateUsername_def split: option.splits if_splits)

lemma rename_inv: "db_inv db \<Longrightarrow> rename db i n = Inr db' \<Longrightarrow> db_inv db'"
  using update_username_inv by (auto dest!: rename_Inr)

lemma insert_user_users: "insert_user u db = Inr db' \<Longrightarrow> t_users db' = t_users db @ [u]"
  by (auto simp: insert_user_def split: if_splits)

lemma login_after_insert:
  assumes "register_insert kdf salt uuid now db n p = Inr (db', r)"
  shows "login kdf db' n q = (if kdf q salt KEY_LENGTH = kdf p salt KEY_LENGTH then Some r else None)"
proof -
  from register_insert_Inr [OF assms] obtain u where
    u: "insert_user u db = Inr db'" "u_username u = n" "u_id u = uuid" "ur_id r = uuid" "ur_username r = n"
      "u_password_hash u = pr_hash (hashPassword kdf salt p)" "u_password_salt u = pr_salt (hashPassword kdf salt p)"
    by blast
  then have "n \<notin> u_username ` set (t_users db)" and db': "db' = db\<lparr>t_users := t_users db @ [u]\<rparr>"
    by (auto simp: insert_user_def split: if_splits)
  then have "row_by_username db' n = Some u"
    by (simp add: row_by_username_append row_by_username_None [THEN iffD2] u(2))
  moreover have "to_record u = r" using u by (simp add: to_record_def)
  moreover have "\<lparr>pr_hash = u_password_hash u, pr_salt = u_password_salt u\<rparr> = hashPassword kdf salt p"
    using u by simp
  ultimately show ?thesis by (simp add: login_def login_verify_def verify_hash)
qed

lemma login_other_user:
  assumes "insert_user u db = Inr db'" and "u_username u \<noteq> n"
  shows "login kdf db' n q = login kdf db n q"
proof -
  have "db' = db\<lparr>t_users := t_users db @ [u]\<rparr>"
    using assms(1) by (auto simp: insert_user_def split: if_splits)
  with assms(2) show ?thesis by (simp add: login_def row_by_username_append split: option.splits)
qed

subsection \<open>Properties\<close>

text \<open>C37: Registering and then logging in works.  After an account has been inserted, logging
  in with its user name gives that account exactly for the passwords that derive the same
  key (so always for the password itself), and every other user name logs in as before.\<close>

theorem register_then_login:
  assumes "register_insert kdf salt uuid now db name password = Inr (db', account)"
  shows "(login kdf db' name guess = Some account \<longleftrightarrow> kdf guess salt KEY_LENGTH = kdf password salt KEY_LENGTH)
    \<and> (login kdf db' name guess = None \<longleftrightarrow> kdf guess salt KEY_LENGTH \<noteq> kdf password salt KEY_LENGTH)
    \<and> (other \<noteq> name \<longrightarrow> login kdf db' other guess = login kdf db other guess)"
proof -
  from register_insert_Inr [OF assms] obtain u where "insert_user u db = Inr db'" "u_username u = name"
    by blast
  then show ?thesis
    using login_after_insert [OF assms] login_other_user by auto
qed

theorem register_then_login_witness:
  defines "k \<equiv> (\<lambda>p s n. take n (map (\<lambda>u. word_of_nat (unat u)) p @ s)) :: kdf"
  shows "\<exists>db account. register_insert k [7] (js ''id1'') (js ''t'') empty_tables (js ''ann'') (js ''password'') = Inr (db, account)
     \<and> login k db (js ''ann'') (js ''password'') = Some account"
proof -
  have "\<exists>db account. register_insert k [7] (js ''id1'') (js ''t'') empty_tables (js ''ann'') (js ''password'') = Inr (db, account)"
    by (simp add: register_insert_def insert_user_def empty_tables_def Let_def)
  then obtain db account where
    r: "register_insert k [7] (js ''id1'') (js ''t'') empty_tables (js ''ann'') (js ''password'') = Inr (db, account)"
    by blast
  from register_then_login [OF r, of "js ''password''"] r show ?thesis by blast
qed

text \<open>User names are unique, also when registrations race.  Whatever happened to the
  tables while the password was being hashed, the insertion is refused exactly when the user
  name (or the fresh id) is taken by then, and otherwise it adds one account and keeps every
  constraint of the schema.\<close>

theorem registration_race_safe:
  assumes "db_inv db"
  shows "(case register_insert kdf salt uuid now db name password of
      Inl e \<Rightarrow> uuid \<in> user_ids db \<or> name \<in> u_username ` set (t_users db)
    | Inr (db', r) \<Rightarrow> db_inv db' \<and> name \<notin> u_username ` set (t_users db)
        \<and> findByUsername db' name = Some r \<and> user_ids db' = insert uuid (user_ids db))"
proof (cases "register_insert kdf salt uuid now db name password")
  case (Inl e)
  then show ?thesis
    by (auto simp: register_insert_def insert_user_def Let_def user_ids_def split: if_splits)
next
  case (Inr dr)
  then obtain db' r where r: "register_insert kdf salt uuid now db name password = Inr (db', r)" by (cases dr) auto
  from register_insert_Inr [OF this] obtain u where
    u: "insert_user u db = Inr db'" "u_username u = name" "u_id u = uuid" "ur_id r = uuid" "ur_username r = name"
    by blast
  then have new: "name \<notin> u_username ` set (t_users db)" and db': "db' = db\<lparr>t_users := t_users db @ [u]\<rparr>"
    by (auto simp: insert_user_def split: if_splits)
  then have "findByUsername db' name = Some r"
    using u by (simp add: findByUsername_def row_by_username_append row_by_username_None [THEN iffD2] to_record_def)
  moreover have "user_ids db' = insert uuid (user_ids db)" using db' u by (simp add: user_ids_def)
  ultimately show ?thesis using register_insert_inv [OF assms r] new r by simp
qed

theorem registration_race_safe_witness:
  "\<exists>db r. register_insert (\<lambda>_ _ _. []) [] (js ''id1'') (js ''t'') (openDatabase (js ''t'') None) (js ''ann'') (js ''password'')
     = Inr (db, r) \<and> db_inv db"
proof -
  have "t_users (openDatabase (js ''t'') None) = []"
    by (simp add: openDatabase_def insert_or_ignore_conversation_def empty_tables_def)
  with registration_race_safe [OF openDatabase_new_inv [of "js ''t''"], where kdf = "\<lambda>_ _ _. []"
      and salt = "[]" and uuid = "js ''id1''" and now = "js ''t''" and name = "js ''ann''"
      and password = "js ''password''"]
  show ?thesis by (auto simp: user_ids_def split: sum.splits)
qed

text \<open>A rename is refused when another account has the name, whether or not that account
  is online, and when it succeeds the account's name is the new one and no other account
  changes.\<close>

theorem rename_spec:
  assumes "distinct (map u_id (t_users db))" and "u \<in> set (t_users db)" and "u_id u = i"
  shows "(case rename db i name of
      Inl e \<Rightarrow> \<not> USERNAME_RE name \<or> (\<exists>v \<in> set (t_users db). u_id v \<noteq> i \<and> u_username v = name)
    | Inr db' \<Rightarrow> findById db' i = Some \<lparr>ur_id = i, ur_username = name\<rparr>
        \<and> (\<forall>j. j \<noteq> i \<longrightarrow> findById db' j = findById db j))"
proof (cases "rename db i name")
  case (Inl e)
  then show ?thesis
    by (auto simp: rename_def validateUsername_def findByUsername_def update_username_def to_record_def
        dest!: row_by_username_Some split: option.splits if_splits)
next
  case (Inr db')
  then have us: "t_users db' = map (\<lambda>u. if u_id u = i then u\<lparr>u_username := name\<rparr> else u) (t_users db)"
    by (auto dest!: rename_Inr simp: update_username_def split: if_splits)
  let ?f = "\<lambda>u. if u_id u = i then u\<lparr>u_username := name\<rparr> else u"
  have same: "find (\<lambda>u. u_id u = i) (map ?f xs) = map_option (u_username_update (\<lambda>_. name)) (find (\<lambda>u. u_id u = i) xs)" for xs
    by (induction xs) auto
  have other: "j \<noteq> i \<Longrightarrow> find (\<lambda>u. u_id u = j) (map ?f xs) = find (\<lambda>u. u_id u = j) xs" for xs j
    by (induction xs) auto
  obtain w where w: "find (\<lambda>u. u_id u = i) (t_users db) = Some w" "u_id w = i"
    using assms(2,3) find_None_all [of "\<lambda>u. u_id u = i" "t_users db"]
    by (cases "find (\<lambda>u. u_id u = i) (t_users db)") (auto dest: find_Some_set)
  show ?thesis
    using Inr w by (simp add: findById_def us same other to_record_def)
qed

theorem rename_spec_witness:
  defines "u \<equiv> \<lparr>u_id = js ''id1'', u_username = js ''ann'', u_password_hash = [], u_password_salt = [], u_created_at = js ''t''\<rparr>"
  shows "\<exists>db'. rename (empty_tables\<lparr>t_users := [u]\<rparr>) (js ''id1'') (js ''bob'') = Inr db'
     \<and> findById db' (js ''id1'') = Some \<lparr>ur_id = js ''id1'', ur_username = js ''bob''\<rparr>"
proof -
  let ?db = "empty_tables\<lparr>t_users := [u]\<rparr>"
  have "USERNAME_RE (js ''bob'')"
    by (simp add: USERNAME_RE_def username_unit_def js_def)
  then obtain db' where r: "rename ?db (js ''id1'') (js ''bob'') = Inr db'"
    by (auto simp: rename_def validateUsername_def findByUsername_def row_by_username_def update_username_def u_def)
  have "distinct (map u_id (t_users ?db))" "u \<in> set (t_users ?db)" "u_id u = js ''id1''"
    by (simp_all add: u_def)
  from rename_spec [OF this, of "js ''bob''"] r show ?thesis by auto
qed

end
