(* ===== verification/Conversations.thy ===== *)
theory Conversations
  imports Accounts
begin

section \<open>Conversations and membership (gateway/src/conversationManager.ts)\<close>

text \<open>
  Existence and membership of direct and group conversations in the tables.  SQL leaves the
  order of the rows of a query without ORDER BY open; the model lists them in insertion order
  and no property here depends on it.  The interface \<open>membership_store\<close> is what the gateway
  relies on: how the members of a conversation change, from which it follows that nobody
  enters a group after its creation.
\<close>

subsection \<open>The code\<close>

record GroupConversation =
  g_id :: jsstr
  g_name :: jsstr
  g_memberIds :: "jsstr list"

definition directConversationId :: "jsstr \<Rightarrow> jsstr \<Rightarrow> jsstr" where
  "directConversationId a b = js ''direct:'' @ join (js '':'') (sort [a, b])"

definition publicConversation :: "jsstr list \<Rightarrow> ConversationSummary" where
  "publicConversation onlineUserIds =
     \<lparr>cs_id = PUBLIC_CONVERSATION_ID, cs_kind = KPublic, cs_title = js ''Public Chat'', cs_memberIds = onlineUserIds\<rparr>"

definition hasDirect :: "Db \<Rightarrow> jsstr \<Rightarrow> bool" where
  "hasDirect db i \<longleftrightarrow> (\<exists>c \<in> set (t_conversations db). c_id c = i \<and> c_kind c = KDirect)"

definition addMember :: "jsstr \<Rightarrow> jsstr \<Rightarrow> Db \<Rightarrow> Db" where
  "addMember conversationId userId db = insert_or_ignore_member conversationId userId db"

definition ensureDirect :: "jsstr \<Rightarrow> jsstr \<Rightarrow> jsstr \<Rightarrow> Db \<Rightarrow> Db \<times> ConversationSummary" where
  "ensureDirect now a b db =
     (let i = directConversationId a b;
          db' = (if \<not> hasDirect db i
                 then addMember i b (addMember i a (insert_or_ignore_conversation
                        \<lparr>c_id = i, c_kind = KDirect, c_title = [], c_created_at = now\<rparr> db))
                 else db)
      in (db', \<lparr>cs_id = i, cs_kind = KDirect, cs_title = [], cs_memberIds = [a, b]\<rparr>))"

definition createGroup :: "jsstr \<Rightarrow> jsstr \<Rightarrow> jsstr \<Rightarrow> jsstr list \<Rightarrow> Db \<Rightarrow> jsstr + (Db \<times> ConversationSummary)" where
  "createGroup uuid now name memberIds db =
     (let i = js ''group:'' @ uuid in
      case insert_conversation \<lparr>c_id = i, c_kind = KGroup, c_title = name, c_created_at = now\<rparr> db of
        Inl e \<Rightarrow> Inl e
      | Inr db' \<Rightarrow> Inr (fold (addMember i) memberIds db',
                       \<lparr>cs_id = i, cs_kind = KGroup, cs_title = name, cs_memberIds = memberIds\<rparr>))"

definition member_rows :: "Db \<Rightarrow> jsstr \<Rightarrow> jsstr list" where
  "member_rows db i = map snd (filter (\<lambda>(c, u). c = i) (t_members db))"

definition getGroup :: "Db \<Rightarrow> jsstr \<Rightarrow> GroupConversation option" where
  "getGroup db i =
     (case find (\<lambda>c. c_id c = i \<and> c_kind c = KGroup) (t_conversations db) of
        None \<Rightarrow> None
      | Some conv \<Rightarrow> Some \<lparr>g_id = c_id conv, g_name = c_title conv, g_memberIds = uniq (member_rows db i)\<rparr>)"

text \<open>The title of a direct conversation: the other member's user name, where the first truthy
  value of the \<open>||\<close> chain counts.\<close>

definition direct_title :: "Db \<Rightarrow> jsstr \<Rightarrow> jsstr list \<Rightarrow> jsstr \<Rightarrow> jsstr" where
  "direct_title db userId memberIds title =
     (case find (\<lambda>i. i \<noteq> userId) memberIds of
        None \<Rightarrow> title
      | Some otherId \<Rightarrow>
          if otherId = [] then title
          else (case findById db otherId of
                  None \<Rightarrow> title
                | Some r \<Rightarrow> if ur_username r = [] then title else ur_username r))"

definition conversationsFor :: "Db \<Rightarrow> jsstr \<Rightarrow> ConversationSummary list" where
  "conversationsFor db userId =
     (let rows = concat (map (\<lambda>c. map (\<lambda>_. c) (filter (\<lambda>(cid, uid). cid = c_id c \<and> uid = userId) (t_members db)))
                       (filter (\<lambda>c. c_kind c \<in> {KDirect, KGroup}) (t_conversations db)))
      in map (\<lambda>row.
           let memberIds = member_rows db (c_id row) in
           \<lparr>cs_id = c_id row, cs_kind = c_kind row,
            cs_title = (if c_kind row = KDirect then direct_title db userId memberIds (c_title row) else c_title row),
            cs_memberIds = memberIds\<rparr>) rows)"

subsection \<open>The interface: how membership changes\<close>

locale membership_store =
  fixes members :: "'s \<Rightarrow> 'c \<Rightarrow> 'u set"
    and exists :: "'s \<Rightarrow> 'c \<Rightarrow> bool"
    and dm_id :: "'u \<Rightarrow> 'u \<Rightarrow> 'c"
    and group_id :: "'k \<Rightarrow> 'c"
    and direct :: "'t \<Rightarrow> 'u \<Rightarrow> 'u \<Rightarrow> 's \<Rightarrow> 's"
    and group :: "'k \<Rightarrow> 't \<Rightarrow> 'n \<Rightarrow> 'u list \<Rightarrow> 's \<Rightarrow> 's option"
    and ok :: "'s \<Rightarrow> bool"
  assumes dm_sym: "dm_id a b = dm_id b a"
    and dm_not_group: "dm_id a b \<noteq> group_id k"
    and ok_direct: "ok s \<Longrightarrow> ok (direct now a b s)"
    and ok_group: "ok s \<Longrightarrow> group k now name us s = Some s' \<Longrightarrow> ok s'"
    and members_exist: "ok s \<Longrightarrow> u \<in> members s c \<Longrightarrow> exists s c"
    and members_direct: "members (direct now a b s) c \<subseteq> members s c \<union> (if c = dm_id a b then {a, b} else {})"
    and members_direct_keep: "members s c \<subseteq> members (direct now a b s) c"
    and exists_direct: "exists (direct now a b s) c \<longleftrightarrow> exists s c \<or> c = dm_id a b"
    and members_group: "ok s \<Longrightarrow> group k now name us s = Some s' \<Longrightarrow>
        members s' c = (if c = group_id k then set us else members s c)"
    and exists_group: "group k now name us s = Some s' \<Longrightarrow> exists s' c \<longleftrightarrow> exists s c \<or> c = group_id k"
    and group_fresh: "group k now name us s = Some s' \<Longrightarrow> \<not> exists s (group_id k)"
begin

text \<open>One operation of a client: make sure a direct conversation exists, or create a group.\<close>

inductive op :: "'s \<Rightarrow> 's \<Rightarrow> bool" where
  op_direct: "op s (direct now a b s)"
| op_group: "group k now name us s = Some s' \<Longrightarrow> op s s'"

lemma op_ok: "op s t \<Longrightarrow> ok s \<Longrightarrow> ok t"
  by (cases rule: op.cases) (auto intro: ok_direct ok_group)

lemma op_exists: "op s t \<Longrightarrow> exists s c \<Longrightarrow> exists t c"
  by (cases rule: op.cases) (auto simp: exists_direct exists_group)

lemma op_members_grow:
  assumes "op s t" and "ok s"
  shows "members s c \<subseteq> members t c"
  using assms(1)
proof (cases rule: op.cases)
  case op_direct
  then show ?thesis using members_direct_keep by blast
next
  case op_group
  then show ?thesis
    using members_group [OF assms(2)] group_fresh members_exist [OF assms(2)] by fastforce
qed

lemma op_group_frozen:
  assumes "op s t" and "ok s" and "exists s (group_id k)"
  shows "members t (group_id k) = members s (group_id k)"
  using assms(1)
proof (cases rule: op.cases)
  case (op_direct now a b)
  then show ?thesis
    using members_direct [of now a b s "group_id k"] members_direct_keep [of s "group_id k" now a b] dm_not_group [of a b k]
    by auto
next
  case (op_group k' now name us)
  then show ?thesis
    using members_group [OF assms(2), of k' now name us t "group_id k"] group_fresh [of k' now name us s t] assms(3) by auto
qed

lemma ops_group_frozen:
  "op\<^sup>*\<^sup>* s t \<Longrightarrow> ok s \<Longrightarrow> exists s (group_id k) \<Longrightarrow>
   ok t \<and> exists t (group_id k) \<and> members t (group_id k) = members s (group_id k)"
  by (induction rule: rtranclp_induct) (auto simp: op_ok op_exists op_group_frozen)

lemma group_members_forever:
  assumes "ok s" and "group k now name us s = Some s'" and "op\<^sup>*\<^sup>* s' t"
  shows "members t (group_id k) = set us"
  using ops_group_frozen [OF assms(3) ok_group [OF assms(1,2)]] exists_group [OF assms(2)] members_group [OF assms(1,2)]
  by simp

end

subsection \<open>The tables provide the interface\<close>

definition members_of :: "Db \<Rightarrow> jsstr \<Rightarrow> jsstr set" where
  "members_of db c = {u. (c, u) \<in> set (t_members db)}"

definition group_conversation_id :: "jsstr \<Rightarrow> jsstr" where
  "group_conversation_id uuid = js ''group:'' @ uuid"

definition kinds_ok :: "Db \<Rightarrow> bool" where
  "kinds_ok db \<longleftrightarrow> (\<forall>c \<in> set (t_conversations db). case c_kind c of
       KPublic \<Rightarrow> c_id c = PUBLIC_CONVERSATION_ID
     | KDirect \<Rightarrow> (\<exists>a b. c_id c = directConversationId a b \<and> members_of db (c_id c) = {a, b})
     | KGroup \<Rightarrow> (\<exists>k. c_id c = group_conversation_id k))"

definition conv_inv :: "Db \<Rightarrow> bool" where
  "conv_inv db \<longleftrightarrow> db_inv db \<and> kinds_ok db"

lemma directConversationId_eq:
  "directConversationId a b = js ''direct:'' @ (if a \<le> b then a @ js '':'' @ b else b @ js '':'' @ a)"
  by (simp add: directConversationId_def)

lemma directConversationId_sym: "directConversationId a b = directConversationId b a"
  by (auto simp: directConversationId_eq)

lemma js_prefix_differ: "js (c # s) @ x = js (d # t) @ y \<Longrightarrow> c = d"
  by (simp add: js_def)

lemma direct_not_group: "directConversationId a b \<noteq> group_conversation_id k"
  using js_prefix_differ unfolding directConversationId_eq group_conversation_id_def by fastforce

lemma direct_not_public: "directConversationId a b \<noteq> PUBLIC_CONVERSATION_ID"
  using js_prefix_differ [where x = _ and y = "[]"] unfolding directConversationId_eq PUBLIC_CONVERSATION_ID_def by fastforce

lemma group_not_public: "group_conversation_id k \<noteq> PUBLIC_CONVERSATION_ID"
  using js_prefix_differ [where x = _ and y = "[]"] unfolding group_conversation_id_def PUBLIC_CONVERSATION_ID_def by fastforce

lemma addMember_set [simp]: "set (t_members (addMember c u db)) = insert (c, u) (set (t_members db))"
  by (auto simp: addMember_def insert_or_ignore_member_def)

lemma addMember_frame [simp]:
  "t_users (addMember c u db) = t_users db" "t_conversations (addMember c u db) = t_conversations db"
  "t_messages (addMember c u db) = t_messages db" "conv_ids (addMember c u db) = conv_ids db"
  by (simp_all add: addMember_def insert_or_ignore_member_def conv_ids_def)

lemma addMembers_set [simp]: "set (t_members (fold (addMember c) us db)) = Pair c ` set us \<union> set (t_members db)"
  by (induction us arbitrary: db) auto

lemma addMembers_frame [simp]:
  "t_users (fold (addMember c) us db) = t_users db" "t_conversations (fold (addMember c) us db) = t_conversations db"
  "t_messages (fold (addMember c) us db) = t_messages db" "conv_ids (fold (addMember c) us db) = conv_ids db"
  by (induction us arbitrary: db) auto

lemma addMember_inv: "db_inv db \<Longrightarrow> c \<in> conv_ids db \<Longrightarrow> db_inv (addMember c u db)"
  by (simp add: addMember_def insert_or_ignore_member_inv)

lemma addMembers_inv: "db_inv db \<Longrightarrow> c \<in> conv_ids db \<Longrightarrow> db_inv (fold (addMember c) us db)"
  by (induction us arbitrary: db) (auto simp: addMember_inv)

lemma set_member_rows: "set (member_rows db i) = members_of db i"
  by (force simp: member_rows_def members_of_def)

lemma no_members: "db_inv db \<Longrightarrow> c \<notin> conv_ids db \<Longrightarrow> members_of db c = {}"
  by (auto simp: members_of_def db_inv_def references_ok_def)

lemma hasDirect_in: "hasDirect db i \<Longrightarrow> i \<in> conv_ids db"
  by (auto simp: hasDirect_def conv_ids_def intro: rev_image_eqI)

lemma hasDirect_iff: "kinds_ok db \<Longrightarrow> hasDirect db (directConversationId a b) \<longleftrightarrow> directConversationId a b \<in> conv_ids db"
proof
  assume k: "kinds_ok db" and "directConversationId a b \<in> conv_ids db"
  then obtain c where c: "c \<in> set (t_conversations db)" "c_id c = directConversationId a b"
    by (auto simp: conv_ids_def)
  with k have "c_kind c = KDirect"
    by (cases "c_kind c") (auto simp: kinds_ok_def direct_not_group direct_not_public)
  with c show "hasDirect db (directConversationId a b)" by (auto simp: hasDirect_def)
qed (rule hasDirect_in)

lemma insert_or_ignore_conversation_ids [simp]: "conv_ids (insert_or_ignore_conversation c db) = insert (c_id c) (conv_ids db)"
  by (auto simp: insert_or_ignore_conversation_def conv_ids_def)

lemma insert_or_ignore_conversation_frame [simp]:
  "t_users (insert_or_ignore_conversation c db) = t_users db"
  "t_members (insert_or_ignore_conversation c db) = t_members db"
  "t_messages (insert_or_ignore_conversation c db) = t_messages db"
  by (simp_all add: insert_or_ignore_conversation_def)

lemma ensureDirect_members:
  "members_of (fst (ensureDirect now a b db)) c = members_of db c \<union>
     (if c = directConversationId a b \<and> \<not> hasDirect db c then {a, b} else {})"
  by (auto simp: ensureDirect_def members_of_def Let_def)

lemma ensureDirect_ids:
  "conv_ids (fst (ensureDirect now a b db)) = insert (directConversationId a b) (conv_ids db)"
  by (auto simp: ensureDirect_def Let_def dest: hasDirect_in)

lemma ensureDirect_db_inv: "db_inv db \<Longrightarrow> db_inv (fst (ensureDirect now a b db))"
  by (simp add: ensureDirect_def Let_def addMember_inv insert_or_ignore_conversation_inv)

lemma ensureDirect_frame [simp]:
  "t_users (fst (ensureDirect now a b db)) = t_users db" "t_messages (fst (ensureDirect now a b db)) = t_messages db"
  by (simp_all add: ensureDirect_def Let_def)

lemma ensureDirect_inv:
  assumes "conv_inv db"
  shows "conv_inv (fst (ensureDirect now a b db))"
proof (cases "hasDirect db (directConversationId a b)")
  case True
  with assms show ?thesis by (simp add: ensureDirect_def Let_def)
next
  case False
  let ?i = "directConversationId a b" and ?db' = "fst (ensureDirect now a b db)"
  from assms have inv: "db_inv db" and k: "kinds_ok db" by (auto simp: conv_inv_def)
  with False have new: "?i \<notin> conv_ids db" by (simp add: hasDirect_iff)
  then have convs: "t_conversations ?db' = t_conversations db @ [\<lparr>c_id = ?i, c_kind = KDirect, c_title = [], c_created_at = now\<rparr>]"
    using False by (simp add: ensureDirect_def Let_def insert_or_ignore_conversation_def conv_ids_def)
  have "members_of ?db' c = members_of db c" if "c \<in> conv_ids db" for c
    using that new by (auto simp: ensureDirect_members)
  moreover have "members_of ?db' ?i = {a, b}"
    using False no_members [OF inv new] by (simp add: ensureDirect_members)
  ultimately have "kinds_ok ?db'"
    using k by (fastforce simp: kinds_ok_def convs conv_ids_def split: ConversationKind.splits)
  with inv show ?thesis by (simp add: conv_inv_def ensureDirect_db_inv)
qed

lemma createGroup_Inr:
  assumes "createGroup uuid now name us db = Inr (db', s)"
  shows "s = \<lparr>cs_id = group_conversation_id uuid, cs_kind = KGroup, cs_title = name, cs_memberIds = us\<rparr>
    \<and> group_conversation_id uuid \<notin> conv_ids db
    \<and> conv_ids db' = insert (group_conversation_id uuid) (conv_ids db)
    \<and> t_conversations db' = t_conversations db @ [\<lparr>c_id = group_conversation_id uuid, c_kind = KGroup, c_title = name, c_created_at = now\<rparr>]
    \<and> set (t_members db') = Pair (group_conversation_id uuid) ` set us \<union> set (t_members db)
    \<and> t_users db' = t_users db \<and> t_messages db' = t_messages db"
  using assms
  by (auto simp: createGroup_def Let_def insert_conversation_def group_conversation_id_def conv_ids_def
      split: sum.splits if_splits)

lemma createGroup_db_inv:
  assumes "db_inv db" and "createGroup uuid now name us db = Inr (db', s)"
  shows "db_inv db'"
proof -
  obtain db1 where "insert_conversation \<lparr>c_id = js ''group:'' @ uuid, c_kind = KGroup, c_title = name, c_created_at = now\<rparr> db = Inr db1"
    and "db' = fold (addMember (js ''group:'' @ uuid)) us db1"
    using assms(2) by (auto simp: createGroup_def Let_def split: sum.splits)
  moreover from this have "js ''group:'' @ uuid \<in> conv_ids db1"
    by (auto simp: insert_conversation_def conv_ids_def split: if_splits)
  ultimately show ?thesis using insert_conversation_inv [OF assms(1)] by (simp add: addMembers_inv)
qed

lemma createGroup_inv:
  assumes "conv_inv db" and "createGroup uuid now name us db = Inr (db', s)"
  shows "conv_inv db'"
proof -
  note c = createGroup_Inr [OF assms(2)]
  have "members_of db' c = members_of db c" if "c \<in> conv_ids db" for c
    using c that by (auto simp: members_of_def)
  then have "kinds_ok db'"
    using assms(1) c by (fastforce simp: conv_inv_def kinds_ok_def conv_ids_def split: ConversationKind.splits)
  with assms createGroup_db_inv show ?thesis by (auto simp: conv_inv_def)
qed

text \<open>The statements of the two operations, one by one.\<close>

lemma stmt_ignored_conversation: "stmt\<^sup>*\<^sup>* db (insert_or_ignore_conversation c db)"
  using stmt_conversation [of c db "db\<lparr>t_conversations := t_conversations db @ [c]\<rparr>"]
  by (auto simp: insert_or_ignore_conversation_def insert_conversation_def)

lemma stmt_addMember: "c \<in> conv_ids db \<Longrightarrow> stmt db (addMember c u db)"
  by (simp add: addMember_def stmt_member)

lemma stmts_addMembers: "c \<in> conv_ids db \<Longrightarrow> stmt\<^sup>*\<^sup>* db (fold (addMember c) us db)"
proof (induction us arbitrary: db)
  case (Cons u us)
  from Cons.prems have "stmt db (addMember c u db)" by (rule stmt_addMember)
  moreover have "stmt\<^sup>*\<^sup>* (addMember c u db) (fold (addMember c) us (addMember c u db))" using Cons by simp
  ultimately show ?case by (simp add: converse_rtranclp_into_rtranclp)
qed simp

lemma ensureDirect_stmts:
  assumes "\<not> hasDirect db (directConversationId a b)" and "i = directConversationId a b"
    and "d1 = insert_or_ignore_conversation \<lparr>c_id = i, c_kind = KDirect, c_title = [], c_created_at = now\<rparr> db" and "d2 = addMember i a d1"
  shows "stmt\<^sup>*\<^sup>* db d1" and "stmt\<^sup>*\<^sup>* d1 d2" and "stmt\<^sup>*\<^sup>* d2 (fst (ensureDirect now a b db))"
proof -
  have "i \<in> conv_ids d1" by (simp add: assms(3))
  then have i: "i \<in> conv_ids d1" "i \<in> conv_ids d2" by (simp_all add: assms(4))
  show "stmt\<^sup>*\<^sup>* db d1" unfolding assms(3) by (rule stmt_ignored_conversation)
  show "stmt\<^sup>*\<^sup>* d1 d2" unfolding assms(4) using stmt_addMember [OF i(1)] by blast
  have "fst (ensureDirect now a b db) = addMember i b d2" using assms by (simp add: ensureDirect_def Let_def)
  then show "stmt\<^sup>*\<^sup>* d2 (fst (ensureDirect now a b db))" using stmt_addMember [OF i(2), of b] by auto
qed

lemma ensureDirect_path: "stmt\<^sup>*\<^sup>* db (fst (ensureDirect now a b db))"
proof (cases "hasDirect db (directConversationId a b)")
  case True
  then show ?thesis by (simp add: ensureDirect_def Let_def)
next
  case False
  from ensureDirect_stmts [OF this refl refl refl, where now = now] show ?thesis by (meson rtranclp_trans)
qed

lemma createGroup_stmts:
  assumes "createGroup uuid now name us db = Inr (db', s)" and "i = group_conversation_id uuid"
    and "d = fold (addMember i) (take k us) (db\<lparr>t_conversations := t_conversations db @ [\<lparr>c_id = i, c_kind = KGroup, c_title = name, c_created_at = now\<rparr>]\<rparr>)"
  shows "stmt\<^sup>*\<^sup>* db d" and "stmt\<^sup>*\<^sup>* d db'"
proof -
  let ?d0 = "db\<lparr>t_conversations := t_conversations db @ [\<lparr>c_id = i, c_kind = KGroup, c_title = name, c_created_at = now\<rparr>]\<rparr>"
  have c: "insert_conversation \<lparr>c_id = i, c_kind = KGroup, c_title = name, c_created_at = now\<rparr> db = Inr ?d0" "db' = fold (addMember i) us ?d0"
    using assms(1) by (auto simp: createGroup_def Let_def insert_conversation_def assms(2) group_conversation_id_def split: sum.splits if_splits)
  have i: "i \<in> conv_ids ?d0" by (simp add: conv_ids_def)
  show "stmt\<^sup>*\<^sup>* db d"
    unfolding assms(3) using stmt_conversation [OF c(1)] stmts_addMembers [OF i] by (rule converse_rtranclp_into_rtranclp)
  have "db' = fold (addMember i) (drop k us) d"
    unfolding c(2) assms(3) by (subst fold_append [symmetric, unfolded comp_def, THEN fun_cong]) simp
  then show "stmt\<^sup>*\<^sup>* d db'" using stmts_addMembers [of i d] i by (simp add: assms(3))
qed

definition createGroup_db :: "jsstr \<Rightarrow> jsstr \<Rightarrow> jsstr \<Rightarrow> jsstr list \<Rightarrow> Db \<Rightarrow> Db option" where
  "createGroup_db uuid now name us db =
     (case createGroup uuid now name us db of Inl _ \<Rightarrow> None | Inr (db', _) \<Rightarrow> Some db')"

lemma createGroup_db_Some: "createGroup_db uuid now name us db = Some db' \<longleftrightarrow> (\<exists>s. createGroup uuid now name us db = Inr (db', s))"
  by (auto simp: createGroup_db_def split: sum.splits)

lemma createGroup_members:
  assumes "conv_inv db" and "createGroup k now name us db = Inr (db', cs)"
  shows "members_of db' c = (if c = group_conversation_id k then set us else members_of db c)"
proof -
  note c = createGroup_Inr [OF assms(2)]
  moreover from c have "members_of db (group_conversation_id k) = {}"
    using assms(1) by (simp add: conv_inv_def no_members)
  ultimately show ?thesis by (auto simp: members_of_def)
qed

interpretation convs: membership_store members_of "\<lambda>db c. c \<in> conv_ids db" directConversationId
  group_conversation_id "\<lambda>now a b db. fst (ensureDirect now a b db)" createGroup_db conv_inv
proof
  fix s u c
  assume "conv_inv s" "u \<in> members_of s c"
  then show "c \<in> conv_ids s" using no_members by (fastforce simp: conv_inv_def)
next
  fix s k now name us s' c
  assume "conv_inv s" and "createGroup_db k now name us s = Some s'"
  then show "members_of s' c = (if c = group_conversation_id k then set us else members_of s c)"
    by (auto simp: createGroup_db_Some createGroup_members)
next
  fix k now name us and s s' :: Db
  assume "createGroup_db k now name us s = Some s'"
  then show "group_conversation_id k \<notin> conv_ids s"
    using createGroup_Inr by (auto simp: createGroup_db_Some)
next
  fix k now name us and s s' :: Db and c
  assume "createGroup_db k now name us s = Some s'"
  then show "(c \<in> conv_ids s') = (c \<in> conv_ids s \<or> c = group_conversation_id k)"
    using createGroup_Inr by (auto simp: createGroup_db_Some)
next
  fix k now name us and s s' :: Db
  assume "conv_inv s" "createGroup_db k now name us s = Some s'"
  then show "conv_inv s'" by (auto simp: createGroup_db_Some createGroup_inv)
qed (auto simp: directConversationId_sym direct_not_group ensureDirect_inv ensureDirect_members
       ensureDirect_ids)

subsection \<open>Properties\<close>

text \<open>The changes the gateway makes to conversations, one at a time.\<close>

inductive conversation_change :: "Db \<Rightarrow> Db \<Rightarrow> bool" where
  change_direct: "conversation_change db (fst (ensureDirect now a b db))"
| change_group: "createGroup uuid now name us db = Inr (db', cs) \<Longrightarrow> conversation_change db db'"

lemma change_op: "conversation_change db db' \<Longrightarrow> convs.op db db'"
proof (induction rule: conversation_change.induct)
  case (change_group uuid now name us db db' cs)
  then have "createGroup_db uuid now name us db = Some db'" by (auto simp: createGroup_db_Some)
  then show ?case by (rule convs.op.op_group)
qed (rule convs.op.op_direct)

lemma changes_ops: "conversation_change\<^sup>*\<^sup>* db db' \<Longrightarrow> convs.op\<^sup>*\<^sup>* db db'"
  by (induction rule: rtranclp_induct) (auto intro: rtranclp.rtrancl_into_rtrancl change_op)

lemma join_inject:
  fixes c :: code_unit
  assumes "c \<notin> set a" and "c \<notin> set a'" and eq: "a @ c # b = a' @ c # b'"
  shows "a = a' \<and> b = b'"
proof -
  have "Some (a, b) = cut c (a @ c # b)" by (rule cut_append [OF assms(1), symmetric])
  also have "\<dots> = Some (a', b')" unfolding eq by (rule cut_append [OF assms(2)])
  finally show ?thesis by simp
qed

lemma direct_id_pair:
  assumes "unit (CHR '':'') \<notin> set a \<union> set b \<union> set a' \<union> set b'"
    and "directConversationId a b = directConversationId a' b'"
  shows "{a, b} = {a', b'}"
proof -
  let ?c = "unit (CHR '':'')"
  have id: "directConversationId x y = js ''direct:'' @ min x y @ ?c # max x y" for x y
    by (simp add: directConversationId_eq js_single min_def max_def)
  have pair: "{x, y} = {min x y, max x y}" for x y :: jsstr
    by (auto simp: min_def max_def)
  have "?c \<notin> set (min a b)" "?c \<notin> set (min a' b')" using assms(1) by (simp_all add: min_def)
  from join_inject [OF this] assms(2) have "min a b = min a' b' \<and> max a b = max a' b'" by (simp add: id)
  then show ?thesis by (subst (1 2) pair) simp
qed

text \<open>Ids without a colon: those of accounts (\<open>randomUUID()\<close>) and the backend's nicknames.\<close>

definition plain :: "jsstr \<Rightarrow> bool" where
  "plain i \<longleftrightarrow> unit (CHR '':'') \<notin> set i"

definition plain_db :: "Db \<Rightarrow> bool" where
  "plain_db db \<longleftrightarrow> (\<forall>i \<in> user_ids db. plain i) \<and> (\<forall>c. \<forall>u \<in> members_of db c. plain u)"

lemma direct_members:
  assumes "conv_inv db" and "plain_db db" and "plain a" and "plain b" and "directConversationId a b \<in> conv_ids db"
  shows "members_of db (directConversationId a b) = {a, b}"
proof -
  obtain c where c: "c \<in> set (t_conversations db)" "c_id c = directConversationId a b"
    using assms(5) by (auto simp: conv_ids_def)
  have "kinds_ok db" using assms(1) by (simp add: conv_inv_def)
  from bspec [OF this [unfolded kinds_ok_def] c(1)] obtain a' b'
    where i: "directConversationId a b = directConversationId a' b'" and m: "members_of db (directConversationId a b) = {a', b'}"
    by (cases "c_kind c") (auto simp: c(2) direct_not_group direct_not_public)
  have "plain u" if "u \<in> {a', b'}" for u
    using assms(2) that unfolding plain_db_def m [symmetric] by blast
  then have "unit (CHR '':'') \<notin> set a \<union> set b \<union> set a' \<union> set b'"
    using assms(3,4) by (simp add: plain_def)
  from direct_id_pair [OF this i] m show ?thesis by simp
qed

text \<open>The id of a direct conversation identifies the pair.  It does not depend on who asks,
  it is never the id of a group or of the public conversation, and two pairs of ids without a
  colon have the same conversation only if they are the same pair.\<close>

theorem direct_id_identifies_pair:
  assumes "unit (CHR '':'') \<notin> set a \<union> set b \<union> set a' \<union> set b'"
  shows "(directConversationId a b = directConversationId a' b' \<longleftrightarrow> {a, b} = {a', b'})
    \<and> directConversationId a b = directConversationId b a
    \<and> directConversationId a b \<noteq> group_conversation_id k \<and> directConversationId a b \<noteq> PUBLIC_CONVERSATION_ID"
proof -
  have "directConversationId a b = directConversationId a' b'" if "{a, b} = {a', b'}"
    using that directConversationId_sym [of a b] unfolding doubleton_eq_iff by (elim disjE conjE) simp_all
  with direct_id_pair [OF assms] have "directConversationId a b = directConversationId a' b' \<longleftrightarrow> {a, b} = {a', b'}"
    by blast
  then show ?thesis
    using directConversationId_sym [of a b] direct_not_group direct_not_public by (intro conjI)
qed

theorem direct_id_identifies_pair_witness:
  "directConversationId (js ''u2'') (js ''u1'') \<noteq> directConversationId (js ''u1'') (js ''u3'')"
  by (simp add: doubleton_eq_iff
      conjunct1 [OF direct_id_identifies_pair [of "js ''u2''" "js ''u1''" "js ''u1''" "js ''u3''"]])

text \<open>Opening a direct conversation is idempotent and gives it exactly its two members,
  whichever of the two opens it; the constraints of the schema survive and no other
  conversation gains a member.\<close>

theorem ensure_direct_spec:
  assumes "conv_inv db" and "ensureDirect now a b db = (db', s)"
  shows "conv_inv db' \<and> hasDirect db' (cs_id s) \<and> cs_id s = directConversationId a b
    \<and> (\<not> hasDirect db (cs_id s) \<longrightarrow> members_of db' (cs_id s) = {a, b})
    \<and> fst (ensureDirect later b a db') = db'
    \<and> (\<forall>c. c \<noteq> cs_id s \<longrightarrow> members_of db' c = members_of db c)"
proof -
  have db': "db' = fst (ensureDirect now a b db)" and s: "cs_id s = directConversationId a b"
    using assms(2) by (auto simp: ensureDirect_def Let_def)
  have inv: "conv_inv db'" using assms(1) by (simp add: db' ensureDirect_inv)
  then have has: "hasDirect db' (directConversationId a b)"
    by (simp add: db' conv_inv_def hasDirect_iff ensureDirect_ids)
  then have "fst (ensureDirect later b a db') = db'"
    by (simp add: ensureDirect_def Let_def directConversationId_sym)
  moreover have "\<not> hasDirect db (directConversationId a b) \<Longrightarrow> members_of db (directConversationId a b) = {}"
    using assms(1) by (simp add: conv_inv_def hasDirect_iff no_members)
  ultimately show ?thesis using inv has by (auto simp: s db' ensureDirect_members)
qed

theorem ensure_direct_spec_witness:
  "\<exists>db' s. ensureDirect (js ''t'') (js ''u2'') (js ''u1'') (openDatabase (js ''t'') None) = (db', s)
     \<and> members_of db' (directConversationId (js ''u1'') (js ''u2'')) = {js ''u1'', js ''u2''}"
proof -
  have inv: "conv_inv (openDatabase (js ''t'') None)"
    using openDatabase_new_inv
    by (simp add: conv_inv_def kinds_ok_def openDatabase_def insert_or_ignore_conversation_def empty_tables_def)
  have "\<not> hasDirect (openDatabase (js ''t'') None) c" for c
    by (simp add: hasDirect_def openDatabase_def insert_or_ignore_conversation_def empty_tables_def)
  moreover obtain db' s where e: "ensureDirect (js ''t'') (js ''u2'') (js ''u1'') (openDatabase (js ''t'') None) = (db', s)"
    by fastforce
  ultimately show ?thesis using ensure_direct_spec [OF inv e] by (metis directConversationId_sym insert_commute)
qed

text \<open>Nobody enters or leaves a group after its creation.  Whatever conversations are opened
  and groups created afterwards, \<open>getGroup\<close> finds the group with its name, and its members
  are exactly those it was created with.\<close>

theorem group_membership_frozen:
  assumes "conv_inv db" and "createGroup uuid now name us db = Inr (db', s)"
    and "conversation_change\<^sup>*\<^sup>* db' db''"
  shows "members_of db'' (cs_id s) = set us \<and> conv_inv db''
    \<and> (\<exists>g. getGroup db'' (cs_id s) = Some g \<and> set (g_memberIds g) = set us)"
proof -
  note c = createGroup_Inr [OF assms(2)]
  have g: "createGroup_db uuid now name us db = Some db'"
    using assms(2) by (auto simp: createGroup_db_Some)
  have m: "members_of db'' (group_conversation_id uuid) = set us"
    by (rule convs.group_members_forever [OF assms(1) g changes_ops [OF assms(3)]])
  have inv: "conv_inv db''" "group_conversation_id uuid \<in> conv_ids db''"
    using convs.ops_group_frozen [OF changes_ops [OF assms(3)], of uuid] createGroup_inv [OF assms(1,2)] c by auto
  then obtain r where r: "r \<in> set (t_conversations db'')" "c_id r = group_conversation_id uuid"
    by (auto simp: conv_ids_def)
  have "kinds_ok db''" using inv by (simp add: conv_inv_def)
  from bspec [OF this [unfolded kinds_ok_def] r(1)] have "c_kind r = KGroup"
    using r(2) direct_not_group group_not_public by (cases "c_kind r") (auto, metis)
  with r obtain q where "find (\<lambda>c. c_id c = group_conversation_id uuid \<and> c_kind c = KGroup) (t_conversations db'') = Some q"
    using find_None_all [of "\<lambda>c. c_id c = group_conversation_id uuid \<and> c_kind c = KGroup" "t_conversations db''"]
    by (cases "find (\<lambda>c. c_id c = group_conversation_id uuid \<and> c_kind c = KGroup) (t_conversations db'')") auto
  with m inv show ?thesis
    using c by (simp add: getGroup_def set_member_rows)
qed

theorem group_membership_frozen_witness:
  "\<exists>db' s db''. createGroup (js ''g'') (js ''t'') (js ''team'') [js ''u1'', js ''u2''] (openDatabase (js ''t'') None) = Inr (db', s)
     \<and> conversation_change\<^sup>*\<^sup>* db' db'' \<and> members_of db'' (cs_id s) = {js ''u1'', js ''u2''}"
proof -
  let ?db = "openDatabase (js ''t'') None"
  have inv: "conv_inv ?db"
    using openDatabase_new_inv
    by (simp add: conv_inv_def kinds_ok_def openDatabase_def insert_or_ignore_conversation_def empty_tables_def)
  have "group_conversation_id (js ''g'') \<notin> conv_ids ?db"
    using group_not_public by (simp add: openDatabase_def empty_tables_def conv_ids_def insert_or_ignore_conversation_def)
  then obtain db' s where g: "createGroup (js ''g'') (js ''t'') (js ''team'') [js ''u1'', js ''u2''] ?db = Inr (db', s)"
    by (auto simp: createGroup_def insert_conversation_def Let_def conv_ids_def group_conversation_id_def)
  have "conversation_change\<^sup>*\<^sup>* db' (fst (ensureDirect (js ''t'') (js ''u1'') (js ''u3'') db'))"
    by (blast intro: change_direct)
  from group_membership_frozen [OF inv g this] g this show ?thesis by auto
qed

lemma conversationsFor_elem:
  "s \<in> set (conversationsFor db u) \<longleftrightarrow>
     (\<exists>c \<in> set (t_conversations db). c_kind c \<noteq> KPublic \<and> u \<in> members_of db (c_id c)
       \<and> s = \<lparr>cs_id = c_id c, cs_kind = c_kind c,
              cs_title = (if c_kind c = KDirect then direct_title db u (member_rows db (c_id c)) (c_title c) else c_title c),
              cs_memberIds = member_rows db (c_id c)\<rparr>)"
proof -
  have k: "(c_kind c = KDirect \<or> c_kind c = KGroup) = (c_kind c \<noteq> KPublic)" for c
    by (cases "c_kind c") auto
  have r: "set (map (\<lambda>_. c) (filter (\<lambda>(cid, uid). cid = c_id c \<and> uid = u) (t_members db)))
      = (if u \<in> members_of db (c_id c) then {c} else {})" for c
    by (auto simp: members_of_def)
  show ?thesis
    unfolding conversationsFor_def Let_def set_map set_concat set_filter image_image r [unfolded set_map set_filter]
    by (auto simp: k)
qed

lemma conversationsFor_ids:
  "cs_id ` set (conversationsFor db u) =
     c_id ` {c \<in> set (t_conversations db). c_kind c \<noteq> KPublic \<and> u \<in> members_of db (c_id c)}"
proof (intro equalityI subsetI)
  fix i assume "i \<in> cs_id ` set (conversationsFor db u)"
  then show "i \<in> c_id ` {c \<in> set (t_conversations db). c_kind c \<noteq> KPublic \<and> u \<in> members_of db (c_id c)}"
    by (elim imageE) (auto simp only: conversationsFor_elem ConversationSummary.select_convs)
next
  fix i assume "i \<in> c_id ` {c \<in> set (t_conversations db). c_kind c \<noteq> KPublic \<and> u \<in> members_of db (c_id c)}"
  then obtain c where c: "c \<in> set (t_conversations db)" "c_kind c \<noteq> KPublic" "u \<in> members_of db (c_id c)" "i = c_id c"
    by blast
  show "i \<in> cs_id ` set (conversationsFor db u)"
    by (rule image_eqI [rotated], subst conversationsFor_elem, rule bexI [OF _ c(1)], rule conjI [OF c(2) conjI [OF c(3) refl]])
       (simp add: c(4))
qed

lemma find_other:
  assumes "set xs = {u, v}" and "v \<noteq> u"
  shows "find (\<lambda>i. i \<noteq> u) xs = Some v"
proof (cases "find (\<lambda>i. i \<noteq> u) xs")
  case None
  then show ?thesis using assms by (auto simp: find_None_all)
next
  case (Some w)
  then show ?thesis using assms by (auto dest!: find_Some_set)
qed

text \<open>A user's conversation list is complete and private.  It holds exactly the direct and
  group conversations of which the user is a member, each with its members, and a direct
  conversation carries the other member's current user name as its title, online or not.\<close>

theorem conversations_for_spec:
  assumes "conv_inv db"
  shows "cs_id ` set (conversationsFor db u) =
      c_id ` {c \<in> set (t_conversations db). c_kind c \<noteq> KPublic \<and> u \<in> members_of db (c_id c)}
    \<and> (\<forall>s \<in> set (conversationsFor db u). set (cs_memberIds s) = members_of db (cs_id s)
        \<and> (cs_kind s = KDirect \<longrightarrow> (\<forall>v r. members_of db (cs_id s) = {u, v} \<and> v \<noteq> u \<and> v \<noteq> []
              \<and> findById db v = Some r \<and> ur_username r \<noteq> [] \<longrightarrow> cs_title s = ur_username r)))"
proof (intro conjI ballI impI allI)
  show "cs_id ` set (conversationsFor db u) =
      c_id ` {c \<in> set (t_conversations db). c_kind c \<noteq> KPublic \<and> u \<in> members_of db (c_id c)}"
    by (rule conversationsFor_ids)
next
  fix s assume s: "s \<in> set (conversationsFor db u)"
  then show "set (cs_memberIds s) = members_of db (cs_id s)"
    by (auto simp: conversationsFor_elem set_member_rows)
  fix v r
  assume k: "cs_kind s = KDirect"
    and v: "members_of db (cs_id s) = {u, v} \<and> v \<noteq> u \<and> v \<noteq> [] \<and> findById db v = Some r \<and> ur_username r \<noteq> []"
  from s obtain c :: ConversationRow where "s = \<lparr>cs_id = c_id c, cs_kind = c_kind c,
      cs_title = (if c_kind c = KDirect then direct_title db u (member_rows db (c_id c)) (c_title c) else c_title c),
      cs_memberIds = member_rows db (c_id c)\<rparr>"
    unfolding conversationsFor_elem by blast
  with k have c: "cs_id s = c_id c" "cs_title s = direct_title db u (member_rows db (c_id c)) (c_title c)"
    by simp_all
  have "find (\<lambda>i. i \<noteq> u) (member_rows db (c_id c)) = Some v"
    using v c by (intro find_other) (simp_all add: set_member_rows)
  with v c show "cs_title s = ur_username r" by (simp add: direct_title_def)
qed

theorem conversations_for_spec_witness:
  "cs_id ` set (conversationsFor (openDatabase (js ''t'') None) (js ''u1'')) = {}"
proof -
  have "conv_inv (openDatabase (js ''t'') None)"
    using openDatabase_new_inv
    by (simp add: conv_inv_def kinds_ok_def openDatabase_def insert_or_ignore_conversation_def empty_tables_def)
  from conjunct1 [OF conversations_for_spec [OF this, of "js ''u1''"]] show ?thesis
    by (simp add: openDatabase_def insert_or_ignore_conversation_def empty_tables_def)
qed

end
