(* ===== verification/MessageStore.thy ===== *)
theory MessageStore
  imports Conversations "HOL-Library.Multiset"
begin

section \<open>Message history (gateway/src/messageStore.ts)\<close>

text \<open>
  Appending a message and reading a user's history.  \<open>ORDER BY created_at ASC\<close> compares the ISO
  time stamps as texts, which is the order of time, and leaves the order of messages with the
  same time stamp open: SQLite returns them in the order in which its query plan visits the rows.
  That order is the parameter \<open>ties\<close> of the query, a rank for each row.
\<close>

definition toSummary :: "MessageRow \<Rightarrow> MessageSummary" where
  "toSummary row =
     \<lparr>ms_id = m_id row, ms_conversationId = m_conversation_id row, ms_kind = m_kind row,
      ms_senderId = m_sender_id row, ms_senderUsername = m_sender_username row,
      ms_text = m_text row, ms_timestamp = m_created_at row\<rparr>"

text \<open>The argument of \<open>append\<close>: a message whose id and time stamp are optional; \<open>uuid\<close>
  and \<open>now\<close> are what \<open>randomUUID()\<close> and the clock give.\<close>

record MessageDraft =
  d_id :: "jsstr option"
  d_conversationId :: jsstr
  d_kind :: MessageKind
  d_senderId :: "jsstr option"
  d_senderUsername :: "jsstr option"
  d_text :: jsstr
  d_timestamp :: "jsstr option"

definition message_row :: "jsstr \<Rightarrow> jsstr \<Rightarrow> MessageDraft \<Rightarrow> MessageRow" where
  "message_row uuid now d =
     \<lparr>m_id = (case d_id d of None \<Rightarrow> uuid | Some i \<Rightarrow> i), m_conversation_id = d_conversationId d,
      m_kind = d_kind d, m_sender_id = d_senderId d, m_sender_username = d_senderUsername d,
      m_text = d_text d, m_created_at = (case d_timestamp d of None \<Rightarrow> now | Some t \<Rightarrow> t)\<rparr>"

definition append :: "jsstr \<Rightarrow> jsstr \<Rightarrow> MessageDraft \<Rightarrow> Db \<Rightarrow> jsstr + (Db \<times> MessageSummary)" where
  "append uuid now d db =
     (let row = message_row uuid now d in
      case insert_message row db of Inl e \<Rightarrow> Inl e | Inr db' \<Rightarrow> Inr (db', toSummary row))"

definition visible_to :: "Db \<Rightarrow> jsstr \<Rightarrow> MessageRow \<Rightarrow> bool" where
  "visible_to db userId m \<longleftrightarrow> m_conversation_id m = js ''public''
     \<or> (m_conversation_id m, userId) \<in> set (t_members db)"

type_synonym tie_order = "Db \<Rightarrow> jsstr \<Rightarrow> MessageRow \<Rightarrow> nat"

definition historyForUser :: "tie_order \<Rightarrow> Db \<Rightarrow> jsstr \<Rightarrow> MessageSummary list" where
  "historyForUser ties db userId =
     map toSummary (sort_key m_created_at (sort_key (ties db userId) (filter (visible_to db userId) (t_messages db))))"

lemma append_Inr:
  "append uuid now d db = Inr (db', s) \<Longrightarrow>
     insert_message (message_row uuid now d) db = Inr db' \<and> s = toSummary (message_row uuid now d)
     \<and> db' = db\<lparr>t_messages := t_messages db @ [message_row uuid now d]\<rparr>"
  by (auto simp: append_def insert_message_def Let_def split: sum.splits if_splits)

lemma append_inv:
  assumes "db_inv db" and "d_conversationId d \<in> conv_ids db" and "append uuid now d db = Inr (db', s)"
  shows "db_inv db'"
proof (rule insert_message_inv [OF assms(1)])
  show "m_conversation_id (message_row uuid now d) \<in> conv_ids db"
    using assms(2) by (simp add: message_row_def)
  show "insert_message (message_row uuid now d) db = Inr db'"
    using append_Inr [OF assms(3)] by (rule conjunct1)
qed

lemma append_conv_inv:
  assumes "conv_inv db" and "d_conversationId d \<in> conv_ids db" and "append uuid now d db = Inr (db', s)"
  shows "conv_inv db'"
proof -
  have "db_inv db'" using assms by (auto simp: conv_inv_def intro: append_inv)
  moreover have m: "members_of db' = members_of db" and t: "t_conversations db' = t_conversations db"
    using append_Inr [OF assms(3)] by (auto simp: members_of_def fun_eq_iff)
  have "kinds_ok db'" unfolding kinds_ok_def m t
    by (rule conjunct2 [OF assms(1) [unfolded conv_inv_def kinds_ok_def]])
  ultimately show ?thesis by (simp add: conv_inv_def)
qed

lemma append_frame:
  assumes "append uuid now d db = Inr (db', s)"
  shows "t_users db' = t_users db" "t_members db' = t_members db" "t_conversations db' = t_conversations db"
    "conv_ids db' = conv_ids db"
  using append_Inr [OF assms] by (auto simp: conv_ids_def)

lemma history_set: "set (historyForUser ties db u) = toSummary ` {m \<in> set (t_messages db). visible_to db u m}"
  by (simp add: historyForUser_def)

lemma history_mset: "mset (historyForUser ties db u) = image_mset toSummary (filter_mset (visible_to db u) (mset (t_messages db)))"
  by (simp add: historyForUser_def)

lemma history_sorted: "sorted (map ms_timestamp (historyForUser ties db u))"
proof -
  have "map ms_timestamp (map toSummary rows) = map m_created_at rows" for rows by (simp add: toSummary_def)
  then show ?thesis by (simp add: historyForUser_def sorted_sort_key del: map_map)
qed

lemma history_append:
  assumes "append uuid now d db = Inr (db', s)"
  shows "set (historyForUser ties db' u) = (if visible_to db u (message_row uuid now d) then {s} else {}) \<union> set (historyForUser ties db u)"
  using append_Inr [OF assms] by (auto simp: history_set visible_to_def)

lemma visible_members: "visible_to db u m \<longleftrightarrow> m_conversation_id m = PUBLIC_CONVERSATION_ID \<or> u \<in> members_of db (m_conversation_id m)"
  by (simp add: visible_to_def PUBLIC_CONVERSATION_ID_def members_of_def)

text \<open>Any order of the rows is the order of some ranks.\<close>

definition place :: "'a list \<Rightarrow> 'a \<Rightarrow> nat" where
  "place xs x = length (takeWhile (\<lambda>y. y \<noteq> x) xs)"

lemma place_Cons: "place (y # xs) x = (if y = x then 0 else Suc (place xs x))"
  by (simp add: place_def)

lemma sorted_place: "distinct xs \<Longrightarrow> sorted (map (place xs) xs)"
proof (induction xs)
  case (Cons y xs)
  then have "map (place (y # xs)) (y # xs) = 0 # map Suc (map (place xs) xs)" by (auto simp: place_Cons)
  moreover have "sorted (map Suc ns)" if "sorted ns" for ns using that by (induction ns) auto
  moreover have "sorted (map (place xs) xs)" using Cons by simp
  ultimately show ?case by (simp only: sorted_simps) simp
qed simp

lemma inj_place: "inj_on (place xs) (set xs)"
  by (induction xs) (auto simp: place_Cons inj_on_def)

lemma sort_place:
  assumes "mset ys = mset xs" and "distinct xs"
  shows "sort_key (place xs) ys = xs"
proof (rule inj_on_map_eq_map [THEN iffD1])
  have "sort (map (place xs) ys) = map (place xs) xs"
    by (rule properties_for_sort) (simp_all add: assms sorted_place)
  moreover have "sort (map (place xs) ys) = map (place xs) (sort_key (place xs) ys)"
    by (rule properties_for_sort) (simp_all add: sorted_sort_key)
  ultimately show "map (place xs) (sort_key (place xs) ys) = map (place xs) xs" by simp
  show "inj_on (place xs) (set (sort_key (place xs) ys) \<union> set xs)"
    using inj_place [of xs] mset_eq_setD [OF assms(1)] by simp
qed

lemma inj_toSummary: "inj toSummary"
  by (auto intro!: injI simp: toSummary_def)

text \<open>C38: The history a user is shown is complete, private and in order of time: it holds the
  messages of the public conversation and of the conversations the user belongs to, no
  others, each as often as it is stored, oldest first.  Nothing more is promised: any such list
  of the stored messages is an answer that the query may give.\<close>

theorem history_spec:
  assumes "distinct (map m_id (t_messages db))"
  shows "(\<exists>ties. historyForUser ties db u = ms) \<longleftrightarrow>
    mset ms = image_mset toSummary (filter_mset
      (\<lambda>m. m_conversation_id m = PUBLIC_CONVERSATION_ID \<or> u \<in> members_of db (m_conversation_id m)) (mset (t_messages db)))
    \<and> sorted (map ms_timestamp ms)"
proof -
  have v: "visible_to db u = (\<lambda>m. m_conversation_id m = PUBLIC_CONVERSATION_ID \<or> u \<in> members_of db (m_conversation_id m))"
    by (simp add: visible_members fun_eq_iff)
  let ?rows = "filter (visible_to db u) (t_messages db)"
  have "\<exists>ties. historyForUser ties db u = ms" if m: "mset ms = image_mset toSummary (mset ?rows)" and s: "sorted (map ms_timestamp ms)"
  proof -
    define rs where "rs = map (inv toSummary) ms"
    have "set ms = toSummary ` set ?rows" using arg_cong [OF m, of set_mset] by simp
    then have "map toSummary rs = ms" by (auto simp: rs_def inj_toSummary intro!: map_idI)
    moreover have "mset rs = mset ?rows" by (simp add: rs_def m multiset.map_comp comp_def inj_toSummary)
    ultimately have rs: "mset rs = mset ?rows" "map toSummary rs = ms" by blast+
    have "distinct ?rows" using assms by (simp add: distinct_map)
    then have "distinct rs" using rs(1) by (metis mset_eq_imp_distinct_iff)
    then have "sort_key (place rs) ?rows = rs" by (intro sort_place) (simp_all add: rs(1))
    moreover have "map m_created_at rs = map ms_timestamp ms" by (simp add: rs(2) [symmetric] toSummary_def)
    then have "sort_key m_created_at rs = rs" using s by (intro sort_key_id_if_sorted) simp
    ultimately have "historyForUser (\<lambda>_ _. place rs) db u = ms" by (simp add: historyForUser_def rs(2))
    then show ?thesis by blast
  qed
  then show ?thesis using history_mset history_sorted by (auto simp flip: v)
qed

text \<open>Two public messages of the same time may come in either order.\<close>

theorem history_spec_witness:
  defines "row \<equiv> (\<lambda>i. \<lparr>m_id = i, m_conversation_id = PUBLIC_CONVERSATION_ID, m_kind = Chat, m_sender_id = None, m_sender_username = None,
      m_text = js ''hi'', m_created_at = js ''t''\<rparr>)"
  shows "\<exists>ties. historyForUser ties ((openDatabase (js ''t'') None)\<lparr>t_messages := [row (js ''a''), row (js ''b'')]\<rparr>) (js ''amy'')
    = [toSummary (row (js ''b'')), toSummary (row (js ''a''))]"
  using history_spec [of "(openDatabase (js ''t'') None)\<lparr>t_messages := [row (js ''a''), row (js ''b'')]\<rparr>" "js ''amy''"
      "[toSummary (row (js ''b'')), toSummary (row (js ''a''))]"]
  by (simp add: row_def toSummary_def)

end
