(* ===== verification/Gateway.thy ===== *)
theory Gateway
  imports Sessions BackendConnection MessageStore
begin

section \<open>The gateway server (gateway/src/gatewayServer.ts)\<close>

text \<open>
  The whole server as one state: the heap of sessions, the heap of backend connections, the
  roster, the tables, the authentications suspended at an \<open>await\<close>, and the effects so far.
  Every handler is a function on that state.  A handler that awaits is cut at the await: the
  code before it runs in the step that calls it, the code after it in a step of its own, so
  other steps can come between.  Awaits that are the last thing a handler does
  (\<open>await sendLine(..)\<close>) need no cut.

  \<open>w_crashed\<close> records an exception that nothing catches: an exception thrown in an event
  listener or a rejected promise that nobody handles ends the node process, after the handler
  that is running.
\<close>

subsection \<open>State\<close>

text \<open>What the environment supplies: the n-th random id, time stamp and salt, the key
  derivation function, \<open>JSON.parse\<close> (\<open>None\<close>: it throws), the configuration, and the order in which SQLite
  returns messages of the same time.\<close>

record Env =
  e_uuid :: "nat \<Rightarrow> jsstr"
  e_clock :: "nat \<Rightarrow> jsstr"
  e_salt :: "nat \<Rightarrow> bytes"
  e_kdf :: kdf
  e_json_parse :: "jsstr \<Rightarrow> json option"
  e_maxClientMessageBytes :: nat
  e_backendMaxMessageBytes :: nat
  e_ties :: tie_order

text \<open>\<open>randomUUID()\<close> gives hexadecimal digits and dashes.\<close>

definition uuids_plain :: "Env \<Rightarrow> bool" where
  "uuids_plain env \<longleftrightarrow> (\<forall>n. plain (e_uuid env n))"

text \<open>An authentication in flight: the session and what the code after the await uses.\<close>

datatype AuthJob =
    HashJob (job_session: nat) jsstr jsstr
  | VerifyJob (job_session: nat) UserRow jsstr

datatype Effect =
    Sent nat ServerMessage
  | WsClose nat nat
  | Dial nat
  | Wrote nat bytes
  | Destroyed_socket nat

record World =
  w_sess :: sessions
  w_nsess :: nat
  w_conn :: "nat \<Rightarrow> BackendConnection"
  w_nconn :: nat
  w_roster :: roster
  w_db :: Db
  w_jobs :: "AuthJob list"
  w_tick :: nat
  w_out :: "Effect list"
  w_crashed :: bool

subsection \<open>State access\<close>

definition emit :: "Effect \<Rightarrow> World \<Rightarrow> World" where
  "emit e w = w\<lparr>w_out := w_out w @ [e]\<rparr>"

definition crash :: "World \<Rightarrow> World" where
  "crash w = w\<lparr>w_crashed := True\<rparr>"

definition upd_sess :: "nat \<Rightarrow> (Session \<Rightarrow> Session) \<Rightarrow> World \<Rightarrow> World" where
  "upd_sess r f w = w\<lparr>w_sess := (w_sess w)(r := f (w_sess w r))\<rparr>"

definition upd_conn :: "nat \<Rightarrow> (BackendConnection \<Rightarrow> BackendConnection) \<Rightarrow> World \<Rightarrow> World" where
  "upd_conn c f w = w\<lparr>w_conn := (w_conn w)(c := f (w_conn w c))\<rparr>"

definition next_tick :: "World \<Rightarrow> World" where
  "next_tick w = w\<lparr>w_tick := Suc (w_tick w)\<rparr>"

subsection \<open>Helpers of the server\<close>

definition sendTo :: "nat \<Rightarrow> ServerMessage \<Rightarrow> World \<Rightarrow> World" where
  "sendTo r message w = (if s_ws (w_sess w r) \<noteq> WsOpen then w else emit (Sent r message) w)"

definition error_msg :: "string \<Rightarrow> jsstr \<Rightarrow> ServerMessage" where
  "error_msg code text = SError (js code) text None"

definition broadcastToAll :: "ServerMessage \<Rightarrow> jsstr option \<Rightarrow> World \<Rightarrow> World" where
  "broadcastToAll message excludeSessionId w =
     fold (\<lambda>r w. if Some (s_id (w_sess w r)) = excludeSessionId then w
                 else if \<not> s_welcomed (w_sess w r) then w
                 else sendTo r message w) (roster_all (w_roster w)) w"

text \<open>\<open>session.ws.close(code, reason)\<close>: the closing handshake starts; the \<open>close\<close> event
  comes later.\<close>

definition ws_close :: "nat \<Rightarrow> nat \<Rightarrow> World \<Rightarrow> World" where
  "ws_close r code w =
     (if s_ws (w_sess w r) = WsOpen
      then emit (WsClose r code) (upd_sess r (\<lambda>s. s\<lparr>s_ws := WsClosing\<rparr>) w) else w)"

text \<open>\<open>session.backend?.close()\<close>.\<close>

definition backend_close :: "nat \<Rightarrow> World \<Rightarrow> World" where
  "backend_close r w =
     (case s_backend (w_sess w r) of
        None \<Rightarrow> w
      | Some c \<Rightarrow>
          (let (b, destroyed) = close (w_conn w c); w' = upd_conn c (\<lambda>_. b) w
           in if destroyed then emit (Destroyed_socket c) w' else w'))"

text \<open>\<open>session.backend!.sendLine(line)\<close>: a null backend (a TypeError) and a connection that is
  not open both reject the promise of the handler, which nobody handles.\<close>

definition backend_sendLine :: "nat \<Rightarrow> jsstr \<Rightarrow> World \<Rightarrow> World" where
  "backend_sendLine r line w =
     (case s_backend (w_sess w r) of
        None \<Rightarrow> crash w
      | Some c \<Rightarrow>
          (case sendLine line (w_conn w c) of
             None \<Rightarrow> crash w
           | Some (b, bytes) \<Rightarrow> emit (Wrote c bytes) (upd_conn c (\<lambda>_. b) w)))"

definition ensureDirect_w :: "Env \<Rightarrow> jsstr \<Rightarrow> jsstr \<Rightarrow> World \<Rightarrow> World \<times> ConversationSummary" where
  "ensureDirect_w env a b w =
     (let (db, conversation) = ensureDirect (e_clock env (w_tick w)) a b (w_db w)
      in (next_tick w\<lparr>w_db := db\<rparr>, conversation))"

text \<open>\<open>this.messages.append(..)\<close>; \<open>None\<close> is an exception from the database.\<close>

definition append_w :: "Env \<Rightarrow> MessageDraft \<Rightarrow> World \<Rightarrow> (World \<times> MessageSummary) option" where
  "append_w env draft w =
     (case append (e_uuid env (w_tick w)) (e_clock env (w_tick w)) draft (w_db w) of
        Inl _ \<Rightarrow> None
      | Inr (db, summary) \<Rightarrow> Some (next_tick w\<lparr>w_db := db\<rparr>, summary))"

definition sendReady :: "Env \<Rightarrow> nat \<Rightarrow> World \<Rightarrow> World" where
  "sendReady env r w =
     (let s = w_sess w r;
          users = welcomedUsers (w_sess w) (w_roster w);
          conversations = publicConversation (map us_id users) # conversationsFor (w_db w) (s_id s);
          messages = historyForUser (e_ties env) (w_db w) (s_id s)
      in sendTo r (SReady (s_id s) (s_nickname s) users conversations messages) w)"

subsection \<open>Messages of an authenticated client\<close>

definition chat_draft :: "jsstr \<Rightarrow> Session \<Rightarrow> jsstr \<Rightarrow> MessageDraft" where
  "chat_draft conversation s text =
     \<lparr>d_id = None, d_conversationId = conversation, d_kind = Chat, d_senderId = Some (s_id s),
      d_senderUsername = Some (s_nickname s), d_text = text, d_timestamp = None\<rparr>"

definition send_to_member :: "ServerMessage \<Rightarrow> jsstr \<Rightarrow> World \<Rightarrow> World" where
  "send_to_member message i w =
     (case roster_get (w_roster w) i of None \<Rightarrow> w | Some member \<Rightarrow> sendTo member message w)"

definition online_member :: "World \<Rightarrow> jsstr \<Rightarrow> bool" where
  "online_member w i = (case roster_get (w_roster w) i of None \<Rightarrow> False | Some q \<Rightarrow> s_welcomed (w_sess w q))"

definition handleCreateGroup :: "Env \<Rightarrow> nat \<Rightarrow> jsstr \<Rightarrow> jsstr list \<Rightarrow> World \<Rightarrow> World" where
  "handleCreateGroup env r name memberIds w =
     (let uniqueIds = uniq (s_id (w_sess w r) # memberIds);
          unknown = filter (\<lambda>i. \<not> online_member w i) uniqueIds
      in if length unknown > 0
         then sendTo r (error_msg ''UNKNOWN_MEMBER'' (js ''Unknown or offline user id(s): '' @ join (js '', '') unknown)) w
         else (case createGroup (e_uuid env (w_tick w)) (e_clock env (w_tick w)) name uniqueIds (w_db w) of
                 Inl _ \<Rightarrow> crash w
               | Inr (db, conversation) \<Rightarrow>
                   fold (send_to_member (SConversationCreated conversation)) uniqueIds
                     (next_tick w\<lparr>w_db := db\<rparr>)))"

definition sendPublic :: "Env \<Rightarrow> nat \<Rightarrow> jsstr \<Rightarrow> World \<Rightarrow> World" where
  "sendPublic env r text w =
     (case append_w env (chat_draft PUBLIC_CONVERSATION_ID (w_sess w r) text) w of
        None \<Rightarrow> crash w
      | Some (w, own) \<Rightarrow> backend_sendLine r (formatChatLine text) (sendTo r (SMessage own) w))"

definition sendDirect :: "Env \<Rightarrow> nat \<Rightarrow> jsstr \<Rightarrow> jsstr \<Rightarrow> World \<Rightarrow> World" where
  "sendDirect env r peer_id text w =
     (let refuse = sendTo r (SError (js ''USER_NOT_FOUND'') (js ''That user is not currently online.'')
                       (Some (directConversationId (s_id (w_sess w r)) peer_id))) w
      in case roster_get (w_roster w) peer_id of
        None \<Rightarrow> refuse
      | Some peer \<Rightarrow>
          if \<not> s_welcomed (w_sess w peer) then refuse
          else
            (let me = s_id (w_sess w r); you = s_id (w_sess w peer);
                 isNewConversation = (\<not> hasDirect (w_db w) (directConversationId me you));
                 (w1, conversation) = ensureDirect_w env me you w;
                 w2 = (if isNewConversation
                       then sendTo peer (SConversationCreated conversation) (sendTo r (SConversationCreated conversation) w1)
                       else w1)
             in case append_w env (chat_draft (cs_id conversation) (w_sess w2 r) text) w2 of
                  None \<Rightarrow> crash w2
                | Some (w3, _) \<Rightarrow> backend_sendLine r (formatMsgCommand (s_nickname (w_sess w3 peer)) text) w3))"

definition sendGroup :: "Env \<Rightarrow> nat \<Rightarrow> jsstr \<Rightarrow> jsstr \<Rightarrow> World \<Rightarrow> World" where
  "sendGroup env r group_id text w =
     (let refuse = sendTo r (SError (js ''NOT_A_MEMBER'') (js ''You are not a member of that group.'') (Some group_id)) w
      in case getGroup (w_db w) group_id of
        None \<Rightarrow> refuse
      | Some g \<Rightarrow>
          if s_id (w_sess w r) \<notin> set (g_memberIds g) then refuse
          else (case append_w env (chat_draft (g_id g) (w_sess w r) text) w of
                  None \<Rightarrow> crash w
                | Some (w', summary) \<Rightarrow> fold (send_to_member (SMessage summary)) (g_memberIds g) w'))"

fun handleSendMessage :: "Env \<Rightarrow> nat \<Rightarrow> MessageTarget \<Rightarrow> jsstr \<Rightarrow> World \<Rightarrow> World" where
  "handleSendMessage env r TPublic text w = sendPublic env r text w"
| "handleSendMessage env r (TDirect peer) text w = sendDirect env r peer text w"
| "handleSendMessage env r (TGroup gid) text w = sendGroup env r gid text w"

fun handleClientMessage :: "Env \<Rightarrow> nat \<Rightarrow> ClientMessage \<Rightarrow> World \<Rightarrow> World" where
  "handleClientMessage env r (SetNickname nick) w = backend_sendLine r (formatNickCommand nick) w"
| "handleClientMessage env r (SetPresence p) w =
     (let w' = upd_sess r (\<lambda>s. s\<lparr>s_presence := p\<rparr>) w
      in broadcastToAll (SUserUpdate (summarize (w_sess w' r))) None w')"
| "handleClientMessage env r RequestState w = sendReady env r w"
| "handleClientMessage env r (CreateGroup name ids) w = handleCreateGroup env r name ids w"
| "handleClientMessage env r (SendMessage target text) w = handleSendMessage env r target text w"
| "handleClientMessage env r (Register _ _) w = w"
| "handleClientMessage env r (Login _ _) w = w"
| "handleClientMessage env r Logout w = w"

definition announceReady :: "Env \<Rightarrow> nat \<Rightarrow> World \<Rightarrow> World" where
  "announceReady env r w =
     (let w1 = sendReady env r (upd_sess r (\<lambda>s. s\<lparr>s_readyAnnounced := True\<rparr>) w);
          w2 = broadcastToAll (SUserUpdate (summarize (w_sess w1 r))) (Some (s_id (w_sess w1 r))) w1;
          (queued, s) = drainQueue (w_sess w2 r)
      in fold (handleClientMessage env r) queued (upd_sess r (\<lambda>_. s) w2))"

subsection \<open>Events of the backend\<close>

definition live_message :: "Env \<Rightarrow> World \<Rightarrow> jsstr \<Rightarrow> jsstr option \<Rightarrow> jsstr \<Rightarrow> jsstr \<Rightarrow> MessageSummary" where
  "live_message env w conversation senderId senderUsername text =
     \<lparr>ms_id = e_uuid env (w_tick w), ms_conversationId = conversation, ms_kind = Chat, ms_senderId = senderId,
      ms_senderUsername = Some senderUsername, ms_text = text, ms_timestamp = e_clock env (w_tick w)\<rparr>"

text \<open>\<open>this.sessions.findByNickname(n)?.id\<close>.\<close>

definition id_by_nickname :: "World \<Rightarrow> jsstr \<Rightarrow> jsstr option" where
  "id_by_nickname w n = map_option (\<lambda>q. s_id (w_sess w q)) (findByNickname (w_sess w) (w_roster w) n)"

definition onWelcome :: "Env \<Rightarrow> nat \<Rightarrow> jsstr \<Rightarrow> World \<Rightarrow> World" where
  "onWelcome env r nick w =
     (let w1 = upd_sess r (\<lambda>s. s\<lparr>s_welcomed := True, s_nickname := nick\<rparr>) w
      in case s_desiredUsername (w_sess w1 r) of
           Some d \<Rightarrow> if d \<noteq> [] \<and> d \<noteq> nick then backend_sendLine r (formatNickCommand d) w1
                     else announceReady env r w1
         | None \<Rightarrow> announceReady env r w1)"

definition onNick :: "Env \<Rightarrow> nat \<Rightarrow> jsstr \<Rightarrow> jsstr \<Rightarrow> World \<Rightarrow> World" where
  "onNick env r oldNick newNick w =
     (if oldNick = s_nickname (w_sess w r) then
        (let w1 = upd_sess r (\<lambda>s. s\<lparr>s_nickname := newNick,
                    s_desiredUsername := (if s_desiredUsername s = Some newNick then None else s_desiredUsername s)\<rparr>) w
         in if \<not> s_readyAnnounced (w_sess w1 r) then announceReady env r w1
            else
              (let w2 = broadcastToAll (SUserUpdate (summarize (w_sess w1 r))) None w1
               in case rename (w_db w2) (s_id (w_sess w2 r)) newNick of
                    Inl _ \<Rightarrow> w2 | Inr db \<Rightarrow> w2\<lparr>w_db := db\<rparr>))
      else w)"

definition onPriv :: "Env \<Rightarrow> nat \<Rightarrow> jsstr \<Rightarrow> jsstr \<Rightarrow> World \<Rightarrow> World" where
  "onPriv env r sender text w =
     (let sender_id = id_by_nickname w sender;
          (w1, conversation) = ensureDirect_w env (s_id (w_sess w r))
             (case sender_id of None \<Rightarrow> sender | Some i \<Rightarrow> i) w
      in sendTo r (SMessage (live_message env w1 (cs_id conversation) sender_id sender text)) (next_tick w1))"

definition onPrivSent :: "Env \<Rightarrow> nat \<Rightarrow> jsstr \<Rightarrow> jsstr \<Rightarrow> World \<Rightarrow> World" where
  "onPrivSent env r recipient text w =
     (let recipient_id = id_by_nickname w recipient; me = w_sess w r;
          (w1, conversation) = ensureDirect_w env (s_id me)
             (case recipient_id of None \<Rightarrow> recipient | Some i \<Rightarrow> i) w
      in sendTo r (SMessage (live_message env w1 (cs_id conversation) (Some (s_id me)) (s_nickname me) text))
           (next_tick w1))"

definition onErr :: "nat \<Rightarrow> jsstr \<Rightarrow> jsstr \<Rightarrow> World \<Rightarrow> World" where
  "onErr r code text w =
     (if \<not> s_readyAnnounced (w_sess w r) \<and> code = js ''NICK_TAKEN''
      then ws_close r 1011 (sendTo r (error_msg ''LOGIN_FAILED''
             (js ''This account appears to be connected elsewhere already. Try again shortly.'')) w)
      else sendTo r (SError code text None) w)"

fun onBackendEvent :: "Env \<Rightarrow> nat \<Rightarrow> BackendEvent \<Rightarrow> World \<Rightarrow> World" where
  "onBackendEvent env r (EvWelcome nick) w = onWelcome env r nick w"
| "onBackendEvent env r (EvNick oldNick newNick) w = onNick env r oldNick newNick w"
| "onBackendEvent env r (EvMsg sender text) w =
     sendTo r (SMessage (live_message env w PUBLIC_CONVERSATION_ID (id_by_nickname w sender) sender text)) (next_tick w)"
| "onBackendEvent env r (EvPriv sender text) w = onPriv env r sender text w"
| "onBackendEvent env r (EvPrivSent recipient text) w = onPrivSent env r recipient text w"
| "onBackendEvent env r (EvErr code text) w = onErr r code text w"
| "onBackendEvent env r (EvSys text) w = w"
| "onBackendEvent env r (EvList n names) w = w"
| "onBackendEvent env r (EvUnknown raw) w = w"

subsection \<open>Authentication\<close>

definition auth_failed :: "nat \<Rightarrow> bool \<Rightarrow> jsstr \<Rightarrow> World \<Rightarrow> World" where
  "auth_failed r registering text w =
     sendTo r (error_msg (if registering then ''REGISTER_FAILED'' else ''LOGIN_FAILED'') text) w"

definition invalid_credentials :: jsstr where
  "invalid_credentials = js ''Invalid username or password.''"

text \<open>\<open>handleAuth\<close> up to the first await.\<close>

definition handleAuth_start :: "nat \<Rightarrow> bool \<Rightarrow> jsstr \<Rightarrow> jsstr \<Rightarrow> World \<Rightarrow> World" where
  "handleAuth_start r registering username password w =
     (if s_authenticated (w_sess w r)
      then sendTo r (error_msg ''ALREADY_AUTHENTICATED'' (js ''Already logged in.'')) w
      else if registering then
        (case register_check (w_db w) username password of
           Some e \<Rightarrow> auth_failed r True e w
         | None \<Rightarrow> w\<lparr>w_jobs := w_jobs w @ [HashJob r username password]\<rparr>)
      else
        (case row_by_username (w_db w) username of
           None \<Rightarrow> auth_failed r False invalid_credentials w
         | Some row \<Rightarrow> w\<lparr>w_jobs := w_jobs w @ [VerifyJob r row password]\<rparr>))"

text \<open>The rest of \<open>handleAuth\<close> up to \<open>await backend.connect()\<close>.\<close>

definition handleAuth_account :: "Env \<Rightarrow> nat \<Rightarrow> UserRecord \<Rightarrow> World \<Rightarrow> World" where
  "handleAuth_account env r account w =
     (if (case roster_get (w_roster w) (ur_id account) of
            None \<Rightarrow> False | Some existing \<Rightarrow> \<not> s_closed (w_sess w existing))
      then sendTo r (error_msg ''ALREADY_LOGGED_IN'' (js ''This account is already connected elsewhere.'')) w
      else
        (let c = w_nconn w;
             w1 = upd_sess r (\<lambda>s. s\<lparr>s_id := ur_id account, s_authenticated := True,
                                     s_desiredUsername := Some (ur_username account)\<rparr>) w;
             w2 = w1\<lparr>w_roster := roster_add (w_sess w1) r (w_roster w1)\<rparr>;
             w3 = upd_sess r (\<lambda>s. s\<lparr>s_backend := Some c\<rparr>)
                    (w2\<lparr>w_conn := (w_conn w2)(c := new_BackendConnection r (e_backendMaxMessageBytes env)),
                        w_nconn := Suc c\<rparr>)
         in emit (Dial c) (upd_conn c connect w3)))"

text \<open>What runs after the key derivation of a job.\<close>

fun handleAuth_resume :: "Env \<Rightarrow> AuthJob \<Rightarrow> World \<Rightarrow> World" where
  "handleAuth_resume env (HashJob r username password) w =
     (case register_insert (e_kdf env) (e_salt env (w_tick w)) (e_uuid env (w_tick w)) (e_clock env (w_tick w))
             (w_db w) username password of
        Inl e \<Rightarrow> auth_failed r True e w
      | Inr (db, account) \<Rightarrow> handleAuth_account env r account (next_tick w\<lparr>w_db := db\<rparr>))"
| "handleAuth_resume env (VerifyJob r row password) w =
     (case login_verify (e_kdf env) row password of
        None \<Rightarrow> auth_failed r False invalid_credentials w
      | Some account \<Rightarrow> handleAuth_account env r account w)"

text \<open>The catch block of \<open>await backend.connect()\<close>.\<close>

definition handleAuth_unavailable :: "nat \<Rightarrow> World \<Rightarrow> World" where
  "handleAuth_unavailable r w =
     (let w1 = ws_close r 1011 (sendTo r (error_msg ''BACKEND_UNAVAILABLE''
                 (js ''Could not reach the ThreadLink server.'')) w)
      in w1\<lparr>w_roster := roster_remove (s_id (w_sess w1 r)) (w_roster w1)\<rparr>)"

definition handleLogout :: "nat \<Rightarrow> World \<Rightarrow> World" where
  "handleLogout r w =
     (if \<not> s_authenticated (w_sess w r)
      then sendTo r (error_msg ''NOT_AUTHENTICATED'' (js ''Not logged in.'')) w
      else ws_close r 1000 (sendTo r SLoggedOut w))"

subsection \<open>Connection lifecycle\<close>

text \<open>The end of \<open>onClientRaw\<close>: a message that passed the validation.\<close>

definition onClientMessage :: "Env \<Rightarrow> nat \<Rightarrow> ClientMessage \<Rightarrow> World \<Rightarrow> World" where
  "onClientMessage env r message w =
     (case message of
        Register u p \<Rightarrow> handleAuth_start r True u p w
      | Login u p \<Rightarrow> handleAuth_start r False u p w
      | Logout \<Rightarrow> handleLogout r w
      | _ \<Rightarrow> if \<not> s_authenticated (w_sess w r) \<or> \<not> s_welcomed (w_sess w r)
             then upd_sess r (queueUntilReady message) w
             else handleClientMessage env r message w)"

definition onClientRaw :: "Env \<Rightarrow> nat \<Rightarrow> bytes \<Rightarrow> World \<Rightarrow> World" where
  "onClientRaw env r raw w =
     (if length raw > e_maxClientMessageBytes env
      then sendTo r (error_msg ''MESSAGE_TOO_LARGE''
             (js ''Message exceeds the '' @ show_nat (e_maxClientMessageBytes env) @ js ''-byte limit.'')) w
      else
        (case e_json_parse env (utf8_decode raw) of
           None \<Rightarrow> sendTo r (error_msg ''BAD_JSON'' (js ''Message was not valid JSON.'')) w
         | Some parsed \<Rightarrow>
             (case validateClientMessage parsed of
                Throws \<Rightarrow> crash w
              | Invalid e \<Rightarrow> sendTo r (error_msg ''BAD_MESSAGE'' e) w
              | Valid message \<Rightarrow> onClientMessage env r message w)))"

definition onConnection :: "Env \<Rightarrow> World \<Rightarrow> World" where
  "onConnection env w =
     (let r = w_nsess w
      in next_tick (w\<lparr>w_sess := (w_sess w)(r := new_Session (e_uuid env (w_tick w))), w_nsess := Suc r\<rparr>))"

definition onClientClosed :: "nat \<Rightarrow> World \<Rightarrow> World" where
  "onClientClosed r w =
     (if s_closed (w_sess w r) then w
      else
        (let w1 = upd_sess r (\<lambda>s. s\<lparr>s_closed := True\<rparr>) w
         in if \<not> s_authenticated (w_sess w1 r) then w1
            else
              (let w2 = backend_close r w1;
                   i = s_id (w_sess w2 r);
                   w3 = w2\<lparr>w_roster := roster_remove i (w_roster w2)\<rparr>
               in if s_welcomed (w_sess w3 r) then broadcastToAll (SUserOffline i) (Some i) w3 else w3)))"

definition onBackendClosed :: "nat \<Rightarrow> World \<Rightarrow> World" where
  "onBackendClosed r w =
     (if s_closed (w_sess w r) then w
      else ws_close r 1011 (sendTo r (error_msg ''BACKEND_DISCONNECTED''
             (js ''Lost connection to the ThreadLink server.'')) w))"

text \<open>The \<open>data\<close> and \<open>close\<close> events of a backend socket, with the listeners that
  \<open>handleAuth\<close> installed.\<close>

definition on_backend_data :: "Env \<Rightarrow> nat \<Rightarrow> bytes \<Rightarrow> World \<Rightarrow> World" where
  "on_backend_data env c chunk w =
     (let (b, events, too_large) = on_data chunk (w_conn w c);
          w1 = fold (onBackendEvent env (bc_session b)) events (upd_conn c (\<lambda>_. b) w)
      in if too_large then
           (let (b', destroyed) = close (w_conn w1 c); w2 = upd_conn c (\<lambda>_. b') w1
            in if destroyed then emit (Destroyed_socket c) w2 else w2)
         else w1)"

definition on_backend_close :: "nat \<Rightarrow> World \<Rightarrow> World" where
  "on_backend_close c w =
     (let (b, emitted) = on_close (w_conn w c); w1 = upd_conn c (\<lambda>_. b) w
      in if emitted then onBackendClosed (bc_session b) w1 else w1)"

text \<open>\<open>GatewayServer.close()\<close>.\<close>

definition server_close :: "World \<Rightarrow> World" where
  "server_close w = fold (\<lambda>r w. ws_close r 1001 (backend_close r w)) (roster_all (w_roster w)) w"

subsection \<open>The server as a step relation\<close>

text \<open>
  A step is one event that node delivers, in any order the sockets and the thread pool allow:
  a new client, a client's message (the \<open>ws\<close> library still delivers messages while the
  closing handshake runs) or its closing, the end of a key derivation, the outcome of a
  connection attempt, bytes or the end of a backend connection, the callback of a write.
  The one assumption on the bytes of the backend is that the names in its private messages
  have no colon, as \<open>Server::is_valid_nickname\<close> (src/Server.cpp) ensures.
\<close>

fun names_plain :: "BackendEvent \<Rightarrow> bool" where
  "names_plain (EvPriv sender _) \<longleftrightarrow> plain sender"
| "names_plain (EvPrivSent recipient _) \<longleftrightarrow> plain recipient"
| "names_plain _ \<longleftrightarrow> True"

definition data_events :: "nat \<Rightarrow> bytes \<Rightarrow> World \<Rightarrow> BackendEvent list" where
  "data_events c chunk w = fst (snd (on_data chunk (w_conn w c)))"

inductive gateway_step :: "Env \<Rightarrow> World \<Rightarrow> World \<Rightarrow> bool" for env where
  accept: "\<not> w_crashed w \<Longrightarrow> gateway_step env w (onConnection env w)"
| client_message: "\<not> w_crashed w \<Longrightarrow> r < w_nsess w \<Longrightarrow> s_ws (w_sess w r) \<noteq> WsClosed \<Longrightarrow>
    gateway_step env w (onClientRaw env r raw w)"
| client_closed: "\<not> w_crashed w \<Longrightarrow> r < w_nsess w \<Longrightarrow> s_ws (w_sess w r) \<noteq> WsClosed \<Longrightarrow>
    gateway_step env w (onClientClosed r (upd_sess r (\<lambda>s. s\<lparr>s_ws := WsClosed\<rparr>) w))"
| auth_resume: "\<not> w_crashed w \<Longrightarrow> w_jobs w = before @ job # after \<Longrightarrow>
    gateway_step env w (handleAuth_resume env job (w\<lparr>w_jobs := before @ after\<rparr>))"
| connected: "\<not> w_crashed w \<Longrightarrow> c < w_nconn w \<Longrightarrow> bc_socket (w_conn w c) = Connecting \<Longrightarrow>
    gateway_step env w (upd_conn c on_connected w)"
| connect_failed: "\<not> w_crashed w \<Longrightarrow> c < w_nconn w \<Longrightarrow> bc_socket (w_conn w c) = Connecting \<Longrightarrow>
    gateway_step env w (handleAuth_unavailable (bc_session (w_conn w c)) (upd_conn c onConnectError w))"
| backend_data: "\<not> w_crashed w \<Longrightarrow> c < w_nconn w \<Longrightarrow> bc_socket (w_conn w c) = Wired \<Longrightarrow>
    \<forall>e \<in> set (data_events c chunk w). names_plain e \<Longrightarrow> gateway_step env w (on_backend_data env c chunk w)"
| backend_closed: "\<not> w_crashed w \<Longrightarrow> c < w_nconn w \<Longrightarrow> bc_socket (w_conn w c) \<in> {Wired, Destroyed} \<Longrightarrow>
    gateway_step env w (on_backend_close c w)"
| written: "\<not> w_crashed w \<Longrightarrow> c < w_nconn w \<Longrightarrow> bc_unacked (w_conn w c) = Suc n \<Longrightarrow>
    gateway_step env w (upd_conn c (\<lambda>b. b\<lparr>bc_unacked := n\<rparr>) w)"
| write_failed: "\<not> w_crashed w \<Longrightarrow> c < w_nconn w \<Longrightarrow> bc_unacked (w_conn w c) = Suc n \<Longrightarrow>
    gateway_step env w (crash w)"
| shutdown: "\<not> w_crashed w \<Longrightarrow> gateway_step env w (server_close w)"

text \<open>The state after the constructor has run on the tables of the database file.\<close>

definition gateway_init :: "World \<Rightarrow> bool" where
  "gateway_init w \<longleftrightarrow> w_nsess w = 0 \<and> w_nconn w = 0 \<and> w_roster w = [] \<and> w_jobs w = [] \<and> w_out w = []
     \<and> \<not> w_crashed w \<and> conv_inv (w_db w) \<and> plain_db (w_db w) \<and> (\<forall>r. w_sess w r = new_Session []) "

end
