(* ===== verification/GatewayInv.thy ===== *)
theory GatewayInv
  imports Gateway
begin

section \<open>What holds in every state of the gateway\<close>

text \<open>
  The invariant \<open>gw_inv\<close> of the server and the relation \<open>serves\<close>: what a handler that
  serves authenticated sessions may change and send.  Every helper and handler of the server
  is shown to stay within \<open>serves\<close>; the invariant, the authentication gate and the privacy
  of conversations follow once for all of them.
\<close>

subsection \<open>The invariant\<close>

definition sessions_inv :: "World \<Rightarrow> bool" where
  "sessions_inv w \<longleftrightarrow> (\<forall>r. if s_authenticated (w_sess w r)
     then r < w_nsess w \<and> s_id (w_sess w r) \<in> user_ids (w_db w) \<and> s_backend (w_sess w r) \<noteq> None
     else s_backend (w_sess w r) = None \<and> \<not> s_welcomed (w_sess w r) \<and> \<not> s_readyAnnounced (w_sess w r))"

definition conns_inv :: "World \<Rightarrow> bool" where
  "conns_inv w \<longleftrightarrow> (\<forall>c < w_nconn w. s_authenticated (w_sess w (bc_session (w_conn w c))) \<and> bc_socket (w_conn w c) \<noteq> NoSocket)
     \<and> (\<forall>r c. s_backend (w_sess w r) = Some c \<longrightarrow> c < w_nconn w \<and> bc_session (w_conn w c) = r)"

definition roster_inv :: "World \<Rightarrow> bool" where
  "roster_inv w \<longleftrightarrow> roster_wf (w_roster w)
     \<and> (\<forall>(i, r) \<in> set (w_roster w). s_authenticated (w_sess w r) \<and> i \<in> user_ids (w_db w))"

text \<open>The stored passwords: account id, hash and salt.\<close>

definition credentials :: "Db \<Rightarrow> (jsstr \<times> jsstr \<times> jsstr) set" where
  "credentials db = (\<lambda>u. (u_id u, u_password_hash u, u_password_salt u)) ` set (t_users db)"

definition credential :: "UserRow \<Rightarrow> jsstr \<times> jsstr \<times> jsstr" where
  "credential u = (u_id u, u_password_hash u, u_password_salt u)"

fun job_ok :: "World \<Rightarrow> AuthJob \<Rightarrow> bool" where
  "job_ok w (HashJob r _ _) \<longleftrightarrow> r < w_nsess w"
| "job_ok w (VerifyJob r row _) \<longleftrightarrow> r < w_nsess w \<and> credential row \<in> credentials (w_db w)"

definition gate_ok :: "World \<Rightarrow> Effect \<Rightarrow> bool" where
  "gate_ok w e \<longleftrightarrow> (\<forall>r m. e = Sent r m \<longrightarrow> is_error m \<or> s_authenticated (w_sess w r))
     \<and> (\<forall>c bs. e = Wrote c bs \<longrightarrow> c < w_nconn w \<or> (\<exists>r. s_backend (w_sess w r) = Some c))"

text \<open>The second part says that nothing is written on a connection that does not exist.\<close>

definition gw_inv :: "World \<Rightarrow> bool" where
  "gw_inv w \<longleftrightarrow> conv_inv (w_db w) \<and> plain_db (w_db w) \<and> sessions_inv w \<and> conns_inv w \<and> roster_inv w
     \<and> (\<forall>j \<in> set (w_jobs w). job_ok w j) \<and> (\<forall>e \<in> set (w_out w). gate_ok w e)"

lemma gate_wrote: "gate_ok w (Wrote c bs) \<Longrightarrow> conns_inv w \<Longrightarrow> c < w_nconn w"
  by (auto simp: gate_ok_def conns_inv_def)

lemma gate_keep:
  assumes "gate_ok w e" and "conns_inv w" and "\<And>r. s_authenticated (w_sess w r) \<Longrightarrow> s_authenticated (w_sess w' r)" and "w_nconn w \<le> w_nconn w'"
  shows "gate_ok w' e"
  unfolding gate_ok_def
proof (intro conjI allI impI)
  show "is_error m \<or> s_authenticated (w_sess w' r)" if "e = Sent r m" for r m
    using assms(1,3) that by (auto simp: gate_ok_def)
  show "c < w_nconn w' \<or> (\<exists>r. s_backend (w_sess w' r) = Some c)" if "e = Wrote c bs" for c bs
    using gate_wrote [of w c bs] assms(1,2,4) that by simp
qed

lemmas gw_parts = sessions_inv_def conns_inv_def roster_inv_def

subsection \<open>Who may receive what\<close>

text \<open>A session answers to an account id: its own id, or an id of the roster that leads to it.\<close>

definition answers_to :: "World \<Rightarrow> nat \<Rightarrow> jsstr \<Rightarrow> bool" where
  "answers_to w r i \<longleftrightarrow> s_id (w_sess w r) = i \<or> (i, r) \<in> set (w_roster w)"

text \<open>Announced conversations other than the public one have another kind and another id.\<close>

definition private_summary :: "ConversationSummary \<Rightarrow> bool" where
  "private_summary c \<longleftrightarrow> cs_kind c \<noteq> KPublic \<and> cs_id c \<noteq> PUBLIC_CONVERSATION_ID"

fun audience_ok :: "(jsstr \<Rightarrow> jsstr set) \<Rightarrow> World \<Rightarrow> Effect \<Rightarrow> bool" where
  "audience_ok members w (Sent r (SMessage m)) \<longleftrightarrow> ms_conversationId m = PUBLIC_CONVERSATION_ID
     \<or> (\<exists>i \<in> members (ms_conversationId m). answers_to w r i)"
| "audience_ok members w (Sent r (SConversationCreated c)) \<longleftrightarrow> private_summary c
     \<and> (\<exists>i \<in> members (cs_id c). answers_to w r i)"
| "audience_ok members w (Sent r (SReady i _ _ convs msgs)) \<longleftrightarrow> i = s_id (w_sess w r)
     \<and> (\<forall>c \<in> set convs. (cs_kind c = KPublic \<and> cs_id c = PUBLIC_CONVERSATION_ID) \<or> (private_summary c \<and> i \<in> members (cs_id c)))
     \<and> (\<forall>m \<in> set msgs. ms_conversationId m = PUBLIC_CONVERSATION_ID \<or> i \<in> members (ms_conversationId m))"
| "audience_ok members w _ \<longleftrightarrow> True"

definition same_login :: "Session \<Rightarrow> Session \<Rightarrow> bool" where
  "same_login s t \<longleftrightarrow> s_id t = s_id s \<and> s_authenticated t = s_authenticated s \<and> s_backend t = s_backend s
     \<and> (s_authenticated s \<or> (s_welcomed t = s_welcomed s \<and> s_readyAnnounced t = s_readyAnnounced s))"

text \<open>How the tables may grow: users, conversations and members stay, the members of a group
  do not change, messages are only appended, and all this by the statements of the program.\<close>

definition db_grows :: "Db \<Rightarrow> Db \<Rightarrow> bool" where
  "db_grows db db' \<longleftrightarrow> credentials db \<subseteq> credentials db' \<and> user_ids db \<subseteq> user_ids db' \<and> conv_ids db \<subseteq> conv_ids db'
     \<and> (\<forall>c. members_of db c \<subseteq> members_of db' c)
     \<and> (\<forall>k. group_conversation_id k \<in> conv_ids db \<longrightarrow>
            members_of db' (group_conversation_id k) = members_of db (group_conversation_id k))
     \<and> (\<exists>ms. t_messages db' = t_messages db @ ms) \<and> stmt\<^sup>*\<^sup>* db db'"

lemma db_grows_refl [simp]: "db_grows db db"
  by (simp add: db_grows_def)

lemma db_grows_trans:
  assumes "db_grows db db1" and "db_grows db1 db2"
  shows "db_grows db db2"
  unfolding db_grows_def
proof (intro conjI allI impI)
  show "credentials db \<subseteq> credentials db2" "user_ids db \<subseteq> user_ids db2" "conv_ids db \<subseteq> conv_ids db2" "members_of db c \<subseteq> members_of db2 c" for c
    using assms unfolding db_grows_def by blast+
  show "members_of db2 (group_conversation_id k) = members_of db (group_conversation_id k)"
    if "group_conversation_id k \<in> conv_ids db" for k
    using assms that unfolding db_grows_def by (simp add: subset_iff)
  show "\<exists>ms. t_messages db2 = t_messages db @ ms"
    using assms unfolding db_grows_def by auto
  show "stmt\<^sup>*\<^sup>* db db2" using assms unfolding db_grows_def by (meson rtranclp_trans)
qed

lemma db_growsI:
  assumes "credentials db \<subseteq> credentials db'" and "user_ids db \<subseteq> user_ids db'" and "conv_ids db \<subseteq> conv_ids db'" and "members_of db' = members_of db"
    and "t_messages db' = t_messages db @ ms" and "stmt db db'"
  shows "db_grows db db'"
  using assms by (simp add: db_grows_def)

definition serves :: "World \<Rightarrow> World \<Rightarrow> bool" where
  "serves w w' \<longleftrightarrow> w_nsess w' = w_nsess w \<and> w_nconn w' = w_nconn w \<and> w_jobs w' = w_jobs w
     \<and> set (w_roster w') \<subseteq> set (w_roster w) \<and> (roster_wf (w_roster w) \<longrightarrow> roster_wf (w_roster w'))
     \<and> (\<forall>r. same_login (w_sess w r) (w_sess w' r))
     \<and> (\<forall>c. bc_session (w_conn w' c) = bc_session (w_conn w c)
            \<and> (bc_socket (w_conn w' c) = NoSocket \<longleftrightarrow> bc_socket (w_conn w c) = NoSocket))
     \<and> (conv_inv (w_db w) \<longrightarrow> conv_inv (w_db w')) \<and> (plain_db (w_db w) \<longrightarrow> plain_db (w_db w')) \<and> user_ids (w_db w') = user_ids (w_db w)
     \<and> db_grows (w_db w) (w_db w')
     \<and> (\<exists>es. w_out w' = w_out w @ es
            \<and> (\<forall>e \<in> set es. gate_ok w e \<and> audience_ok (members_of (w_db w')) w e))"

lemma same_login_trans: "same_login s t \<Longrightarrow> same_login t u \<Longrightarrow> same_login s u"
  by (auto simp: same_login_def)

lemma audience_mono:
  assumes "audience_ok members w' e" and "\<And>c. members c \<subseteq> members' c"
    and "set (w_roster w') \<subseteq> set (w_roster w)" and "\<And>r. s_id (w_sess w' r) = s_id (w_sess w r)"
  shows "audience_ok members' w e"
proof -
  have a: "answers_to w' r i \<Longrightarrow> answers_to w r i" for r i
    using assms(3,4) by (auto simp: answers_to_def)
  show ?thesis
    using assms(1) a assms(4) subsetD [OF assms(2)]
    by (induction members w' e rule: audience_ok.induct) (simp_all, blast+)
qed

lemma serves_refl [simp, intro]: "serves w w"
  by (simp add: serves_def same_login_def)

lemma serves_parts:
  assumes "serves w w'"
  shows "w_nsess w' = w_nsess w" "w_nconn w' = w_nconn w" "w_jobs w' = w_jobs w"
    and "set (w_roster w') \<subseteq> set (w_roster w)" "roster_wf (w_roster w) \<Longrightarrow> roster_wf (w_roster w')"
    and "same_login (w_sess w r) (w_sess w' r)" "bc_session (w_conn w' c) = bc_session (w_conn w c)"
    and "(bc_socket (w_conn w' c) = NoSocket) = (bc_socket (w_conn w c) = NoSocket)"
    and "conv_inv (w_db w) \<Longrightarrow> conv_inv (w_db w')" "plain_db (w_db w) \<Longrightarrow> plain_db (w_db w')"
    and "user_ids (w_db w') = user_ids (w_db w)" "db_grows (w_db w) (w_db w')"
    and "\<exists>es. w_out w' = w_out w @ es \<and> (\<forall>e \<in> set es. gate_ok w e \<and> audience_ok (members_of (w_db w')) w e)"
  using assms unfolding serves_def by simp_all

lemma members_grow: "db_grows db db' \<Longrightarrow> members_of db c \<subseteq> members_of db' c"
  unfolding db_grows_def by simp

lemma serves_trans:
  assumes "serves w w1" and "serves w1 w2"
  shows "serves w w2"
proof -
  note p = serves_parts [OF assms(1)] and q = serves_parts [OF assms(2)]
  obtain es where es: "w_out w1 = w_out w @ es" "\<And>e. e \<in> set es \<Longrightarrow> gate_ok w e \<and> audience_ok (members_of (w_db w1)) w e"
    using p(13) by blast
  obtain fs where fs: "w_out w2 = w_out w1 @ fs" "\<And>e. e \<in> set fs \<Longrightarrow> gate_ok w1 e \<and> audience_ok (members_of (w_db w2)) w1 e"
    using q(13) by blast
  have id: "s_id (w_sess w1 r) = s_id (w_sess w r)" and au: "s_authenticated (w_sess w1 r) = s_authenticated (w_sess w r)"
    and bk: "s_backend (w_sess w1 r) = s_backend (w_sess w r)" for r
    using p(6) by (simp_all add: same_login_def)
  have "gate_ok w e \<and> audience_ok (members_of (w_db w2)) w e" if "e \<in> set (es @ fs)" for e
  proof (cases "e \<in> set es")
    case True
    have "audience_ok (members_of (w_db w2)) w e"
      by (rule audience_mono [OF conjunct2 [OF es(2) [OF True]] members_grow [OF q(12)] subset_refl refl])
    with es(2) [OF True] show ?thesis by blast
  next
    case False
    with that have e: "e \<in> set fs" by simp
    have "audience_ok (members_of (w_db w2)) w e"
      by (rule audience_mono [OF conjunct2 [OF fs(2) [OF e]] subset_refl p(4) id])
    with fs(2) [OF e] show ?thesis by (simp add: gate_ok_def au bk p(2))
  qed
  then have out: "\<exists>es. w_out w2 = w_out w @ es \<and> (\<forall>e \<in> set es. gate_ok w e \<and> audience_ok (members_of (w_db w2)) w e)"
    using es(1) fs(1) by (intro exI [of _ "es @ fs"]) simp
  have sess: "\<forall>r. same_login (w_sess w r) (w_sess w2 r)"
    using same_login_trans [OF p(6) q(6)] by blast
  show ?thesis
    unfolding serves_def
    by (intro conjI out sess db_grows_trans [OF p(12) q(12)])
      (use p q in \<open>simp_all, blast?\<close>)
qed

subsection \<open>Serving keeps the invariant\<close>

lemma servesD:
  assumes "serves w w'"
  shows "w_nsess w' = w_nsess w" "w_nconn w' = w_nconn w" "w_jobs w' = w_jobs w" "user_ids (w_db w') = user_ids (w_db w)"
    and "s_id (w_sess w' r) = s_id (w_sess w r)" "s_authenticated (w_sess w' r) = s_authenticated (w_sess w r)"
    and "s_backend (w_sess w' r) = s_backend (w_sess w r)"
    and "bc_session (w_conn w' c) = bc_session (w_conn w c)"
    and "(bc_socket (w_conn w' c) = NoSocket) = (bc_socket (w_conn w c) = NoSocket)"
    and "set (w_roster w') \<subseteq> set (w_roster w)" "members_of (w_db w) i \<subseteq> members_of (w_db w') i"
  using assms unfolding serves_def same_login_def db_grows_def by auto

lemma serves_grows: "serves w w' \<Longrightarrow> db_grows (w_db w) (w_db w')"
  unfolding serves_def by blast

lemma serves_sessions_inv: "serves w w' \<Longrightarrow> sessions_inv w \<Longrightarrow> sessions_inv w'"
  unfolding sessions_inv_def serves_def same_login_def by (intro allI) (auto split: if_splits)

lemma serves_conns_inv: "serves w w' \<Longrightarrow> conns_inv w \<Longrightarrow> conns_inv w'"
  unfolding conns_inv_def by (simp add: servesD)

lemma serves_roster_inv: "serves w w' \<Longrightarrow> roster_inv w \<Longrightarrow> roster_inv w'"
  unfolding roster_inv_def serves_def same_login_def by auto

lemma serves_jobs: "serves w w' \<Longrightarrow> \<forall>j \<in> set (w_jobs w). job_ok w j \<Longrightarrow> \<forall>j \<in> set (w_jobs w'). job_ok w' j"
proof (intro ballI)
  fix j assume s: "serves w w'" and ok: "\<forall>j \<in> set (w_jobs w). job_ok w j" and "j \<in> set (w_jobs w')"
  then have "job_ok w j" by (simp add: servesD)
  moreover have "credentials (w_db w) \<subseteq> credentials (w_db w')"
    using serves_parts(12) [OF s] by (simp add: db_grows_def)
  ultimately show "job_ok w' j" using s by (cases j) (auto simp: servesD)
qed

lemma serves_out: "serves w w' \<Longrightarrow> \<forall>e \<in> set (w_out w). gate_ok w e \<Longrightarrow> \<forall>e \<in> set (w_out w'). gate_ok w' e"
proof (intro ballI)
  fix e assume s: "serves w w'" and ok: "\<forall>e \<in> set (w_out w). gate_ok w e" and e: "e \<in> set (w_out w')"
  obtain es where "w_out w' = w_out w @ es" "\<forall>e \<in> set es. gate_ok w e"
    using s unfolding serves_def by blast
  with ok e have "gate_ok w e" by auto
  then show "gate_ok w' e" using s by (simp add: gate_ok_def servesD)
qed

lemma serves_conv_inv: "serves w w' \<Longrightarrow> conv_inv (w_db w) \<Longrightarrow> conv_inv (w_db w')"
  unfolding serves_def by blast

lemma serves_plain: "serves w w' \<Longrightarrow> plain_db (w_db w) \<Longrightarrow> plain_db (w_db w')"
  unfolding serves_def by blast

lemma serves_inv: "serves w w' \<Longrightarrow> gw_inv w \<Longrightarrow> gw_inv w'"
  unfolding gw_inv_def
  by (intro conjI; elim conjE)
    (erule (1) serves_conv_inv serves_plain serves_sessions_inv serves_conns_inv serves_roster_inv serves_jobs serves_out)+

lemma serves_then: "serves w w1 \<Longrightarrow> gw_inv w \<Longrightarrow> (gw_inv w1 \<Longrightarrow> serves w1 w2) \<Longrightarrow> serves w w2"
  by (blast intro: serves_trans serves_inv)

lemma serves_fold:
  assumes "gw_inv w"
    and "\<And>x w'. x \<in> set xs \<Longrightarrow> gw_inv w' \<Longrightarrow> serves w w' \<Longrightarrow> serves w' (f x w')"
  shows "serves w (fold f xs w)"
proof -
  have "serves w v \<Longrightarrow> (\<And>x w'. x \<in> set xs \<Longrightarrow> gw_inv w' \<Longrightarrow> serves w w' \<Longrightarrow> serves w' (f x w')) \<Longrightarrow>
      serves w (fold f xs v)" for v
  proof (induction xs arbitrary: v)
    case Nil
    then show ?case by (simp only: fold_simps)
  next
    case (Cons x xs)
    have v: "serves w v" by (rule Cons.prems(1))
    have "serves v (f x v)" by (rule Cons.prems(2) [OF _ serves_inv [OF v assms(1)] v]) (rule list.set_intros)
    with v have "serves w (f x v)" by (rule serves_trans)
    then have "serves w (fold f xs (f x v))"
      by (rule Cons.IH) (rule Cons.prems(2) [OF list.set_intros(2)])
    then show ?case by (simp only: fold_simps)
  qed
  from this [OF serves_refl assms(2)] show ?thesis .
qed

subsection \<open>The primitive effects\<close>

lemma serves_emit: "gate_ok w e \<Longrightarrow> audience_ok (members_of (w_db w)) w e \<Longrightarrow> serves w (emit e w)"
  by (auto simp: serves_def emit_def same_login_def)

lemma serves_silent [simp]: "serves w (emit (WsClose r n) w)" "s_backend (w_sess w r) = Some c \<Longrightarrow> serves w (emit (Wrote c bs) w)"
  "serves w (emit (Destroyed_socket c) w)" "serves w (crash w)" "serves w (next_tick w)"
  by (auto simp: serves_def emit_def crash_def next_tick_def same_login_def gate_ok_def)

lemma serves_upd_sess: "same_login (w_sess w r) (f (w_sess w r)) \<Longrightarrow> serves w (upd_sess r f w)"
  by (auto simp: serves_def upd_sess_def same_login_def)

lemma serves_upd_conn:
  "bc_session (f (w_conn w c)) = bc_session (w_conn w c) \<Longrightarrow>
   (bc_socket (f (w_conn w c)) = NoSocket) = (bc_socket (w_conn w c) = NoSocket) \<Longrightarrow> serves w (upd_conn c f w)"
  by (auto simp: serves_def upd_conn_def same_login_def)

lemma serves_db:
  "(conv_inv (w_db w) \<Longrightarrow> conv_inv db) \<Longrightarrow> (plain_db (w_db w) \<Longrightarrow> plain_db db) \<Longrightarrow> user_ids db = user_ids (w_db w) \<Longrightarrow>
   db_grows (w_db w) db \<Longrightarrow> serves w (w\<lparr>w_db := db\<rparr>)"
  by (auto simp: serves_def same_login_def)

lemma serves_roster_remove: "serves w (w\<lparr>w_roster := roster_remove i (w_roster w)\<rparr>)"
proof -
  have "set (roster_remove i (w_roster w)) \<subseteq> set (w_roster w)"
    by (auto simp: roster_remove_def AList.delete_eq)
  then show ?thesis by (simp add: serves_def same_login_def roster_wf_remove)
qed

lemma serves_sendTo:
  "is_error m \<or> s_authenticated (w_sess w r) \<Longrightarrow> audience_ok (members_of (w_db w)) w (Sent r m) \<Longrightarrow> serves w (sendTo r m w)"
  by (simp add: sendTo_def serves_emit gate_ok_def)

lemma serves_error: "is_error m \<Longrightarrow> serves w (sendTo r m w)"
  by (rule serves_sendTo) (cases m, simp_all)+

lemma is_error_msg [simp]: "is_error (error_msg code text)"
  by (simp add: error_msg_def)

lemma serves_ws_close: "serves w (ws_close r n w)"
  unfolding ws_close_def
  by (auto intro: serves_trans [OF serves_upd_sess serves_silent(1)] simp: same_login_def)

lemma close_frame: "close b = (b', d) \<Longrightarrow> bc_session b' = bc_session b \<and> (bc_socket b' = NoSocket) = (bc_socket b = NoSocket)"
  by (auto simp: close_def split: if_splits)

lemma serves_conn_close:
  assumes "close (w_conn w c) = (b, d)"
  shows "serves w (if d then emit (Destroyed_socket c) (upd_conn c (\<lambda>_. b) w) else upd_conn c (\<lambda>_. b) w)"
proof -
  have "serves w (upd_conn c (\<lambda>_. b) w)" using close_frame [OF assms] by (intro serves_upd_conn) auto
  then show ?thesis by (auto intro: serves_trans)
qed

lemma serves_backend_close: "serves w (backend_close r w)"
  using serves_conn_close by (auto simp: backend_close_def Let_def split: option.splits prod.splits)

lemma sendLine_frame: "sendLine line b = Some (b', bs) \<Longrightarrow> bc_session b' = bc_session b \<and> bc_socket b' = bc_socket b"
  by (auto simp: sendLine_def split: if_splits)

lemma serves_sendLine: "serves w (backend_sendLine r line w)"
proof -
  have "serves w (emit (Wrote c bs) (upd_conn c (\<lambda>_. b) w))"
    if "sendLine line (w_conn w c) = Some (b, bs)" "s_backend (w_sess w r) = Some c" for c b bs
    by (rule serves_trans [OF serves_upd_conn serves_silent(2) [of _ r]]) (simp_all add: sendLine_frame [OF that(1)], simp add: upd_conn_def that(2))
  then show ?thesis by (simp add: backend_sendLine_def split: option.split prod.split)
qed

lemma welcomed_authenticated: "gw_inv w \<Longrightarrow> s_welcomed (w_sess w r) \<Longrightarrow> s_authenticated (w_sess w r)"
  unfolding gw_inv_def sessions_inv_def by metis

lemma roster_authenticated: "gw_inv w \<Longrightarrow> roster_get (w_roster w) i = Some r \<Longrightarrow> s_authenticated (w_sess w r) \<and> (i, r) \<in> set (w_roster w)"
  unfolding gw_inv_def roster_inv_def roster_get_def by (auto dest: map_of_SomeD)

lemma serves_broadcast:
  assumes "gw_inv w" and "\<And>r v. audience_ok (members_of (w_db v)) v (Sent r m)"
  shows "serves w (broadcastToAll m ex w)"
  unfolding broadcastToAll_def
  by (rule serves_fold [OF assms(1)]) (auto intro: serves_sendTo assms(2) dest: welcomed_authenticated)

subsection \<open>The handlers serve\<close>

lemma ensureDirect_cs [simp]: "cs_id (snd (ensureDirect now a b db)) = directConversationId a b"
  "cs_memberIds (snd (ensureDirect now a b db)) = [a, b]"
  by (simp_all add: ensureDirect_def Let_def)

text \<open>After \<open>ensureDirect\<close> the conversation exists and its members are the two accounts.\<close>

lemma ensureDirect_after:
  assumes "conv_inv db" and "plain_db db" and "plain a" and "plain b" and "ensureDirect now a b db = (db', s)"
  shows "conv_inv db'" "plain_db db'" "user_ids db' = user_ids db" "db_grows db db'"
    and "cs_id s = directConversationId a b" "cs_id s \<in> conv_ids db'" "members_of db' (cs_id s) = {a, b}"
proof -
  have db': "db' = fst (ensureDirect now a b db)" and s: "s = snd (ensureDirect now a b db)"
    using assms(5) by simp_all
  show inv: "conv_inv db'" unfolding db' by (rule ensureDirect_inv [OF assms(1)])
  show plain: "plain_db db'"
    using assms(2-4) unfolding plain_db_def db' by (simp add: user_ids_def ensureDirect_members)
  show "user_ids db' = user_ids db" by (simp add: db' user_ids_def)
  have "stmt\<^sup>*\<^sup>* db db'" unfolding db' by (rule ensureDirect_path)
  then show "db_grows db db'"
    using direct_not_group [THEN not_sym]
    by (auto simp: db_grows_def credentials_def db' ensureDirect_members ensureDirect_ids user_ids_def split: if_splits)
  show i: "cs_id s = directConversationId a b" by (simp add: s)
  show "cs_id s \<in> conv_ids db'" unfolding i by (simp add: db' ensureDirect_ids)
  show "members_of db' (cs_id s) = {a, b}"
    unfolding i by (rule direct_members [OF inv plain assms(3,4)]) (simp add: db' ensureDirect_ids)
qed

lemma append_after:
  assumes "conv_inv db" and "d_conversationId d \<in> conv_ids db" and "append uuid now d db = Inr (db', s)"
  shows "credentials db' = credentials db" "conv_inv db'" "plain_db db' = plain_db db" "user_ids db' = user_ids db" "members_of db' c = members_of db c" "conv_ids db' = conv_ids db"
    and "ms_conversationId s = d_conversationId d" "t_messages db' = t_messages db @ [message_row uuid now d]" "stmt db db'"
proof -
  have "m_conversation_id (message_row uuid now d) \<in> conv_ids db" using assms(2) by (simp add: message_row_def)
  with append_Inr [OF assms(3)] show "stmt db db'" by (blast intro: stmt_message)
qed (use append_conv_inv [OF assms] append_frame [OF assms(3)] append_Inr [OF assms(3)] in
    \<open>simp_all add: credentials_def plain_db_def user_ids_def members_of_def toSummary_def message_row_def\<close>)

lemma serves_ensureDirect:
  assumes "gw_inv w" and "plain a" and "plain b" and "ensureDirect_w env a b w = (w', s)"
  shows "serves w w'" "cs_id s \<in> conv_ids (w_db w')" "members_of (w_db w') (cs_id s) = {a, b}"
proof -
  obtain db where e: "ensureDirect (e_clock env (w_tick w)) a b (w_db w) = (db, s)" and w': "w' = next_tick w\<lparr>w_db := db\<rparr>"
    using assms(4) by (auto simp: ensureDirect_w_def split: prod.splits)
  have "conv_inv (w_db w)" "plain_db (w_db w)" using assms(1) by (simp_all add: gw_inv_def)
  note a = ensureDirect_after [OF this assms(2,3) e]
  have "serves (next_tick w) w'"
    unfolding w' by (rule serves_db) (simp_all add: a next_tick_def)
  then show "serves w w'" by (rule serves_trans [OF serves_silent(5)])
  show "cs_id s \<in> conv_ids (w_db w')" "members_of (w_db w') (cs_id s) = {a, b}"
    using a by (simp_all add: w')
qed

lemma serves_ensureDirect_summary: "ensureDirect_w env a b w = (w', s) \<Longrightarrow> private_summary s"
  by (auto simp: ensureDirect_w_def ensureDirect_def private_summary_def direct_not_public Let_def)

lemma serves_append:
  assumes "gw_inv w" and "d_conversationId d \<in> conv_ids (w_db w)" and "append_w env d w = Some (w', s)"
  shows "serves w w'" "ms_conversationId s = d_conversationId d" "members_of (w_db w') c = members_of (w_db w) c"
proof -
  obtain db where e: "append (e_uuid env (w_tick w)) (e_clock env (w_tick w)) d (w_db w) = Inr (db, s)"
    and w': "w' = next_tick w\<lparr>w_db := db\<rparr>"
    using assms(3) by (auto simp: append_w_def split: sum.splits prod.splits)
  have "conv_inv (w_db w)" using assms(1) by (simp add: gw_inv_def)
  note a = append_after [OF this assms(2) e]
  have "serves (next_tick w) w'"
    unfolding w' by (rule serves_db) (simp_all add: a next_tick_def db_grows_def r_into_rtranclp)
  then show "serves w w'" by (rule serves_trans [OF serves_silent(5)])
  show "ms_conversationId s = d_conversationId d" "members_of (w_db w') c = members_of (w_db w) c"
    using a by (simp_all add: w')
qed

lemma serves_sendReady:
  assumes "gw_inv w" and "s_authenticated (w_sess w r)"
  shows "serves w (sendReady env r w)"
  unfolding sendReady_def Let_def
proof (rule serves_sendTo)
  let ?i = "s_id (w_sess w r)"
  have "private_summary c \<and> ?i \<in> members_of (w_db w) (cs_id c)" if "c \<in> set (conversationsFor (w_db w) ?i)" for c
  proof -
    obtain d where d: "d \<in> set (t_conversations (w_db w))" "c_kind d \<noteq> KPublic" "?i \<in> members_of (w_db w) (c_id d)"
      and c: "cs_id c = c_id d" "cs_kind c = c_kind d"
      using \<open>c \<in> _\<close> unfolding conversationsFor_elem by auto
    have "kinds_ok (w_db w)" using assms(1) by (simp add: gw_inv_def conv_inv_def)
    from bspec [OF this [unfolded kinds_ok_def] d(1)] have "c_id d \<noteq> PUBLIC_CONVERSATION_ID"
      using d(2) by (cases "c_kind d") (auto simp: direct_not_public group_not_public dest!: sym [of PUBLIC_CONVERSATION_ID])
    with c d show ?thesis by (simp add: private_summary_def)
  qed
  moreover have "\<forall>m \<in> set (historyForUser (e_ties env) (w_db w) ?i). ms_conversationId m = PUBLIC_CONVERSATION_ID
      \<or> ?i \<in> members_of (w_db w) (ms_conversationId m)"
    by (auto simp: history_set visible_to_def toSummary_def members_of_def PUBLIC_CONVERSATION_ID_def)
  ultimately show "audience_ok (members_of (w_db w)) w (Sent r (SReady ?i (s_nickname (w_sess w r))
      (welcomedUsers (w_sess w) (w_roster w))
      (publicConversation (map us_id (welcomedUsers (w_sess w) (w_roster w))) # conversationsFor (w_db w) ?i)
      (historyForUser (e_ties env) (w_db w) ?i)))"
    by (simp add: publicConversation_def)
qed (use assms in simp)

lemma serves_send_to_members:
  assumes "gw_inv w" and "\<And>i v q. i \<in> set ids \<Longrightarrow> serves w v \<Longrightarrow> (i, q) \<in> set (w_roster v) \<Longrightarrow> audience_ok (members_of (w_db v)) v (Sent q m)"
  shows "serves w (fold (send_to_member m) ids w)"
proof (rule serves_fold [OF assms(1)])
  fix i v assume i: "i \<in> set ids" and v: "gw_inv v" "serves w v"
  show "serves v (send_to_member m i v)"
  proof (cases "roster_get (w_roster v) i")
    case (Some q)
    from roster_authenticated [OF v(1) Some] assms(2) [OF i v(2)] show ?thesis
      by (simp add: send_to_member_def Some serves_sendTo)
  qed (simp add: send_to_member_def)
qed

lemma authenticated_plain: "gw_inv w \<Longrightarrow> s_authenticated (w_sess w r) \<Longrightarrow> plain (s_id (w_sess w r))"
  unfolding gw_inv_def sessions_inv_def plain_db_def by metis

lemma serves_handleCreateGroup:
  assumes "gw_inv w" and "s_authenticated (w_sess w r)"
  shows "serves w (handleCreateGroup env r name ids w)"
proof -
  let ?us = "uniq (s_id (w_sess w r) # ids)"
  have unknown: "serves w (sendTo r (error_msg code t) w)" for code t by (simp add: serves_error)
  have ok: "serves w (fold (send_to_member (SConversationCreated cs)) ?us (next_tick w\<lparr>w_db := db\<rparr>))"
    if g: "createGroup (e_uuid env (w_tick w)) (e_clock env (w_tick w)) name ?us (w_db w) = Inr (db, cs)"
      and on: "\<forall>i \<in> set ?us. online_member w i" for db cs
  proof -
    have inv: "conv_inv (w_db w)" "plain_db (w_db w)" using assms(1) by (simp_all add: gw_inv_def)
    note m = createGroup_members [OF inv(1) g] and c = createGroup_Inr [OF g]
    have "plain i" if i: "i \<in> set ?us" for i
    proof -
      obtain q where "roster_get (w_roster w) i = Some q"
        using bspec [OF on i] by (auto simp: online_member_def split: option.splits)
      with assms(1) have "i \<in> user_ids (w_db w)"
        unfolding gw_inv_def roster_inv_def roster_get_def by (auto dest: map_of_SomeD)
      with inv(2) show ?thesis by (simp add: plain_db_def)
    qed
    then have p: "plain_db db" using inv(2) c by (auto simp: plain_db_def m user_ids_def)
    have "stmt\<^sup>*\<^sup>* (w_db w) db" using createGroup_stmts [OF g refl refl, of 0] by (meson rtranclp_trans)
    then have grow: "db_grows (w_db w) db"
      using c no_members [of "w_db w"] inv(1) by (auto simp: db_grows_def credentials_def m conv_inv_def user_ids_def)
    have "serves (next_tick w) (next_tick w\<lparr>w_db := db\<rparr>)"
      using createGroup_inv [OF inv(1) g] p grow c by (intro serves_db) (simp_all add: next_tick_def user_ids_def)
    then have s: "serves w (next_tick w\<lparr>w_db := db\<rparr>)" (is "serves w ?w1")
      by (rule serves_trans [OF serves_silent(5)])
    have "serves ?w1 (fold (send_to_member (SConversationCreated cs)) ?us ?w1)"
    proof (rule serves_send_to_members [OF serves_inv [OF s assms(1)]])
      fix i v q assume i: "i \<in> set ?us" and v: "serves ?w1 v" and q: "(i, q) \<in> set (w_roster v)"
      have "members_of (w_db ?w1) (cs_id cs) = set ?us" using m c by simp
      then have "i \<in> members_of (w_db v) (cs_id cs)" using servesD(11) [OF v] i by blast
      with q show "audience_ok (members_of (w_db v)) v (Sent q (SConversationCreated cs))"
        using c by (auto simp: answers_to_def private_summary_def group_not_public)
    qed
    with s show ?thesis by (rule serves_trans)
  qed
  show ?thesis
  proof (cases "\<forall>i \<in> set ?us. online_member w i")
    case True
    then have "filter (\<lambda>i. \<not> online_member w i) ?us = []" by (simp only: filter_empty_conv not_not)
    with ok [OF _ True] show ?thesis
      by (simp only: handleCreateGroup_def Let_def list.size less_irrefl if_False)
        (simp only: serves_silent split: sum.split prod.split, blast)
  next
    case False
    then have "0 < length (filter (\<lambda>i. \<not> online_member w i) ?us)"
      by (simp only: length_greater_0_conv filter_empty_conv not_not) simp
    with unknown show ?thesis by (simp only: handleCreateGroup_def Let_def if_True)
  qed
qed

lemma serves_sendPublic:
  assumes "gw_inv w" and "s_authenticated (w_sess w r)"
  shows "serves w (sendPublic env r text w)"
proof (cases "append_w env (chat_draft PUBLIC_CONVERSATION_ID (w_sess w r) text) w")
  case (Some p)
  then obtain w1 own where a: "append_w env (chat_draft PUBLIC_CONVERSATION_ID (w_sess w r) text) w = Some (w1, own)"
    by (cases p) auto
  have "PUBLIC_CONVERSATION_ID \<in> conv_ids (w_db w)"
    using assms(1) by (simp add: gw_inv_def conv_inv_def public_in_conv_ids)
  then have d: "d_conversationId (chat_draft PUBLIC_CONVERSATION_ID (w_sess w r) text) \<in> conv_ids (w_db w)"
    by (simp add: chat_draft_def)
  note s = serves_append [OF assms(1) d a]
  have "serves w1 (sendTo r (SMessage own) w1)"
    using assms(2) s(2) by (intro serves_sendTo) (simp_all add: servesD(6) [OF s(1)] chat_draft_def)
  then have "serves w (sendTo r (SMessage own) w1)" by (rule serves_trans [OF s(1)])
  then show ?thesis by (simp add: sendPublic_def a) (rule serves_trans [OF _ serves_sendLine])
qed (simp add: sendPublic_def)

lemma serves_sendGroup:
  assumes "gw_inv w" and "s_authenticated (w_sess w r)"
  shows "serves w (sendGroup env r gid text w)"
proof (cases "getGroup (w_db w) gid")
  case (Some g)
  then have g: "g_id g = gid" "gid \<in> conv_ids (w_db w)" "set (g_memberIds g) = members_of (w_db w) gid"
    by (auto simp: getGroup_def conv_ids_def set_member_rows split: option.splits dest!: find_Some_set)
  have ok: "serves w (fold (send_to_member (SMessage m)) (g_memberIds g) w1)"
    if a: "append_w env (chat_draft (g_id g) (w_sess w r) text) w = Some (w1, m)" for w1 m
  proof -
    have d: "d_conversationId (chat_draft (g_id g) (w_sess w r) text) \<in> conv_ids (w_db w)"
      by (simp add: chat_draft_def g)
    note s = serves_append [OF assms(1) d a]
    have "serves w1 (fold (send_to_member (SMessage m)) (g_memberIds g) w1)"
    proof (rule serves_send_to_members [OF serves_inv [OF s(1) assms(1)]])
      fix i v q assume i: "i \<in> set (g_memberIds g)" and v: "serves w1 v" and q: "(i, q) \<in> set (w_roster v)"
      have "i \<in> members_of (w_db w1) gid" using i by (simp add: s(3) g)
      then have "i \<in> members_of (w_db v) gid" using servesD(11) [OF v] by blast
      with q show "audience_ok (members_of (w_db v)) v (Sent q (SMessage m))"
        by (auto simp: answers_to_def s(2) chat_draft_def g)
    qed
    with s(1) show ?thesis by (rule serves_trans)
  qed
  show ?thesis
    unfolding sendGroup_def Let_def Some
    using ok by (auto simp: serves_error split: option.split)
qed (simp add: sendGroup_def serves_error)

lemma serves_sendDirect:
  assumes "gw_inv w" and "s_authenticated (w_sess w r)"
  shows "serves w (sendDirect env r peer_id text w)"
proof -
  have refuse: "serves w (sendTo r (SError code t x) w)" for code t x by (simp add: serves_error)
  have ok: "serves w (case append_w env (chat_draft (cs_id c) (w_sess w2 r) text) w2 of
                  None \<Rightarrow> crash w2
                | Some (w3, _) \<Rightarrow> backend_sendLine r (formatMsgCommand (s_nickname (w_sess w3 peer)) text) w3)"
    if q: "roster_get (w_roster w) peer_id = Some peer"
      and e: "ensureDirect_w env (s_id (w_sess w r)) (s_id (w_sess w peer)) w = (w1, c)"
      and w2: "w2 = (if new then sendTo peer (SConversationCreated c) (sendTo r (SConversationCreated c) w1) else w1)"
    for peer w1 w2 c new
  proof -
    have peer: "s_authenticated (w_sess w peer)" using roster_authenticated [OF assms(1) q] ..
    note s = serves_ensureDirect [OF assms(1) authenticated_plain [OF assms] authenticated_plain [OF assms(1) peer] e]
    have created: "serves v (sendTo x (SConversationCreated c) v)" if v: "serves w1 v" and x: "x \<in> {r, peer}" for v x
    proof (rule serves_sendTo)
      show "is_error (SConversationCreated c) \<or> s_authenticated (w_sess v x)"
        using x assms(2) peer by (auto simp: servesD(6) [OF v] servesD(6) [OF s(1)])
      have "s_id (w_sess v x) \<in> members_of (w_db v) (cs_id c)"
        using servesD(11) [OF v] s(3) x by (auto simp: servesD(5) [OF v] servesD(5) [OF s(1)])
      moreover have "private_summary c" using serves_ensureDirect_summary [OF e] .
      ultimately show "audience_ok (members_of (w_db v)) v (Sent x (SConversationCreated c))"
        by (auto simp: answers_to_def)
    qed
    have s12: "serves w1 w2"
      unfolding w2 using created [of w1 r] created [of "sendTo r (SConversationCreated c) w1" peer]
      by (auto intro: serves_trans)
    have s2: "serves w w2" by (rule serves_trans [OF s(1) s12])
    show ?thesis
    proof (cases "append_w env (chat_draft (cs_id c) (w_sess w2 r) text) w2")
      case None
      with s2 show ?thesis by (auto intro: serves_trans)
    next
      case (Some p)
      then obtain w3 m where a: "append_w env (chat_draft (cs_id c) (w_sess w2 r) text) w2 = Some (w3, m)"
        by (cases p) auto
      have "w_db w2 = w_db w1" by (simp add: w2 sendTo_def emit_def)
      then have d: "d_conversationId (chat_draft (cs_id c) (w_sess w2 r) text) \<in> conv_ids (w_db w2)"
        using s(2) by (simp add: chat_draft_def)
      have "serves w w3"
        by (rule serves_trans [OF s2 serves_append(1) [OF serves_inv [OF s2 assms(1)] d a]])
      then show ?thesis by (simp add: a) (rule serves_trans [OF _ serves_sendLine])
    qed
  qed
  show ?thesis
  proof (cases "roster_get (w_roster w) peer_id")
    case None
    then show ?thesis by (simp add: sendDirect_def refuse)
  next
    case (Some peer)
    obtain w1 c where e: "ensureDirect_w env (s_id (w_sess w r)) (s_id (w_sess w peer)) w = (w1, c)"
      by (cases "ensureDirect_w env (s_id (w_sess w r)) (s_id (w_sess w peer)) w")
    show ?thesis
      using ok [OF Some e refl, of "\<not> hasDirect (w_db w) (directConversationId (s_id (w_sess w r)) (s_id (w_sess w peer)))"]
      by (simp only: sendDirect_def Let_def Some e option.case prod.case refuse if_True if_False split: if_split) simp
  qed
qed

lemma serves_handleClientMessage:
  assumes "gw_inv w" and "s_authenticated (w_sess w r)"
  shows "serves w (handleClientMessage env r m w)"
proof (cases m)
  case (SetPresence p)
  have s: "serves w (upd_sess r (\<lambda>s. s\<lparr>s_presence := p\<rparr>) w)"
    by (rule serves_upd_sess) (simp add: same_login_def)
  show ?thesis
    unfolding SetPresence handleClientMessage.simps Let_def
    by (rule serves_then [OF s assms(1)]) (simp add: serves_broadcast)
next
  case (SendMessage target body)
  then show ?thesis
    using assms by (cases target) (simp_all add: serves_sendPublic serves_sendDirect serves_sendGroup)
qed (simp_all add: assms serves_sendLine serves_sendReady serves_handleCreateGroup)

lemma serves_announceReady:
  assumes "gw_inv w" and "s_authenticated (w_sess w r)"
  shows "serves w (announceReady env r w)"
proof -
  let ?w0 = "upd_sess r (\<lambda>s. s\<lparr>s_readyAnnounced := True\<rparr>) w"
  define w1 where "w1 = sendReady env r ?w0"
  define w2 where "w2 = broadcastToAll (SUserUpdate (summarize (w_sess w1 r))) (Some (s_id (w_sess w1 r))) w1"
  define w3 where "w3 = upd_sess r (\<lambda>_. snd (drainQueue (w_sess w2 r))) w2"
  have s0: "serves w ?w0" using assms(2) by (intro serves_upd_sess) (simp add: same_login_def)
  have "serves ?w0 w1" unfolding w1_def
    by (rule serves_sendReady [OF serves_inv [OF s0 assms(1)]]) (simp add: servesD(6) [OF s0] assms(2))
  with s0 have s1: "serves w w1" by (rule serves_trans)
  have "serves w1 w2" unfolding w2_def
    by (rule serves_broadcast [OF serves_inv [OF s1 assms(1)]]) simp
  moreover have "serves w2 w3" unfolding w3_def
    by (rule serves_upd_sess) (simp add: same_login_def drainQueue_def)
  ultimately have s3: "serves w w3" using s1 by (blast intro: serves_trans)
  have "serves w3 (fold (handleClientMessage env r) (fst (drainQueue (w_sess w2 r))) w3)"
    by (rule serves_fold [OF serves_inv [OF s3 assms(1)]])
      (simp add: serves_handleClientMessage servesD(6) servesD(6) [OF s3] assms(2))
  with s3 have "serves w (fold (handleClientMessage env r) (fst (drainQueue (w_sess w2 r))) w3)"
    by (rule serves_trans)
  then show ?thesis
    unfolding announceReady_def Let_def w1_def w2_def w3_def by (simp add: split_def)
qed

lemma rename_frame:
  assumes "rename db i n = Inr db'"
  shows "t_conversations db' = t_conversations db \<and> t_members db' = t_members db
    \<and> user_ids db' = user_ids db \<and> t_messages db' = t_messages db \<and> credentials db' = credentials db"
proof -
  let ?g = "\<lambda>u. if u_id u = i then u\<lparr>u_username := n\<rparr> else u"
  have db': "db' = db\<lparr>t_users := map ?g (t_users db)\<rparr>"
    using rename_Inr [OF assms] by (auto simp: update_username_def split: if_splits)
  have "u_id (?g u) = u_id u" "u_password_hash (?g u) = u_password_hash u" "u_password_salt (?g u) = u_password_salt u" for u :: UserRow
    by simp_all
  moreover have "t_users db' = map ?g (t_users db)" by (simp add: db')
  ultimately have "user_ids db' = user_ids db" "credentials db' = credentials db"
    by (simp_all only: user_ids_def credentials_def set_map image_image)
  then show ?thesis by (simp add: db')
qed

lemma credential_user: "credential u \<in> credentials db \<Longrightarrow> u_id u \<in> user_ids db"
  by (auto simp: credential_def credentials_def user_ids_def)

lemma kinds_ok_cong: "t_conversations db' = t_conversations db \<Longrightarrow> members_of db' = members_of db \<Longrightarrow> kinds_ok db' = kinds_ok db"
  by (simp only: kinds_ok_def)

lemma serves_rename:
  assumes "rename (w_db w) i n = Inr db"
  shows "serves w (w\<lparr>w_db := db\<rparr>)"
proof (rule serves_db)
  have f: "t_conversations db = t_conversations (w_db w)" "members_of db = members_of (w_db w)"
    "user_ids db = user_ids (w_db w)" "t_messages db = t_messages (w_db w)" "conv_ids db = conv_ids (w_db w)"
    "credentials db = credentials (w_db w)"
    using rename_frame [OF assms] by (simp_all add: members_of_def conv_ids_def fun_eq_iff)
  show "conv_inv db" if "conv_inv (w_db w)"
    using that rename_inv [OF _ assms] kinds_ok_cong [OF f(1,2)] by (simp add: conv_inv_def)
  show "plain_db db" if "plain_db (w_db w)" using that by (simp add: plain_db_def f)
  have "stmt (w_db w) db"
    using assms by (intro stmt_rename [of i n]) (simp add: rename_def split: option.splits if_splits)
  then show "user_ids db = user_ids (w_db w)" "db_grows (w_db w) db" by (simp_all add: f db_grows_def r_into_rtranclp)
qed

lemma serves_onWelcome:
  assumes "gw_inv w" and "s_authenticated (w_sess w r)"
  shows "serves w (onWelcome env r nick w)"
proof -
  let ?w1 = "upd_sess r (\<lambda>s. s\<lparr>s_welcomed := True, s_nickname := nick\<rparr>) w"
  have s: "serves w ?w1" using assms(2) by (intro serves_upd_sess) (simp add: same_login_def)
  have "serves ?w1 (announceReady env r ?w1)"
    by (rule serves_announceReady [OF serves_inv [OF s assms(1)]]) (simp add: servesD(6) [OF s] assms(2))
  then have "serves w (announceReady env r ?w1)" by (rule serves_trans [OF s])
  moreover have "serves w (backend_sendLine r line ?w1)" for line
    by (rule serves_trans [OF s serves_sendLine])
  ultimately show ?thesis by (simp add: onWelcome_def Let_def split: option.split)
qed

lemma serves_onNick:
  assumes "gw_inv w" and "s_authenticated (w_sess w r)"
  shows "serves w (onNick env r oldNick newNick w)"
proof -
  define w1 where "w1 = upd_sess r (\<lambda>s. s\<lparr>s_nickname := newNick,
      s_desiredUsername := (if s_desiredUsername s = Some newNick then None else s_desiredUsername s)\<rparr>) w"
  define w2 where "w2 = broadcastToAll (SUserUpdate (summarize (w_sess w1 r))) None w1"
  have s1: "serves w w1" unfolding w1_def by (rule serves_upd_sess) (simp add: same_login_def)
  have "serves w1 (announceReady env r w1)"
    by (rule serves_announceReady [OF serves_inv [OF s1 assms(1)]]) (simp add: servesD(6) [OF s1] assms(2))
  then have a: "serves w (announceReady env r w1)" by (rule serves_trans [OF s1])
  have "serves w1 w2" unfolding w2_def by (rule serves_broadcast [OF serves_inv [OF s1 assms(1)]]) simp
  then have s2: "serves w w2" by (rule serves_trans [OF s1])
  then have "serves w (case rename (w_db w2) (s_id (w_sess w2 r)) newNick of Inl _ \<Rightarrow> w2 | Inr db \<Rightarrow> w2\<lparr>w_db := db\<rparr>)"
    by (auto split: sum.split intro: serves_trans serves_rename)
  with a show ?thesis unfolding onNick_def Let_def w2_def [symmetric] w1_def [symmetric] by simp
qed

lemma serves_private:
  assumes "gw_inv w" and "s_authenticated (w_sess w r)" and "plain other"
    and e: "ensureDirect_w env (s_id (w_sess w r)) other w = (w1, c)" and "ms_conversationId m = cs_id c"
  shows "serves w (sendTo r (SMessage m) (next_tick w1))"
proof -
  note s = serves_ensureDirect [OF assms(1) authenticated_plain [OF assms(1,2)] assms(3) e]
  have t: "serves w (next_tick w1)" by (rule serves_trans [OF s(1) serves_silent(5)])
  have "serves (next_tick w1) (sendTo r (SMessage m) (next_tick w1))"
  proof (rule serves_sendTo)
    have "s_id (w_sess (next_tick w1) r) \<in> members_of (w_db (next_tick w1)) (ms_conversationId m)"
      using s(3) assms(5) by (simp only: servesD(5) [OF t]) (simp add: next_tick_def)
    then show "audience_ok (members_of (w_db (next_tick w1))) (next_tick w1) (Sent r (SMessage m))"
      by (auto simp: answers_to_def)
  qed (simp add: servesD(6) [OF t] assms(2))
  with t show ?thesis by (rule serves_trans)
qed

lemma id_by_nickname_plain:
  assumes "gw_inv w" and "id_by_nickname w n = Some i"
  shows "plain i"
proof -
  obtain q where q: "findByNickname (w_sess w) (w_roster w) n = Some q" and i: "i = s_id (w_sess w q)"
    using assms(2) by (auto simp: id_by_nickname_def)
  have "s_welcomed (w_sess w q)" using findByNickname_Some [OF q] by simp
  then show ?thesis unfolding i by (intro authenticated_plain [OF assms(1)] welcomed_authenticated [OF assms(1)])
qed

lemma serves_onPriv:
  assumes "gw_inv w" and "s_authenticated (w_sess w r)" and "plain n"
  shows "serves w (onPriv env r n text w)" "serves w (onPrivSent env r n text w)"
proof -
  let ?o = "case id_by_nickname w n of None \<Rightarrow> n | Some i \<Rightarrow> i"
  have p: "plain ?o" using assms(3) id_by_nickname_plain [OF assms(1)] by (simp split: option.split)
  obtain w1 c where e: "ensureDirect_w env (s_id (w_sess w r)) ?o w = (w1, c)"
    by (cases "ensureDirect_w env (s_id (w_sess w r)) ?o w")
  have "ms_conversationId (live_message env w1 (cs_id c) a b text) = cs_id c" for a b
    by (simp add: live_message_def)
  note s = serves_private [OF assms(1,2) p e this]
  show "serves w (onPriv env r n text w)" "serves w (onPrivSent env r n text w)"
    by (simp_all only: onPriv_def onPrivSent_def Let_def e prod.case s)
qed

lemma serves_onBackendEvent:
  assumes "gw_inv w" and "s_authenticated (w_sess w r)" and "names_plain e"
  shows "serves w (onBackendEvent env r e w)"
proof (cases e)
  case (EvMsg sender body)
  let ?m = "live_message env w PUBLIC_CONVERSATION_ID (id_by_nickname w sender) sender body"
  have "serves (next_tick w) (sendTo r (SMessage ?m) (next_tick w))"
    using assms(2) by (intro serves_sendTo) (simp_all add: next_tick_def live_message_def)
  then show ?thesis by (simp add: EvMsg) (rule serves_trans [OF serves_silent(5)])
next
  case (EvErr code body)
  then show ?thesis
    by (auto simp: onErr_def serves_error intro!: serves_trans [OF serves_error serves_ws_close])
qed (insert assms, simp_all add: serves_onWelcome serves_onNick serves_onPriv)

subsection \<open>The events of the server\<close>

lemma serves_events:
  assumes "gw_inv w" and "s_authenticated (w_sess w r)" and "\<forall>e \<in> set evs. names_plain e"
  shows "serves w (fold (onBackendEvent env r) evs w)"
  using assms by (intro serves_fold [OF assms(1)]) (simp add: serves_onBackendEvent servesD(6))

lemma serves_on_backend_data:
  assumes "gw_inv w" and "c < w_nconn w" and "\<forall>e \<in> set (data_events c chunk w). names_plain e"
  shows "serves w (on_backend_data env c chunk w)"
proof -
  obtain b evs big where d: "on_data chunk (w_conn w c) = (b, evs, big)"
    by (cases "on_data chunk (w_conn w c)") auto
  have b: "bc_session b = bc_session (w_conn w c)" "bc_socket b = bc_socket (w_conn w c)"
    using d by (auto simp: on_data_def Let_def split: prod.splits)
  have auth: "s_authenticated (w_sess w (bc_session (w_conn w c)))"
    using assms(1,2) by (simp add: gw_inv_def conns_inv_def)
  have s: "serves w (upd_conn c (\<lambda>_. b) w)" (is "serves w ?w0") by (rule serves_upd_conn) (simp_all add: b)
  let ?w1 = "fold (onBackendEvent env (bc_session b)) evs ?w0"
  have "serves ?w0 ?w1"
    by (rule serves_events [OF serves_inv [OF s assms(1)]])
      (use assms(3) auth in \<open>simp_all add: data_events_def d b servesD(6) [OF s]\<close>)
  with s have s1: "serves w ?w1" by (rule serves_trans)
  obtain b' x where cl: "close (w_conn ?w1 c) = (b', x)" by (cases "close (w_conn ?w1 c)")
  from serves_trans [OF s1 serves_conn_close [OF cl]] s1 show ?thesis
    by (simp only: on_backend_data_def Let_def d prod.case cl if_True if_False simp_thms split: if_split)
qed

lemma on_close_frame: "on_close b = (b', e) \<Longrightarrow> bc_socket b \<noteq> NoSocket \<Longrightarrow> bc_session b' = bc_session b \<and> bc_socket b' \<noteq> NoSocket"
  by (auto simp: on_close_def split: if_splits)

lemma serves_on_backend_close:
  assumes "bc_socket (w_conn w c) \<noteq> NoSocket"
  shows "serves w (on_backend_close c w)"
proof -
  obtain b e where d: "on_close (w_conn w c) = (b, e)" by (cases "on_close (w_conn w c)")
  have s: "serves w (upd_conn c (\<lambda>_. b) w)"
    by (rule serves_upd_conn) (simp_all add: on_close_frame [OF d assms] assms)
  have "serves v (onBackendClosed r v)" for r v
    by (auto simp: onBackendClosed_def intro!: serves_trans [OF serves_error serves_ws_close])
  then have "serves w (onBackendClosed r (upd_conn c (\<lambda>_. b) w))" for r by (rule serves_trans [OF s])
  with s show ?thesis by (simp only: on_backend_close_def Let_def d prod.case split: if_split) simp
qed

lemma serves_onClientClosed:
  assumes "gw_inv w"
  shows "serves w (onClientClosed r w)"
proof -
  define w1 where "w1 = upd_sess r (\<lambda>s. s\<lparr>s_closed := True\<rparr>) w"
  define w2 where "w2 = backend_close r w1"
  define w3 where "w3 = w2\<lparr>w_roster := roster_remove (s_id (w_sess w2 r)) (w_roster w2)\<rparr>"
  have s1: "serves w w1" unfolding w1_def by (rule serves_upd_sess) (simp add: same_login_def)
  have "serves w1 w2" unfolding w2_def by (rule serves_backend_close)
  moreover have "serves w2 w3" unfolding w3_def by (rule serves_roster_remove)
  ultimately have s3: "serves w w3" using s1 by (blast intro: serves_trans)
  have "serves w3 (broadcastToAll (SUserOffline i) ex w3)" for i ex
    by (rule serves_broadcast [OF serves_inv [OF s3 assms]]) simp
  then have "serves w (broadcastToAll (SUserOffline i) ex w3)" for i ex by (rule serves_trans [OF s3])
  with s1 s3 show ?thesis
    unfolding onClientClosed_def Let_def w1_def [symmetric] w2_def [symmetric] w3_def [symmetric] by simp
qed

lemma serves_server_close: "gw_inv w \<Longrightarrow> serves w (server_close w)"
  unfolding server_close_def
  by (rule serves_fold) (auto intro: serves_trans serves_backend_close serves_ws_close)

lemma serves_unavailable: "serves w (handleAuth_unavailable r w)"
  unfolding handleAuth_unavailable_def Let_def
  by (rule serves_trans [OF serves_trans [OF serves_error serves_ws_close] serves_roster_remove]) simp

lemma serves_handleLogout: "serves w (handleLogout r w)"
  unfolding handleLogout_def
  by (auto simp: serves_error intro!: serves_trans [OF serves_sendTo serves_ws_close])

lemma serves_auth_failed: "serves w (auth_failed r reg e w)"
  by (simp add: auth_failed_def serves_error)

lemma handleAuth_start_cases:
  "serves w (handleAuth_start r reg u p w) \<or>
   (\<exists>j. handleAuth_start r reg u p w = w\<lparr>w_jobs := w_jobs w @ [j]\<rparr> \<and> job_session j = r
      \<and> \<not> s_authenticated (w_sess w r) \<and> (r < w_nsess w \<longrightarrow> job_ok w j))"
  by (auto simp: handleAuth_start_def serves_error serves_auth_failed credentials_def credential_def split: option.split
      dest!: row_by_username_Some)

lemma onClientMessage_cases:
  assumes "gw_inv w"
  shows "serves w (onClientMessage env r m w) \<or>
   (\<exists>j. onClientMessage env r m w = w\<lparr>w_jobs := w_jobs w @ [j]\<rparr> \<and> job_session j = r
      \<and> \<not> s_authenticated (w_sess w r) \<and> (r < w_nsess w \<longrightarrow> job_ok w j))"
proof -
  have q: "serves w (upd_sess r (queueUntilReady m) w)"
    by (rule serves_upd_sess) (simp add: same_login_def queueUntilReady_def)
  have h: "s_authenticated (w_sess w r) \<Longrightarrow> serves w (handleClientMessage env r m w)"
    by (rule serves_handleClientMessage [OF assms])
  from q h have "serves w (if \<not> s_authenticated (w_sess w r) \<or> \<not> s_welcomed (w_sess w r)
      then upd_sess r (queueUntilReady m) w else handleClientMessage env r m w)"
    by (simp split: if_split)
  then show ?thesis
    using handleAuth_start_cases [of w r]
    by (cases m) (simp_all only: onClientMessage_def ClientMessage.case simp_thms serves_handleLogout)
qed

lemma onClientRaw_cases:
  assumes "gw_inv w"
  shows "serves w (onClientRaw env r raw w) \<or>
   (\<exists>j. onClientRaw env r raw w = w\<lparr>w_jobs := w_jobs w @ [j]\<rparr> \<and> job_session j = r
      \<and> \<not> s_authenticated (w_sess w r) \<and> (r < w_nsess w \<longrightarrow> job_ok w j))"
  unfolding onClientRaw_def
  using onClientMessage_cases [OF assms, of env r]
  by (simp add: serves_error split: option.split ValidationResult.split)

end
