(* ===== verification/GatewaySafety.thy ===== *)
theory GatewaySafety
  imports GatewayInv
begin

section \<open>Safety of the gateway: authentication gate, privacy, accounts\<close>

text \<open>
  Every step of the server keeps the invariant \<open>gw_inv\<close>; the interface \<open>invariant_system\<close>
  carries it to all reachable states.  The properties read off it: nothing but errors reaches
  a socket that is not logged in, a conversation reaches its members only, and the only way
  to be logged in is a finished registration or a password that verifies.
\<close>

subsection \<open>Authentication steps\<close>

lemma gw_inv_jobs: "gw_inv w \<Longrightarrow> \<forall>j \<in> set jobs. job_ok w j \<Longrightarrow> gw_inv (w\<lparr>w_jobs := jobs\<rparr>)"
proof -
  have "job_ok (w\<lparr>w_jobs := jobs\<rparr>) j = job_ok w j" for j by (cases j) simp_all
  then show "gw_inv w \<Longrightarrow> \<forall>j \<in> set jobs. job_ok w j \<Longrightarrow> gw_inv (w\<lparr>w_jobs := jobs\<rparr>)"
    by (simp add: gw_inv_def sessions_inv_def conns_inv_def roster_inv_def gate_ok_def)
qed

lemma register_insert_after:
  assumes "conv_inv db" and "plain_db db" and "plain uuid"
    and "register_insert kdf salt uuid now db n p = Inr (db', acc)"
  shows "conv_inv db'" "plain_db db'" "user_ids db' = insert uuid (user_ids db)" "ur_id acc = uuid"
    and "members_of db' = members_of db" "ur_username acc = n" "credentials db \<subseteq> credentials db'"
proof -
  obtain u where i: "insert_user u db = Inr db'" and u: "u_id u = uuid" "ur_id acc = uuid" "ur_username acc = n"
    using register_insert_Inr [OF assms(4)] by blast
  have f: "t_users db' = t_users db @ [u]" "t_conversations db' = t_conversations db" "t_members db' = t_members db"
    using i by (auto simp: insert_user_def split: if_splits)
  have m: "members_of db' = members_of db" by (simp add: members_of_def f fun_eq_iff)
  show "credentials db \<subseteq> credentials db'" by (auto simp: credentials_def f)
  show "members_of db' = members_of db" "ur_id acc = uuid" "ur_username acc = n" by (simp_all add: m u)
  show "user_ids db' = insert uuid (user_ids db)" by (simp add: user_ids_def f u)
  then show "plain_db db'" using assms(2,3) by (simp add: plain_db_def m)
  show "conv_inv db'"
    using assms(1) register_insert_inv [OF _ assms(4)] kinds_ok_cong [OF f(2) m] by (simp add: conv_inv_def)
qed

lemma gw_inv_users:
  assumes "gw_inv w" and "conv_inv db" and "plain_db db" and "user_ids (w_db w) \<subseteq> user_ids db"
    and "credentials (w_db w) \<subseteq> credentials db"
  shows "gw_inv (next_tick w\<lparr>w_db := db\<rparr>)"
proof -
  have "job_ok w j \<Longrightarrow> job_ok (next_tick w\<lparr>w_db := db\<rparr>) j" for j
    using assms(5) by (cases j) (auto simp: next_tick_def)
  with assms show ?thesis
    by (auto simp: gw_inv_def sessions_inv_def conns_inv_def roster_inv_def gate_ok_def next_tick_def)
qed

lemma set_alist_update: "set (AList.update k v al) \<subseteq> insert (k, v) (set al)"
  by (induction al) auto

lemma handleAuth_account_inv:
  assumes "gw_inv w" and "r < w_nsess w" and "ur_id acc \<in> user_ids (w_db w)"
  shows "gw_inv (handleAuth_account env r acc w)"
proof (cases "case roster_get (w_roster w) (ur_id acc) of None \<Rightarrow> False | Some q \<Rightarrow> \<not> s_closed (w_sess w q)")
  case True
  then have e: "handleAuth_account env r acc w = sendTo r (error_msg ''ALREADY_LOGGED_IN'' (js ''This account is already connected elsewhere.'')) w"
    by (simp only: handleAuth_account_def if_True)
  have "serves w (handleAuth_account env r acc w)" unfolding e by (simp add: serves_error)
  from serves_inv [OF this assms(1)] show ?thesis .
next
  case False
  define w' where "w' = handleAuth_account env r acc w"
  let ?s = "(w_sess w r)\<lparr>s_id := ur_id acc, s_authenticated := True, s_desiredUsername := Some (ur_username acc),
      s_backend := Some (w_nconn w)\<rparr>"
  have f: "w_sess w' = (w_sess w)(r := ?s)"
    "w_conn w' = (w_conn w)(w_nconn w := connect (new_BackendConnection r (e_backendMaxMessageBytes env)))"
    "w_nconn w' = Suc (w_nconn w)" "w_nsess w' = w_nsess w" "w_db w' = w_db w" "w_jobs w' = w_jobs w"
    "w_roster w' = AList.update (ur_id acc) r (w_roster w)" "w_out w' = w_out w @ [Dial (w_nconn w)]"
    using False by (simp_all add: w'_def handleAuth_account_def Let_def emit_def upd_conn_def upd_sess_def
        roster_add_def fun_upd_def cong: if_cong)
  have auth: "s_authenticated (w_sess w q) \<Longrightarrow> s_authenticated (w_sess w' q)" for q by (simp add: f)
  from assms(1) have inv: "conv_inv (w_db w)" "plain_db (w_db w)" "sessions_inv w" "conns_inv w" "roster_inv w"
    "\<forall>j \<in> set (w_jobs w). job_ok w j" "\<forall>e \<in> set (w_out w). gate_ok w e"
    by (simp_all add: gw_inv_def)
  have "sessions_inv w'"
    unfolding sessions_inv_def
  proof
    fix q
    from spec [OF inv(3) [unfolded sessions_inv_def], of q] show "if s_authenticated (w_sess w' q)
      then q < w_nsess w' \<and> s_id (w_sess w' q) \<in> user_ids (w_db w') \<and> s_backend (w_sess w' q) \<noteq> None
      else s_backend (w_sess w' q) = None \<and> \<not> s_welcomed (w_sess w' q) \<and> \<not> s_readyAnnounced (w_sess w' q)"
      by (cases "q = r") (simp_all add: f assms(2,3))
  qed
  moreover have "conns_inv w'"
    unfolding conns_inv_def
  proof (intro conjI allI impI)
    fix c assume "c < w_nconn w'"
    then show "s_authenticated (w_sess w' (bc_session (w_conn w' c)))" "bc_socket (w_conn w' c) \<noteq> NoSocket"
      using inv(4) auth by (auto simp: f conns_inv_def less_Suc_eq connect_def new_BackendConnection_def)
  next
    fix q c assume "s_backend (w_sess w' q) = Some c"
    then show "c < w_nconn w'" "bc_session (w_conn w' c) = q"
      using inv(4) by (auto simp: f conns_inv_def connect_def new_BackendConnection_def less_SucI split: if_splits)
  qed
  moreover have "roster_inv w'"
  proof -
    have "s_authenticated (w_sess w' q) \<and> i \<in> user_ids (w_db w')" if "(i, q) \<in> set (w_roster w')" for i q
      using that set_alist_update inv(5) assms(3) auth by (fastforce simp: f roster_inv_def)
    moreover have "roster_wf (w_roster w')"
      using inv(5) by (simp add: f roster_inv_def roster_wf_def alist.wf_put del: distinct_map)
    ultimately show ?thesis by (auto simp: roster_inv_def)
  qed
  moreover have "\<forall>j \<in> set (w_jobs w'). job_ok w' j"
  proof (intro ballI)
    fix j assume "j \<in> set (w_jobs w')"
    with inv(6) have "job_ok w j" by (simp add: f)
    then show "job_ok w' j" by (cases j) (simp_all add: f)
  qed
  moreover have "\<forall>e \<in> set (w_out w'). gate_ok w' e"
  proof
    fix e assume "e \<in> set (w_out w')"
    then consider "gate_ok w e" | "e = Dial (w_nconn w)" using inv(7) by (auto simp: f)
    then show "gate_ok w' e"
    proof cases
      case 1
      from gate_keep [OF this inv(4) auth] show ?thesis by (simp add: f)
    qed (simp add: gate_ok_def)
  qed
  ultimately show ?thesis using inv(1,2) unfolding w'_def [symmetric] gw_inv_def by (simp add: f)
qed

lemma handleAuth_resume_inv:
  assumes "gw_inv w" and "uuids_plain env" and "job_ok w j"
  shows "gw_inv (handleAuth_resume env j w)"
proof (cases j)
  case (HashJob r n p)
  let ?reg = "register_insert (e_kdf env) (e_salt env (w_tick w)) (e_uuid env (w_tick w)) (e_clock env (w_tick w)) (w_db w) n p"
  show ?thesis
  proof (cases ?reg)
    case (Inl e)
    with assms(1) show ?thesis by (auto simp: HashJob intro: serves_inv serves_auth_failed)
  next
    case (Inr q)
    then obtain db acc where q: "?reg = Inr (db, acc)" by (cases q) auto
    have "conv_inv (w_db w)" "plain_db (w_db w)" "plain (e_uuid env (w_tick w))"
      using assms(1,2) by (simp_all add: gw_inv_def uuids_plain_def)
    note a = register_insert_after [OF this q]
    have "gw_inv (next_tick w\<lparr>w_db := db\<rparr>)" using a by (intro gw_inv_users [OF assms(1)]) auto
    then have "gw_inv (handleAuth_account env r acc (next_tick w\<lparr>w_db := db\<rparr>))"
      by (rule handleAuth_account_inv) (use assms(3) a HashJob in \<open>simp_all add: next_tick_def\<close>)
    with q show ?thesis by (simp add: HashJob)
  qed
next
  case (VerifyJob r row p)
  show ?thesis
  proof (cases "login_verify (e_kdf env) row p")
    case None
    with assms(1) show ?thesis by (auto simp: VerifyJob intro: serves_inv serves_auth_failed)
  next
    case (Some acc)
    then have "ur_id acc = u_id row" by (auto simp: login_verify_def to_record_def split: if_splits)
    with Some assms show ?thesis by (auto simp: VerifyJob credential_user intro: handleAuth_account_inv)
  qed
qed

lemma onConnection_inv:
  assumes "gw_inv w"
  shows "gw_inv (onConnection env w)"
proof -
  let ?w = "onConnection env w" and ?s = "new_Session (e_uuid env (w_tick w))"
  have f: "w_sess ?w = (w_sess w)(w_nsess w := ?s)" "w_nsess ?w = Suc (w_nsess w)" "w_conn ?w = w_conn w"
    "w_nconn ?w = w_nconn w" "w_db ?w = w_db w" "w_jobs ?w = w_jobs w" "w_roster ?w = w_roster w" "w_out ?w = w_out w"
    by (simp_all add: onConnection_def next_tick_def Let_def)
  have s: "\<not> s_authenticated ?s" "s_backend ?s = None" "\<not> s_welcomed ?s" "\<not> s_readyAnnounced ?s"
    by (simp_all add: new_Session_def)
  have inv: "sessions_inv w" "conns_inv w" "roster_inv w" "\<forall>j \<in> set (w_jobs w). job_ok w j" "\<forall>e \<in> set (w_out w). gate_ok w e"
    using assms by (simp_all add: gw_inv_def)
  have old: "s_authenticated (w_sess w q) \<Longrightarrow> q \<noteq> w_nsess w" for q
    using inv(1) unfolding sessions_inv_def by (metis less_irrefl)
  have "sessions_inv ?w"
    unfolding sessions_inv_def
  proof
    fix q
    from spec [OF inv(1) [unfolded sessions_inv_def], of q] show "if s_authenticated (w_sess ?w q)
      then q < w_nsess ?w \<and> s_id (w_sess ?w q) \<in> user_ids (w_db ?w) \<and> s_backend (w_sess ?w q) \<noteq> None
      else s_backend (w_sess ?w q) = None \<and> \<not> s_welcomed (w_sess ?w q) \<and> \<not> s_readyAnnounced (w_sess ?w q)"
      by (cases "q = w_nsess w") (simp_all add: f s less_SucI split: if_split_asm)
  qed
  moreover have "conns_inv ?w" using inv(2) old by (fastforce simp: conns_inv_def f s)
  moreover have "roster_inv ?w" using inv(3) old by (fastforce simp: roster_inv_def f)
  moreover have "job_ok ?w j" if "j \<in> set (w_jobs ?w)" for j
    using inv(4) that by (cases j) (fastforce simp: f)+
  moreover have "gate_ok ?w e" if "e \<in> set (w_out ?w)" for e
  proof -
    have "gate_ok w e" using inv(5) that by (simp add: f)
    from gate_keep [OF this inv(2), of ?w] old show ?thesis by (simp add: f)
  qed
  ultimately show ?thesis using assms by (simp add: gw_inv_def f)
qed

subsection \<open>Every step keeps the invariant\<close>

lemma job_added: "gw_inv w \<Longrightarrow> job_ok w j \<Longrightarrow> gw_inv (w\<lparr>w_jobs := w_jobs w @ [j]\<rparr>)"
  by (rule gw_inv_jobs) (auto simp: gw_inv_def)

lemma serves_connected: "bc_socket (w_conn w c) = Connecting \<Longrightarrow> serves w (upd_conn c on_connected w)"
  "bc_socket (w_conn w c) = Connecting \<Longrightarrow> serves w (upd_conn c onConnectError w)"
  "serves w (upd_conn c (\<lambda>b. b\<lparr>bc_unacked := n\<rparr>) w)"
  by (rule serves_upd_conn; simp add: on_connected_def onConnectError_def)+

text \<open>Apart from a new client, a new job and the end of a job, every step only serves.\<close>

lemma step_cases:
  assumes "gateway_step env w w'" and "gw_inv w"
  obtains (serves) "serves w w'"
  | (accept) "w' = onConnection env w"
  | (job) j where "w' = w\<lparr>w_jobs := w_jobs w @ [j]\<rparr>" "job_ok w j" "\<not> s_authenticated (w_sess w (job_session j))"
  | (resume) js ks j where "w_jobs w = js @ j # ks" "w' = handleAuth_resume env j (w\<lparr>w_jobs := js @ ks\<rparr>)"
  using assms(1)
proof (cases rule: gateway_step.cases)
  case (client_message r raw)
  with onClientRaw_cases [OF assms(2), of env r raw] serves job show ?thesis by auto
next
  case (client_closed r)
  have s: "serves w (upd_sess r (\<lambda>s. s\<lparr>s_ws := WsClosed\<rparr>) w)" by (rule serves_upd_sess) (simp add: same_login_def)
  show ?thesis
    by (rule serves, unfold client_closed(1)) (rule serves_then [OF s assms(2) serves_onClientClosed])
next
  case (connect_failed c)
  show ?thesis
    by (rule serves, unfold connect_failed(1)) (rule serves_trans [OF serves_connected(2) [OF connect_failed(4)] serves_unavailable])
next
  case (backend_data c chunk)
  then show ?thesis using assms(2) by (auto intro: serves serves_on_backend_data)
next
  case (backend_closed c)
  then have "bc_socket (w_conn w c) \<noteq> NoSocket" by auto
  then show ?thesis unfolding backend_closed(1) by (intro serves [unfolded backend_closed(1)] serves_on_backend_close)
next
  case shutdown
  then show ?thesis using assms(2) by (auto intro: serves serves_server_close)
qed (auto intro: serves serves_connected accept resume)

lemma step_inv:
  assumes "uuids_plain env" and "gateway_step env w w'" and "gw_inv w"
  shows "gw_inv w'"
  using assms(2,3)
proof (cases rule: step_cases)
  case serves
  then show ?thesis using assms(3) by (rule serves_inv)
next
  case accept
  then show ?thesis using assms(3) by (simp add: onConnection_inv)
next
  case (job j)
  then show ?thesis using assms(3) by (simp add: job_added)
next
  case (resume js ks j)
  have ok: "\<forall>j \<in> set (js @ j # ks). job_ok w j" using assms(3) resume(1) by (simp add: gw_inv_def)
  then have "gw_inv (w\<lparr>w_jobs := js @ ks\<rparr>)" by (intro gw_inv_jobs [OF assms(3)]) simp
  moreover have "job_ok (w\<lparr>w_jobs := js @ ks\<rparr>) j" using ok by (cases j) simp_all
  ultimately show ?thesis using assms(1) by (simp add: resume(2) handleAuth_resume_inv)
qed

lemma init_inv: "gateway_init w \<Longrightarrow> gw_inv w"
  by (simp add: gateway_init_def gw_inv_def sessions_inv_def conns_inv_def roster_inv_def roster_wf_def new_Session_def)

interpretation gateway: invariant_system gateway_init "gateway_step env" "\<lambda>w. uuids_plain env \<longrightarrow> gw_inv w" for env
  by unfold_locales (simp_all add: init_inv step_inv)

lemma reachable_inv: "uuids_plain env \<Longrightarrow> gateway_init w0 \<Longrightarrow> (gateway_step env)\<^sup>*\<^sup>* w0 w \<Longrightarrow> gw_inv w"
  using gateway.inv_reachable by blast

subsection \<open>What a step sends\<close>

lemma account_out:
  "\<exists>es. w_out (handleAuth_account env r acc w) = w_out w @ es \<and> (\<forall>e \<in> set es. (\<exists>c. e = Dial c) \<or> (\<exists>q m. e = Sent q m \<and> is_error m))"
  by (simp add: handleAuth_account_def Let_def emit_def upd_conn_def upd_sess_def sendTo_def)

lemma resume_out:
  "\<exists>es. w_out (handleAuth_resume env j w) = w_out w @ es \<and> (\<forall>e \<in> set es. (\<exists>c. e = Dial c) \<or> (\<exists>q m. e = Sent q m \<and> is_error m))"
proof -
  have f: "\<exists>es. w_out (auth_failed q b e w) = w_out w @ es \<and> (\<forall>e \<in> set es. (\<exists>c. e = Dial c) \<or> (\<exists>q m. e = Sent q m \<and> is_error m))" for q b e
    by (simp add: auth_failed_def sendTo_def emit_def)
  have a: "\<exists>es. w_out (handleAuth_account env q acc (next_tick w\<lparr>w_db := db\<rparr>)) = w_out w @ es
      \<and> (\<forall>e \<in> set es. (\<exists>c. e = Dial c) \<or> (\<exists>q m. e = Sent q m \<and> is_error m))" for q acc db
    using account_out [of env q acc "next_tick w\<lparr>w_db := db\<rparr>"] by (simp add: next_tick_def)
  show ?thesis
    by (cases j) (simp_all add: f a account_out split: sum.split option.split prod.split)
qed

lemma audience_error: "is_error m \<Longrightarrow> audience_ok members w (Sent r m)"
  by (cases m) simp_all

lemma step_out:
  assumes "gateway_step env w w'" and "gw_inv w"
  shows "\<exists>es. w_out w' = w_out w @ es \<and> (\<forall>e \<in> set es. gate_ok w e \<and> audience_ok (members_of (w_db w')) w e)"
  using assms
proof (cases rule: step_cases)
  case serves
  then show ?thesis unfolding serves_def by blast
next
  case (resume js ks j)
  obtain es where es: "w_out w' = w_out w @ es" "\<forall>e \<in> set es. (\<exists>c. e = Dial c) \<or> (\<exists>q m. e = Sent q m \<and> is_error m)"
    using resume_out [of env j "w\<lparr>w_jobs := js @ ks\<rparr>"] by (auto simp: resume(2))
  then have "\<forall>e \<in> set es. gate_ok w e \<and> audience_ok (members_of (w_db w')) w e"
    by (auto simp: gate_ok_def audience_error)
  with es(1) show ?thesis by blast
qed (simp_all add: onConnection_def next_tick_def Let_def)

subsection \<open>Clients that authenticate one attempt at a time\<close>

text \<open>\<open>handleAuth\<close> checks \<open>session.authenticated\<close> before its first await and not again, so a
  client with two attempts in flight can log in twice on one socket.  These are the steps in
  which no socket has two.\<close>

definition one_login :: "World \<Rightarrow> bool" where
  "one_login w \<longleftrightarrow> distinct (map job_session (w_jobs w))"

definition orderly_step :: "Env \<Rightarrow> World \<Rightarrow> World \<Rightarrow> bool" where
  "orderly_step env w w' \<longleftrightarrow> gateway_step env w w' \<and> one_login w'"

definition orderly_inv :: "World \<Rightarrow> bool" where
  "orderly_inv w \<longleftrightarrow> gw_inv w \<and> one_login w
     \<and> (\<forall>j \<in> set (w_jobs w). \<not> s_authenticated (w_sess w (job_session j)))
     \<and> (\<forall>(i, r) \<in> set (w_roster w). s_id (w_sess w r) = i)"

lemma orderly_answers: "orderly_inv w \<Longrightarrow> answers_to w r i \<Longrightarrow> s_id (w_sess w r) = i"
  by (auto simp: orderly_inv_def answers_to_def)

lemma account_orderly:
  assumes "gw_inv w" and "\<not> s_authenticated (w_sess w r)"
    and "\<forall>j \<in> set (w_jobs w). job_session j \<noteq> r \<and> \<not> s_authenticated (w_sess w (job_session j))"
    and "\<forall>(i, q) \<in> set (w_roster w). s_id (w_sess w q) = i"
  shows "(\<forall>j \<in> set (w_jobs (handleAuth_account env r acc w)). \<not> s_authenticated (w_sess (handleAuth_account env r acc w) (job_session j)))
    \<and> (\<forall>(i, q) \<in> set (w_roster (handleAuth_account env r acc w)). s_id (w_sess (handleAuth_account env r acc w) q) = i)"
proof (cases "case roster_get (w_roster w) (ur_id acc) of None \<Rightarrow> False | Some q \<Rightarrow> \<not> s_closed (w_sess w q)")
  case True
  then have e: "handleAuth_account env r acc w = sendTo r (error_msg ''ALREADY_LOGGED_IN'' (js ''This account is already connected elsewhere.'')) w"
    by (simp only: handleAuth_account_def if_True)
  show ?thesis using assms(3,4) unfolding e by (simp add: sendTo_def emit_def)
next
  case False
  let ?w = "handleAuth_account env r acc w"
  have f: "w_sess ?w q = (if q = r then (w_sess w r)\<lparr>s_id := ur_id acc, s_authenticated := True,
        s_desiredUsername := Some (ur_username acc), s_backend := Some (w_nconn w)\<rparr> else w_sess w q)"
    "w_jobs ?w = w_jobs w" "w_roster ?w = AList.update (ur_id acc) r (w_roster w)" for q
    using False by (simp_all add: handleAuth_account_def Let_def emit_def upd_conn_def upd_sess_def
        roster_add_def cong: if_cong)
  have "q \<noteq> r" if "(i, q) \<in> set (w_roster w)" for i q
    using that assms(1,2) by (auto simp: gw_inv_def roster_inv_def)
  then have "s_id (w_sess ?w q) = i" if "(i, q) \<in> set (w_roster ?w)" for i q
    using that set_alist_update assms(4) by (fastforce simp: f)
  then have "\<forall>(i, q) \<in> set (w_roster ?w). s_id (w_sess ?w q) = i" by blast
  moreover have "\<forall>j \<in> set (w_jobs ?w). \<not> s_authenticated (w_sess ?w (job_session j))"
    using assms(3) by (simp add: f)
  ultimately show ?thesis by blast
qed

lemma orderly_step_inv:
  assumes "uuids_plain env" and "orderly_step env w w'" and inv: "orderly_inv w"
  shows "orderly_inv w'"
proof -
  have st: "gateway_step env w w'" and one: "one_login w'" using assms(2) by (simp_all add: orderly_step_def)
  have gi: "gw_inv w" using inv by (simp add: orderly_inv_def)
  have gi': "gw_inv w'" by (rule step_inv [OF assms(1) st gi])
  have "(\<forall>j \<in> set (w_jobs w'). \<not> s_authenticated (w_sess w' (job_session j))) \<and> (\<forall>(i, q) \<in> set (w_roster w'). s_id (w_sess w' q) = i)"
    using st gi
  proof (cases rule: step_cases)
    case serves
    have "s_id (w_sess w' q) = i" if "(i, q) \<in> set (w_roster w')" for i q
      using that servesD(10) [OF serves] inv by (auto simp: orderly_inv_def servesD(5) [OF serves])
    then show ?thesis
      using inv by (auto simp: orderly_inv_def servesD(3) [OF serves] servesD(6) [OF serves])
  next
    case accept
    have "q \<noteq> w_nsess w" if "s_authenticated (w_sess w q)" for q
      using that gi unfolding gw_inv_def sessions_inv_def by (metis less_irrefl)
    then have "q \<noteq> w_nsess w" if "(i, q) \<in> set (w_roster w)" for i q
      using that gi by (auto simp: gw_inv_def roster_inv_def)
    then show ?thesis using inv unfolding accept
      by (auto simp: orderly_inv_def onConnection_def Let_def next_tick_def new_Session_def)
  next
    case (job j)
    with inv show ?thesis by (auto simp: orderly_inv_def)
  next
    case (resume js ks j)
    let ?w = "w\<lparr>w_jobs := js @ ks\<rparr>"
    have d: "distinct (map job_session (js @ j # ks))" using inv resume(1) by (simp add: orderly_inv_def one_login_def)
    have a: "\<not> s_authenticated (w_sess w (job_session j'))" if "j' \<in> set (js @ j # ks)" for j'
      using inv that unfolding orderly_inv_def resume(1) by blast
    have jobs: "\<forall>j' \<in> set (js @ ks). job_session j' \<noteq> job_session j \<and> \<not> s_authenticated (w_sess w (job_session j'))"
      using d a by (auto simp: image_iff)
    have ros: "\<forall>(i, q) \<in> set (w_roster w). s_id (w_sess w q) = i" using inv by (simp add: orderly_inv_def)
    have ok: "\<forall>j' \<in> set (js @ ks). job_ok w j'" using gi resume(1) by (simp add: gw_inv_def)
    have gw: "gw_inv ?w" using gi ok by (rule gw_inv_jobs)
    show ?thesis
    proof (cases j)
      case (HashJob r n p)
      let ?reg = "register_insert (e_kdf env) (e_salt env (w_tick w)) (e_uuid env (w_tick w)) (e_clock env (w_tick w)) (w_db w) n p"
      show ?thesis
      proof (cases ?reg)
        case (Inl e)
        then show ?thesis using jobs ros by (simp add: resume(2) HashJob auth_failed_def sendTo_def emit_def)
      next
        case (Inr q)
        then obtain db acc where q: "?reg = Inr (db, acc)" by (cases q) auto
        have "conv_inv (w_db w)" "plain_db (w_db w)" "plain (e_uuid env (w_tick w))"
          using gi assms(1) by (simp_all add: gw_inv_def uuids_plain_def)
        note ra = register_insert_after [OF this q]
        have "gw_inv (next_tick ?w\<lparr>w_db := db\<rparr>)" using ra by (intro gw_inv_users [OF gw]) auto
        from account_orderly [OF this, of r env acc] show ?thesis
          using jobs ros a [of j] by (simp add: resume(2) HashJob q next_tick_def)
      qed
    next
      case (VerifyJob r row p)
      show ?thesis
      proof (cases "login_verify (e_kdf env) row p")
        case None
        then show ?thesis using jobs ros by (simp add: resume(2) VerifyJob auth_failed_def sendTo_def emit_def)
      next
        case (Some acc)
        from account_orderly [OF gw, of r env acc] show ?thesis
          using jobs ros a [of j] by (simp add: resume(2) VerifyJob Some)
      qed
    qed
  qed
  with gi' one show ?thesis by (simp add: orderly_inv_def)
qed

interpretation orderly: invariant_system gateway_init "orderly_step env" "\<lambda>w. uuids_plain env \<longrightarrow> orderly_inv w" for env
proof unfold_locales
  show "uuids_plain env \<longrightarrow> orderly_inv w" if "gateway_init w" for w
    using init_inv [OF that] that by (simp add: orderly_inv_def one_login_def gateway_init_def)
qed (blast intro: orderly_step_inv)

end
