(* ===== verification/GatewayProps.thy ===== *)
theory GatewayProps
  imports GatewaySafety
begin

section \<open>The properties of the gateway\<close>

subsection \<open>The tables\<close>

lemma account_db: "w_db (handleAuth_account env r acc w) = w_db w"
  by (simp add: handleAuth_account_def Let_def emit_def upd_conn_def upd_sess_def sendTo_def)

lemma resume_grows: "db_grows (w_db w) (w_db (handleAuth_resume env j w))"
proof (cases j)
  case (HashJob r n p)
  let ?reg = "register_insert (e_kdf env) (e_salt env (w_tick w)) (e_uuid env (w_tick w)) (e_clock env (w_tick w)) (w_db w) n p"
  show ?thesis
  proof (cases ?reg)
    case (Inr q)
    then obtain db acc where q: "?reg = Inr (db, acc)" by (cases q) auto
    obtain u where u: "insert_user u (w_db w) = Inr db" using register_insert_Inr [OF q] by blast
    then have "db_grows (w_db w) db"
      by (intro db_growsI [where ms = "[]"] stmt_user [OF u])
        (auto simp: insert_user_def credentials_def user_ids_def conv_ids_def members_of_def fun_eq_iff split: if_splits)
    then show ?thesis by (simp add: HashJob q account_db)
  qed (simp add: HashJob auth_failed_def sendTo_def emit_def)
next
  case (VerifyJob r row p)
  then show ?thesis by (simp add: account_db auth_failed_def sendTo_def emit_def split: option.split)
qed

lemma step_grows:
  assumes "gateway_step env w w'" and "gw_inv w"
  shows "db_grows (w_db w) (w_db w')"
  using assms
proof (cases rule: step_cases)
  case (resume js ks j)
  then show ?thesis using resume_grows [of "w\<lparr>w_jobs := js @ ks\<rparr>" env j] by simp
qed (simp_all add: serves_grows onConnection_def next_tick_def Let_def)

lemma run_grows:
  "(gateway_step env)\<^sup>*\<^sup>* w w' \<Longrightarrow> uuids_plain env \<Longrightarrow> gw_inv w \<Longrightarrow> gw_inv w' \<and> db_grows (w_db w) (w_db w')"
proof (induction rule: rtranclp_induct)
  case (step v v')
  then show ?case using step_grows [OF step.hyps(2)] by (blast intro: step_inv db_grows_trans)
qed simp

text \<open>C4: The tables are consistent in every reachable state: keys are unique, every
  membership and message refers to a stored conversation, the public conversation exists, and
  a direct conversation between two accounts has exactly these two members.\<close>

theorem tables_consistent:
  assumes "uuids_plain env" and "gateway_init w0" and "(gateway_step env)\<^sup>*\<^sup>* w0 w"
  shows "db_inv (w_db w) \<and> (\<forall>a \<in> user_ids (w_db w). \<forall>b \<in> user_ids (w_db w).
    hasDirect (w_db w) (directConversationId a b) \<longrightarrow> members_of (w_db w) (directConversationId a b) = {a, b})"
proof -
  have "gw_inv w" by (rule reachable_inv [OF assms])
  then have inv: "conv_inv (w_db w)" "plain_db (w_db w)" by (simp_all add: gw_inv_def)
  have "members_of (w_db w) (directConversationId a b) = {a, b}"
    if "a \<in> user_ids (w_db w)" "b \<in> user_ids (w_db w)" "hasDirect (w_db w) (directConversationId a b)" for a b
    using that inv(2) hasDirect_in by (intro direct_members [OF inv]) (auto simp: plain_db_def)
  with inv show ?thesis by (simp add: conv_inv_def)
qed

text \<open>A group that has been found is found again, with the same name.\<close>

lemma getGroup_kept:
  assumes "prefix (t_conversations db) (t_conversations db')" and "getGroup db g = Some x"
  shows "\<exists>x'. getGroup db' g = Some x' \<and> g_id x' = g_id x \<and> g_name x' = g_name x \<and> set (g_memberIds x') = members_of db' g"
proof -
  obtain cs where cs: "t_conversations db' = t_conversations db @ cs" using assms(1) by (auto simp: prefix_def)
  obtain c where c: "find (\<lambda>c. c_id c = g \<and> c_kind c = KGroup) (t_conversations db) = Some c" "g_id x = c_id c" "g_name x = c_title c"
    using assms(2) by (auto simp: getGroup_def split: option.splits)
  have "find P (xs @ ys) = (case find P xs of None \<Rightarrow> find P ys | Some v \<Rightarrow> Some v)" for P and xs ys :: "ConversationRow list"
    by (induction xs) simp_all
  with c show ?thesis by (simp add: getGroup_def cs set_member_rows)
qed

text \<open>C19: Nothing is forgotten.  Along any run, whoever connects, disconnects or renames:
  accounts stay; every row of a conversation stays as it is, and a group is found under the same
  name; the history is only appended to; members are never lost, and the members of a group
  never change.\<close>

theorem tables_only_grow:
  assumes "uuids_plain env" and "gateway_init w0" and "(gateway_step env)\<^sup>*\<^sup>* w0 w"
    and "(gateway_step env)\<^sup>*\<^sup>* w w'"
  shows "(\<exists>ms. t_messages (w_db w') = t_messages (w_db w) @ ms) \<and> user_ids (w_db w) \<subseteq> user_ids (w_db w')
    \<and> prefix (t_conversations (w_db w)) (t_conversations (w_db w'))
    \<and> (\<forall>c. members_of (w_db w) c \<subseteq> members_of (w_db w') c)
    \<and> (\<forall>g. getGroup (w_db w) g \<noteq> None \<longrightarrow> members_of (w_db w') g = members_of (w_db w) g)
    \<and> (\<forall>g x. getGroup (w_db w) g = Some x \<longrightarrow> (\<exists>x'. getGroup (w_db w') g = Some x'
          \<and> g_id x' = g_id x \<and> g_name x' = g_name x \<and> set (g_memberIds x') = members_of (w_db w) g))"
proof -
  have inv: "gw_inv w" by (rule reachable_inv [OF assms(1-3)])
  have g: "db_grows (w_db w) (w_db w')" using run_grows [OF assms(4,1) inv] ..
  have "members_of (w_db w') i = members_of (w_db w) i" if grp: "getGroup (w_db w) i \<noteq> None" for i
  proof -
    obtain c where c: "c \<in> set (t_conversations (w_db w))" "c_id c = i" "c_kind c = KGroup"
      using grp by (auto simp: getGroup_def dest!: find_Some_set split: option.splits)
    have "kinds_ok (w_db w)" using inv by (simp add: gw_inv_def conv_inv_def)
    from bspec [OF this [unfolded kinds_ok_def] c(1)] obtain k where "i = group_conversation_id k"
      using c by auto
    moreover have "i \<in> conv_ids (w_db w)" using c by (auto simp: conv_ids_def)
    ultimately show ?thesis using g by (simp add: db_grows_def)
  qed
  note frozen = this
  have p: "prefix (t_conversations (w_db w)) (t_conversations (w_db w'))"
    using g stmts_kept by (auto simp: db_grows_def kept_def)
  have "\<exists>x'. getGroup (w_db w') i = Some x' \<and> g_id x' = g_id x \<and> g_name x' = g_name x \<and> set (g_memberIds x') = members_of (w_db w) i"
    if "getGroup (w_db w) i = Some x" for i x
    using getGroup_kept [OF p that] frozen [of i] that by simp
  with g p frozen show ?thesis by (simp add: db_grows_def)
qed

subsection \<open>The authentication gate\<close>

text \<open>C1: The authentication gate.  In every reachable state, whatever has been sent to a
  socket that is not an error message was sent to a session that has authenticated as an
  account of the tables and has its own backend connection.\<close>

theorem authentication_gate:
  assumes "uuids_plain env" and "gateway_init w0" and "(gateway_step env)\<^sup>*\<^sup>* w0 w"
    and "Sent r m \<in> set (w_out w)" and "\<not> is_error m"
  shows "s_authenticated (w_sess w r) \<and> s_id (w_sess w r) \<in> user_ids (w_db w)
    \<and> (\<exists>c. s_backend (w_sess w r) = Some c \<and> bc_session (w_conn w c) = r)"
proof -
  have inv: "gw_inv w" by (rule reachable_inv [OF assms(1-3)])
  with assms(4,5) have a: "s_authenticated (w_sess w r)" by (fastforce simp: gw_inv_def gate_ok_def)
  have s: "sessions_inv w" and c: "conns_inv w" using inv by (simp_all add: gw_inv_def)
  from spec [OF s [unfolded sessions_inv_def], of r] a
  have "s_id (w_sess w r) \<in> user_ids (w_db w)" "s_backend (w_sess w r) \<noteq> None" by simp_all
  with a c show ?thesis by (auto simp: conns_inv_def)
qed

text \<open>The state \<open>w'\<close> differs from \<open>w\<close> by what a client that is not logged in may
  cause: its own queue, at most one authentication of its own, errors to itself.\<close>

definition isolated :: "nat \<Rightarrow> World \<Rightarrow> World \<Rightarrow> bool" where
  "isolated r w w' \<longleftrightarrow> w_db w' = w_db w \<and> w_roster w' = w_roster w \<and> w_conn w' = w_conn w
    \<and> (\<forall>q. q \<noteq> r \<longrightarrow> w_sess w' q = w_sess w q)
    \<and> (\<exists>queued. w_sess w' r = (w_sess w r)\<lparr>s_pending := s_pending (w_sess w r) @ queued\<rparr>)
    \<and> (\<exists>js. w_jobs w' = w_jobs w @ js \<and> length js \<le> 1 \<and> (\<forall>j \<in> set js. job_session j = r))
    \<and> (\<exists>es. w_out w' = w_out w @ es \<and> (\<forall>e \<in> set es. \<exists>m. e = Sent r m \<and> is_error m))"

lemma isolated_intros:
  "isolated r w w"
  "is_error m \<Longrightarrow> isolated r w (sendTo r m w)"
  "isolated r w (crash w)"
  "job_session j = r \<Longrightarrow> isolated r w (w\<lparr>w_jobs := w_jobs w @ [j]\<rparr>)"
  "isolated r w (upd_sess r (queueUntilReady msg) w)"
  by (auto simp: isolated_def sendTo_def emit_def crash_def upd_sess_def queueUntilReady_def intro: exI [of _ "[]"])

text \<open>The bytes that no validator of the gateway survives: JSON whose type is a value that
  \<open>String\<close> cannot convert.  They end the process, for everybody.\<close>

definition fatal_frame :: "Env \<Rightarrow> bytes \<Rightarrow> bool" where
  "fatal_frame env raw \<longleftrightarrow> length raw \<le> e_maxClientMessageBytes env
     \<and> (case e_json_parse env (utf8_decode raw) of None \<Rightarrow> False | Some v \<Rightarrow> validateClientMessage v = Throws)"

text \<open>C20: What a client that is not logged in can do.  Whatever bytes it sends, the tables, the
  roster, the backend connections and every other session stay as they are; of its own session at
  most the queue grows, at most one authentication starts, and only errors to itself are sent.
  But it can end the process for everybody, namely with exactly the frames on which the
  validator throws.\<close>

theorem unauthenticated_isolated:
  assumes "\<not> s_authenticated (w_sess w r)"
  shows "isolated r w (onClientRaw env r raw w) \<and> (w_crashed (onClientRaw env r raw w) \<longleftrightarrow> w_crashed w \<or> fatal_frame env raw)"
proof -
  have start: "isolated r w (handleAuth_start r reg u p w)" for reg u p
    unfolding handleAuth_start_def auth_failed_def
    by (simp add: assms isolated_intros split: option.split)
  have "isolated r w (onClientMessage env r m w)" for m
    unfolding onClientMessage_def handleLogout_def
    by (cases m) (simp_all add: assms start isolated_intros)
  then have "isolated r w (onClientRaw env r raw w)"
    unfolding onClientRaw_def
    by (simp add: isolated_intros split: option.split ValidationResult.split)
  moreover have "w_crashed (onClientMessage env r m w) = w_crashed w" for m
    by (cases m) (simp_all add: onClientMessage_def handleAuth_start_def auth_failed_def handleLogout_def sendTo_def emit_def upd_sess_def
        assms split: option.split)
  then have "w_crashed (onClientRaw env r raw w) \<longleftrightarrow> w_crashed w \<or> fatal_frame env raw"
    by (auto simp: onClientRaw_def fatal_frame_def sendTo_def emit_def crash_def split: option.split ValidationResult.split)
  ultimately show ?thesis by blast
qed

lemma account_sess:
  "q \<noteq> r \<Longrightarrow> w_sess (handleAuth_account env r acc w) q = w_sess w q"
  "\<not> s_authenticated (w_sess w r) \<Longrightarrow> s_authenticated (w_sess (handleAuth_account env r acc w) r) \<Longrightarrow>
   s_id (w_sess (handleAuth_account env r acc w) r) = ur_id acc"
  by (auto simp: handleAuth_account_def Let_def emit_def upd_conn_def upd_sess_def sendTo_def split: if_splits)

lemma auth_failed_sess: "w_sess (auth_failed q b e w) = w_sess w"
  by (simp add: auth_failed_def sendTo_def emit_def)

definition stored_password :: "UserRow \<Rightarrow> PasswordRecord" where
  "stored_password u = \<lparr>pr_hash = u_password_hash u, pr_salt = u_password_salt u\<rparr>"

text \<open>What the code knows of an account when it lets a session in.\<close>

fun proves_account :: "Env \<Rightarrow> World \<Rightarrow> jsstr \<Rightarrow> AuthJob \<Rightarrow> World \<Rightarrow> bool" where
  "proves_account env w i (HashJob _ n p) w' \<longleftrightarrow> i \<notin> user_ids (w_db w)
     \<and> (\<exists>u \<in> set (t_users (w_db w')). u_id u = i \<and> u_username u = n \<and> verifyPassword (e_kdf env) p (stored_password u))"
| "proves_account env w i (VerifyJob _ row p) w' \<longleftrightarrow> u_id row = i \<and> credential row \<in> credentials (w_db w)
     \<and> verifyPassword (e_kdf env) p (stored_password row)"

lemma resume_proves:
  assumes "\<not> s_authenticated (w_sess w r)" and "s_authenticated (w_sess (handleAuth_resume env j w) r)" and "job_ok w j"
  shows "job_session j = r \<and> proves_account env w (s_id (w_sess (handleAuth_resume env j w) r)) j (handleAuth_resume env j w)"
proof (cases j)
  case (HashJob q n p)
  let ?reg = "register_insert (e_kdf env) (e_salt env (w_tick w)) (e_uuid env (w_tick w)) (e_clock env (w_tick w)) (w_db w) n p"
  obtain db acc where reg: "?reg = Inr (db, acc)"
    using assms(1,2) by (cases ?reg) (auto simp: HashJob auth_failed_sess)
  let ?w1 = "next_tick w\<lparr>w_db := db\<rparr>"
  have s: "w_sess ?w1 = w_sess w" by (simp add: next_tick_def)
  have e: "handleAuth_resume env j w = handleAuth_account env q acc ?w1" by (simp add: HashJob reg)
  have "r = q" using assms(1,2) unfolding e by (intro ccontr [of "r = q"]) (simp add: account_sess(1) s)
  then have q: "q = r" ..
  have i: "s_id (w_sess (handleAuth_resume env j w) r) = ur_id acc"
    using assms(1,2) account_sess(2) [of ?w1 r env acc] unfolding e q by (simp add: s)
  obtain u where u: "insert_user u (w_db w) = Inr db" "u_id u = ur_id acc" "u_username u = n"
    "u_password_hash u = pr_hash (hashPassword (e_kdf env) (e_salt env (w_tick w)) p)"
    "u_password_salt u = pr_salt (hashPassword (e_kdf env) (e_salt env (w_tick w)) p)"
    using register_insert_Inr [OF reg] by auto
  have "u_id u \<notin> user_ids (w_db w)" and "u \<in> set (t_users db)"
    using u(1) by (auto simp: insert_user_def user_ids_def split: if_splits)
  moreover have "stored_password u = hashPassword (e_kdf env) (e_salt env (w_tick w)) p"
    by (simp add: stored_password_def u)
  ultimately show ?thesis
    unfolding i using u q by (auto simp: HashJob reg account_db verify_hash intro!: bexI [of _ u])
next
  case (VerifyJob q row p)
  obtain acc where l: "login_verify (e_kdf env) row p = Some acc"
    using assms(1,2) by (cases "login_verify (e_kdf env) row p") (auto simp: VerifyJob auth_failed_sess)
  have e: "handleAuth_resume env j w = handleAuth_account env q acc w" by (simp add: VerifyJob l)
  have "r = q" using assms(1,2) unfolding e by (intro ccontr [of "r = q"]) (simp add: account_sess(1))
  then have q: "q = r" ..
  have i: "s_id (w_sess (handleAuth_resume env j w) r) = ur_id acc"
    using assms(1,2) account_sess(2) [of w r env acc] unfolding e q by simp
  show ?thesis
    unfolding i using l q assms(3)
    by (auto simp: VerifyJob login_verify_def to_record_def stored_password_def split: if_splits)
qed

text \<open>C3: A session is let in only on proof.  The only step after which a session is
  authenticated and before which it was not is the end of a key derivation that this session
  asked for: of a registration, which has just stored a new account with this user name and
  password under the session's id, or of a login whose password verifies against the stored
  hash of the account whose id the session takes.\<close>

theorem login_requires_credentials:
  assumes "uuids_plain env" and "gateway_init w0" and "(gateway_step env)\<^sup>*\<^sup>* w0 w" and "gateway_step env w w'"
    and "\<not> s_authenticated (w_sess w r)" and "s_authenticated (w_sess w' r)"
  shows "\<exists>j \<in> set (w_jobs w). job_session j = r \<and> proves_account env w (s_id (w_sess w' r)) j w'"
proof -
  have inv: "gw_inv w" by (rule reachable_inv [OF assms(1-3)])
  from assms(4) inv show ?thesis
  proof (cases rule: step_cases)
    case serves
    then show ?thesis using assms(5,6) by (simp add: servesD(6))
  next
    case accept
    then show ?thesis using assms(5,6)
      by (auto simp: onConnection_def Let_def next_tick_def new_Session_def split: if_splits)
  next
    case (job j)
    then show ?thesis using assms(5,6) by simp
  next
    case (resume js ks j)
    let ?w = "w\<lparr>w_jobs := js @ ks\<rparr>"
    have "job_ok w j" using inv resume(1) by (simp add: gw_inv_def)
    then have "job_ok ?w j" by (cases j) simp_all
    with resume_proves [of ?w r env j] assms(5,6) have "job_session j = r \<and> proves_account env ?w (s_id (w_sess w' r)) j w'"
      by (simp add: resume(2))
    moreover have "proves_account env ?w i j w' = proves_account env w i j w'" for i by (cases j) simp_all
    ultimately show ?thesis using resume(1) by auto
  qed
qed

subsection \<open>Privacy\<close>

text \<open>C2: Conversations are private.  When clients authenticate one attempt at a time, a message
  of a conversation other than the public one, or the announcement of one, is sent only to a
  session whose account is a member of that conversation, and the initial state of a session
  holds only conversations and messages its account may see.\<close>

theorem conversation_privacy:
  assumes "uuids_plain env" and "gateway_init w0" and "(orderly_step env)\<^sup>*\<^sup>* w0 w" and "orderly_step env w w'"
    and "w_out w' = w_out w @ es" and "Sent r m \<in> set es" and "i = s_id (w_sess w r)"
  shows "case m of
      SMessage x \<Rightarrow> ms_conversationId x = PUBLIC_CONVERSATION_ID \<or> i \<in> members_of (w_db w') (ms_conversationId x)
    | SConversationCreated c \<Rightarrow> i \<in> members_of (w_db w') (cs_id c)
    | SReady me _ _ convs msgs \<Rightarrow> me = i
        \<and> (\<forall>c \<in> set convs. cs_kind c = KPublic \<or> i \<in> members_of (w_db w') (cs_id c))
        \<and> (\<forall>x \<in> set msgs. ms_conversationId x = PUBLIC_CONVERSATION_ID \<or> i \<in> members_of (w_db w') (ms_conversationId x))
    | _ \<Rightarrow> True"
proof -
  have inv: "orderly_inv w" using orderly.inv_reachable [OF assms(2,3)] assms(1) by blast
  have st: "gateway_step env w w'" using assms(4) by (simp add: orderly_step_def)
  have "gw_inv w" using inv by (simp add: orderly_inv_def)
  from step_out [OF st this] assms(5,6) have a: "audience_ok (members_of (w_db w')) w (Sent r m)" by auto
  have o: "answers_to w r k \<Longrightarrow> k = i" for k using orderly_answers [OF inv] assms(7) by simp
  show ?thesis using a o by (cases m) (auto simp: assms(7))
qed

end
