(* ===== verification/GatewayDelivery.thy ===== *)
theory GatewayDelivery
  imports GatewayProps
begin

section \<open>What the handlers of the gateway deliver\<close>

text \<open>
  The exact effects of the handlers: who receives a message, what is stored, what is written
  to the backend.  \<open>send_to_member\<close> and \<open>broadcastToAll\<close> are solved in closed form first
  (\<open>fold_send_to_members\<close>, \<open>broadcast_eq\<close>): they append to the effects and change nothing else.
\<close>

subsection \<open>Fan-out in closed form\<close>

definition is_open :: "World \<Rightarrow> nat \<Rightarrow> bool" where
  "is_open w r \<longleftrightarrow> s_ws (w_sess w r) = WsOpen"

definition sends :: "ServerMessage \<Rightarrow> nat list \<Rightarrow> Effect list" where
  "sends m rs = map (\<lambda>r. Sent r m) rs"

lemma sendTo_eq: "sendTo r m w = w\<lparr>w_out := w_out w @ sends m (filter (is_open w) [r])\<rparr>"
  by (simp add: sendTo_def emit_def is_open_def sends_def)

definition online_members :: "World \<Rightarrow> jsstr list \<Rightarrow> nat list" where
  "online_members w ids = filter (is_open w) (List.map_filter (roster_get (w_roster w)) ids)"

lemma send_to_member_eq: "send_to_member m i w = w\<lparr>w_out := w_out w @ sends m (online_members w [i])\<rparr>"
  by (simp add: send_to_member_def sendTo_eq online_members_def map_filter_simps sends_def split: option.split)

lemma sends_append [simp]: "sends m (rs @ qs) = sends m rs @ sends m qs"
  by (simp add: sends_def)

lemma online_members_out [simp]: "online_members (w\<lparr>w_out := out\<rparr>) ids = online_members w ids"
  by (simp add: online_members_def is_open_def [abs_def])

lemma online_members_Cons: "online_members w (i # ids) = online_members w [i] @ online_members w ids"
  by (simp add: online_members_def map_filter_simps split: option.split)

lemma fold_send_to_members:
  "fold (send_to_member m) ids w = w\<lparr>w_out := w_out w @ sends m (online_members w ids)\<rparr>"
proof (induction ids arbitrary: w)
  case Nil
  then show ?case by (simp add: online_members_def map_filter_simps sends_def)
next
  case (Cons i ids)
  show ?case
    by (subst online_members_Cons) (simp add: send_to_member_eq [of m i w] Cons.IH)
qed

definition audience :: "World \<Rightarrow> jsstr option \<Rightarrow> nat list" where
  "audience w ex = filter (\<lambda>r. Some (s_id (w_sess w r)) \<noteq> ex \<and> s_welcomed (w_sess w r) \<and> is_open w r) (roster_all (w_roster w))"

lemma broadcast_eq: "broadcastToAll m ex w = w\<lparr>w_out := w_out w @ sends m (audience w ex)\<rparr>"
proof -
  have "fold (\<lambda>r w. if Some (s_id (w_sess w r)) = ex then w else if \<not> s_welcomed (w_sess w r) then w else sendTo r m w) rs w
     = w\<lparr>w_out := w_out w @ sends m (filter (\<lambda>r. Some (s_id (w_sess w r)) \<noteq> ex \<and> s_welcomed (w_sess w r) \<and> is_open w r) rs)\<rparr>" for rs
    by (induction rs arbitrary: w) (auto simp: sends_def sendTo_eq is_open_def)
  then show ?thesis by (simp add: broadcastToAll_def audience_def)
qed

subsection \<open>Messages\<close>

text \<open>The message that \<open>append\<close> makes of a draft in a given state.\<close>

definition stored :: "Env \<Rightarrow> World \<Rightarrow> jsstr \<Rightarrow> Session \<Rightarrow> jsstr \<Rightarrow> MessageRow" where
  "stored env w conversation s body =
     \<lparr>m_id = e_uuid env (w_tick w), m_conversation_id = conversation, m_kind = Chat, m_sender_id = Some (s_id s),
      m_sender_username = Some (s_nickname s), m_text = body, m_created_at = e_clock env (w_tick w)\<rparr>"

definition fresh_id :: "Env \<Rightarrow> World \<Rightarrow> bool" where
  "fresh_id env w \<longleftrightarrow> e_uuid env (w_tick w) \<notin> m_id ` set (t_messages (w_db w))"

lemma append_w_draft:
  assumes "fresh_id env w" and "c \<in> conv_ids (w_db w)"
  shows "append_w env (chat_draft c s body) w =
     Some (next_tick w\<lparr>w_db := (w_db w)\<lparr>t_messages := t_messages (w_db w) @ [stored env w c s body]\<rparr>\<rparr>,
           toSummary (stored env w c s body))"
  using assms
  by (simp add: append_w_def append_def insert_message_def message_row_def chat_draft_def stored_def fresh_id_def Let_def)

lemma sendGroup_closed:
  assumes "getGroup (w_db w) g = Some grp" and "s_id (w_sess w r) \<in> set (g_memberIds grp)" and "fresh_id env w"
    and "m = stored env w g (w_sess w r) body"
  shows "sendGroup env r g body w = next_tick w\<lparr>w_db := (w_db w)\<lparr>t_messages := t_messages (w_db w) @ [m]\<rparr>,
      w_out := w_out w @ sends (SMessage (toSummary m)) (online_members w (g_memberIds grp))\<rparr>"
proof -
  have g: "g_id grp = g" "g \<in> conv_ids (w_db w)"
    using assms(1) by (auto simp: getGroup_def conv_ids_def split: option.splits dest!: find_Some_set)
  have "online_members (next_tick w\<lparr>w_db := db\<rparr>) ids = online_members w ids" for db ids
    by (simp add: online_members_def is_open_def [abs_def] next_tick_def)
  with assms show ?thesis
    by (simp add: sendGroup_def append_w_draft g fold_send_to_members next_tick_def)
qed

text \<open>C21: Group delivery.  A member's message to a group is stored once, under the group, with
  the sender and the text, and it is sent once to each member of the group who is online with
  an open socket, in the order of the member list, the sender included, and to nobody else; no
  line goes to the backend.\<close>

theorem group_delivery:
  assumes "getGroup (w_db w) g = Some grp" and "s_id (w_sess w r) \<in> set (g_memberIds grp)" and "fresh_id env w"
    and "m = stored env w g (w_sess w r) body" and "w' = handleClientMessage env r (SendMessage (TGroup g) body) w"
  shows "w_out w' = w_out w @ sends (SMessage (toSummary m)) (online_members w (g_memberIds grp))
    \<and> t_messages (w_db w') = t_messages (w_db w) @ [m] \<and> t_members (w_db w') = t_members (w_db w)
    \<and> w_sess w' = w_sess w \<and> w_conn w' = w_conn w \<and> w_crashed w' = w_crashed w"
  using sendGroup_closed [OF assms(1-4)] by (simp add: assms(5) next_tick_def)

text \<open>Nobody else can write to a group.  For a session that is not a member, or a group that
  does not exist, a message is refused with NOT_A_MEMBER to its sender and nothing changes.\<close>

theorem group_refusal:
  assumes "s_id (w_sess w r) \<notin> members_of (w_db w) g \<or> getGroup (w_db w) g = None"
  shows "\<exists>e. handleClientMessage env r (SendMessage (TGroup g) body) w
      = w\<lparr>w_out := w_out w @ sends (SError (js ''NOT_A_MEMBER'') e (Some g)) (filter (is_open w) [r])\<rparr>"
proof (cases "getGroup (w_db w) g")
  case (Some grp)
  then have "set (g_memberIds grp) = members_of (w_db w) g"
    by (auto simp: getGroup_def set_member_rows split: option.splits)
  with Some assms show ?thesis by (auto simp: sendGroup_def sendTo_eq)
qed (auto simp: sendGroup_def sendTo_eq)

definition backend_open :: "World \<Rightarrow> nat \<Rightarrow> nat \<Rightarrow> bool" where
  "backend_open w r c \<longleftrightarrow> s_backend (w_sess w r) = Some c \<and> bc_socket (w_conn w c) \<noteq> NoSocket \<and> \<not> bc_closed (w_conn w c)"

lemma sendLine_open:
  assumes "backend_open w r c" and "encodeFrame_str line = Some bytes"
  shows "\<exists>b. backend_sendLine r line w = w\<lparr>w_conn := (w_conn w)(c := b), w_out := w_out w @ [Wrote c bytes]\<rparr>
    \<and> bc_decoder b = bc_decoder (w_conn w c) \<and> bc_closed b = bc_closed (w_conn w c)"
  using assms by (auto simp: backend_sendLine_def backend_open_def sendLine_def emit_def upd_conn_def)

text \<open>Public messages.  A public message is stored once as the sender's, its sender gets
  their own copy, and exactly one frame goes to the backend, the encoding of the text, over the
  sender's own connection; no other client is written to.\<close>

theorem public_message:
  assumes "conv_inv (w_db w)" and "fresh_id env w" and "backend_open w r c" and "encodeFrame_str body = Some bytes"
    and "m = stored env w PUBLIC_CONVERSATION_ID (w_sess w r) body"
    and "w' = handleClientMessage env r (SendMessage TPublic body) w"
  shows "w_out w' = w_out w @ sends (SMessage (toSummary m)) (filter (is_open w) [r]) @ [Wrote c bytes]
    \<and> t_messages (w_db w') = t_messages (w_db w) @ [m] \<and> t_members (w_db w') = t_members (w_db w)
    \<and> w_sess w' = w_sess w \<and> w_roster w' = w_roster w \<and> w_crashed w' = w_crashed w"
proof -
  have p: "PUBLIC_CONVERSATION_ID \<in> conv_ids (w_db w)" using assms(1) by (simp add: conv_inv_def public_in_conv_ids)
  let ?w1 = "next_tick w\<lparr>w_db := (w_db w)\<lparr>t_messages := t_messages (w_db w) @ [m]\<rparr>\<rparr>"
  let ?w2 = "?w1\<lparr>w_out := w_out w @ sends (SMessage (toSummary m)) (filter (is_open w) [r])\<rparr>"
  have e: "w' = backend_sendLine r body ?w2"
    using append_w_draft [OF assms(2) p, of "w_sess w r" body] assms(5,6)
    by (simp add: sendPublic_def formatChatLine_def sendTo_eq is_open_def next_tick_def)
  have "backend_open ?w2 r c" using assms(3) by (simp add: backend_open_def next_tick_def)
  from sendLine_open [OF this assms(4)] show ?thesis unfolding e by (auto simp: next_tick_def)
qed

text \<open>C22: Direct messages.  A message to an account that is online is stored once in the
  conversation of the two, which is created with exactly these two members and announced to
  both if it is new, and one /msg command naming the recipient's current nickname goes to the
  backend over the sender's connection.\<close>

theorem direct_message:
  assumes "gw_inv w" and "s_authenticated (w_sess w r)"
    and "roster_get (w_roster w) p = Some peer" and "s_welcomed (w_sess w peer)"
    and "a = s_id (w_sess w r)" and "b = s_id (w_sess w peer)" and "conv = directConversationId a b"
    and "e_uuid env (Suc (w_tick w)) \<notin> m_id ` set (t_messages (w_db w))"
    and "backend_open w r c" and "encodeFrame_str (formatMsgCommand (s_nickname (w_sess w peer)) body) = Some bytes"
    and "w' = handleClientMessage env r (SendMessage (TDirect p) body) w"
  shows "members_of (w_db w') conv = {a, b}
    \<and> t_messages (w_db w') = t_messages (w_db w) @ [stored env (next_tick w) conv (w_sess w r) body]
    \<and> w_out w' = w_out w @ (if hasDirect (w_db w) conv then []
          else sends (SConversationCreated \<lparr>cs_id = conv, cs_kind = KDirect, cs_title = [], cs_memberIds = [a, b]\<rparr>)
                 (filter (is_open w) [r, peer])) @ [Wrote c bytes]
    \<and> w_sess w' = w_sess w \<and> w_roster w' = w_roster w \<and> w_crashed w' = w_crashed w"
proof -
  obtain w1 cs where e: "ensureDirect_w env a b w = (w1, cs)" by (cases "ensureDirect_w env a b w")
  have peer: "s_authenticated (w_sess w peer)" using roster_authenticated [OF assms(1,3)] ..
  have pl: "plain a" "plain b"
    using authenticated_plain [OF assms(1,2)] authenticated_plain [OF assms(1) peer] by (simp_all add: assms(5,6))
  note s = serves_ensureDirect [OF assms(1) pl e]
  have cs: "cs = \<lparr>cs_id = conv, cs_kind = KDirect, cs_title = [], cs_memberIds = [a, b]\<rparr>"
    and w1: "w1 = next_tick w\<lparr>w_db := fst (ensureDirect (e_clock env (w_tick w)) a b (w_db w))\<rparr>"
    using e by (auto simp: ensureDirect_w_def ensureDirect_def Let_def assms(7))
  define w2 where "w2 = w1\<lparr>w_out := w_out w @ (if hasDirect (w_db w) conv then []
      else sends (SConversationCreated cs) (filter (is_open w) [r, peer]))\<rparr>"
  have w2: "w2 = (if \<not> hasDirect (w_db w) conv
      then sendTo peer (SConversationCreated cs) (sendTo r (SConversationCreated cs) w1) else w1)"
    by (simp add: w2_def w1 sendTo_eq is_open_def next_tick_def sends_def)
  have f: "w_sess w2 = w_sess w" "w_db w2 = w_db w1" "w_tick w2 = Suc (w_tick w)" "w_conn w2 = w_conn w"
    "w_roster w2 = w_roster w" "w_crashed w2 = w_crashed w"
    by (simp_all add: w2_def w1 next_tick_def)
  have "t_messages (w_db w1) = t_messages (w_db w)" by (simp add: w1)
  then have "fresh_id env w2" using assms(8) by (simp add: fresh_id_def f)
  define w3 where "w3 = next_tick w2\<lparr>w_db := (w_db w2)\<lparr>t_messages := t_messages (w_db w2) @ [stored env w2 conv (w_sess w r) body]\<rparr>\<rparr>"
  have app: "append_w env (chat_draft conv (w_sess w r) body) w2 = Some (w3, toSummary (stored env w2 conv (w_sess w r) body))"
    unfolding w3_def by (rule append_w_draft [OF \<open>fresh_id env w2\<close>]) (use s(2) in \<open>simp add: f cs\<close>)
  have g: "w_sess w3 = w_sess w" "w_conn w3 = w_conn w" "w_roster w3 = w_roster w" "w_crashed w3 = w_crashed w"
    "w_out w3 = w_out w2" "t_members (w_db w3) = t_members (w_db w1)"
    "t_messages (w_db w3) = t_messages (w_db w) @ [stored env w2 conv (w_sess w r) body]"
    by (simp_all add: w3_def f next_tick_def \<open>t_messages (w_db w1) = t_messages (w_db w)\<close>)
  have st: "stored env w2 conv (w_sess w r) body = stored env (next_tick w) conv (w_sess w r) body"
    by (simp add: stored_def f) (simp add: next_tick_def)
  have "w' = backend_sendLine r (formatMsgCommand (s_nickname (w_sess w3 peer)) body) w3"
    unfolding assms(11) handleClientMessage.simps handleSendMessage.simps sendDirect_def Let_def assms(3)
      option.case assms(5,6) [symmetric] assms(7) [symmetric] e prod.case w2 [symmetric]
    by (simp add: assms(4) cs f app)
  then have w': "w' = backend_sendLine r (formatMsgCommand (s_nickname (w_sess w peer)) body) w3" by (simp add: g)
  have "backend_open w3 r c" using assms(9) by (simp add: backend_open_def g)
  from sendLine_open [OF this assms(10)] obtain bc
    where w'': "w' = w3\<lparr>w_conn := (w_conn w3)(c := bc), w_out := w_out w3 @ [Wrote c bytes]\<rparr>"
    unfolding w' by blast
  have "members_of (w_db w') conv = {a, b}" using s(3) by (simp add: w'' members_of_def g cs)
  then show ?thesis by (simp add: w'' g st) (simp add: w2_def cs)
qed

subsection \<open>Joining and leaving\<close>

lemma announce_queue:
  assumes "is_open w r" and "s = w_sess w r" and "users = welcomedUsers (w_sess w) (w_roster w)"
    and "ready = SReady (s_id s) (s_nickname s) users
        (publicConversation (map us_id users) # conversationsFor (w_db w) (s_id s)) (historyForUser (e_ties env) (w_db w) (s_id s))"
  shows "\<exists>w2. announceReady env r w = fold (handleClientMessage env r) (s_pending s) w2
    \<and> w_out w2 = w_out w @ Sent r ready # sends (SUserUpdate (summarize s)) (audience w (Some (s_id s)))
    \<and> w_sess w2 = (w_sess w)(r := s\<lparr>s_readyAnnounced := True, s_pending := []\<rparr>) \<and> w_db w2 = w_db w"
proof -
  let ?w0 = "upd_sess r (\<lambda>s. s\<lparr>s_readyAnnounced := True\<rparr>) w"
  have u: "welcomedUsers (w_sess ?w0) m = welcomedUsers (w_sess w) m" for m
    by (auto simp: welcomedUsers_def upd_sess_def summarize_def intro!: arg_cong2 [of _ _ _ _ map] filter_cong)
  have o: "is_open ?w0 q = is_open w q" for q by (simp add: is_open_def upd_sess_def)
  have w1: "sendReady env r ?w0 = ?w0\<lparr>w_out := w_out w @ [Sent r ready]\<rparr>"
    using assms by (simp add: sendReady_def Let_def u sendTo_eq o sends_def) (simp add: upd_sess_def)
  let ?w1 = "?w0\<lparr>w_out := w_out w @ [Sent r ready]\<rparr>"
  have a: "audience ?w1 ex = audience w ex" for ex
    by (auto simp: audience_def is_open_def upd_sess_def intro!: filter_cong)
  have sm: "summarize (w_sess ?w1 r) = summarize s" "s_id (w_sess ?w1 r) = s_id s"
    by (simp_all add: upd_sess_def summarize_def assms(2))
  show ?thesis
    unfolding announceReady_def Let_def w1 broadcast_eq sm a drainQueue_def prod.case
    by (rule exI, rule conjI [OF arg_cong2 [of _ _ _ _ "fold (handleClientMessage env r)"]])
      (auto simp: upd_sess_def assms(2))
qed

text \<open>C23: The initial state comes first.  When a session becomes ready, it is sent its ready
  message, with its id and nickname, everybody who is online, its conversations and its whole
  history, then the others are told, and only then the messages it sent before are handled,
  in order, each once; the queue is empty.\<close>

theorem ready_then_queue:
  assumes "is_open w r" and "s = w_sess w r" and "users = welcomedUsers (w_sess w) (w_roster w)"
    and "ready = SReady (s_id s) (s_nickname s) users
        (publicConversation (map us_id users) # conversationsFor (w_db w) (s_id s)) (historyForUser (e_ties env) (w_db w) (s_id s))"
  shows "\<exists>w2. announceReady env r w = fold (handleClientMessage env r) (s_pending s) w2
    \<and> w_out w2 = w_out w @ Sent r ready # sends (SUserUpdate (summarize s)) (audience w (Some (s_id s)))
    \<and> w_sess w2 = (w_sess w)(r := s\<lparr>s_readyAnnounced := True, s_pending := []\<rparr>) \<and> w_db w2 = w_db w"
  using assms by (rule announce_queue)

text \<open>C25: Leaving is complete.  When the socket of an authenticated session closes, its account
  leaves the roster and nobody else does, its backend connection is closed, everyone else who
  is online is told that it is offline, the tables are untouched, and a second close event has
  no effect.\<close>

theorem disconnect_cleanup:
  assumes "s_authenticated (w_sess w r)" and "\<not> s_closed (w_sess w r)" and "i = s_id (w_sess w r)"
    and "backend_open w r c" and "w' = onClientClosed r w"
  shows "roster_get (w_roster w') = (roster_get (w_roster w))(i := None) \<and> bc_closed (w_conn w' c)
    \<and> w_db w' = w_db w
    \<and> w_out w' = w_out w @ Destroyed_socket c # (if s_welcomed (w_sess w r) then sends (SUserOffline i)
         (filter (\<lambda>q. s_id (w_sess w q) \<noteq> i \<and> s_welcomed (w_sess w q) \<and> is_open w q) (roster_all (roster_remove i (w_roster w)))) else [])
    \<and> onClientClosed r w' = w'"
proof -
  let ?w1 = "upd_sess r (\<lambda>s. s\<lparr>s_closed := True\<rparr>) w"
  let ?b = "(w_conn w c)\<lparr>bc_closed := True, bc_socket := Destroyed\<rparr>"
  define w2 where "w2 = ?w1\<lparr>w_conn := (w_conn w)(c := ?b), w_out := w_out w @ [Destroyed_socket c]\<rparr>"
  have w2: "backend_close r ?w1 = w2"
    using assms(4) by (simp add: backend_close_def backend_open_def close_def upd_sess_def upd_conn_def emit_def w2_def)
  define w3 where "w3 = w2\<lparr>w_roster := roster_remove i (w_roster w)\<rparr>"
  have f: "s_id (w_sess w2 r) = i" "w_roster w2 = w_roster w" "s_welcomed (w_sess w3 q) = s_welcomed (w_sess w q)"
    "s_id (w_sess w3 q) = s_id (w_sess w q)" "is_open w3 q = is_open w q" "w_out w3 = w_out w @ [Destroyed_socket c]"
    "w_roster w3 = roster_remove i (w_roster w)" "bc_closed (w_conn w3 c)" "w_db w3 = w_db w" "s_closed (w_sess w3 r)" for q
    by (simp_all add: w2_def w3_def upd_sess_def assms(3) is_open_def)
  have w': "w' = (if s_welcomed (w_sess w r) then w3\<lparr>w_out := w_out w3 @ sends (SUserOffline i) (audience w3 (Some i))\<rparr> else w3)"
    using assms(1,2) unfolding assms(5) onClientClosed_def Let_def w2 f(1,2) w3_def [symmetric] broadcast_eq f(3)
    by (simp add: upd_sess_def)
  have a: "audience w3 (Some i) = filter (\<lambda>q. s_id (w_sess w q) \<noteq> i \<and> s_welcomed (w_sess w q) \<and> is_open w q) (roster_all (roster_remove i (w_roster w)))"
    by (simp add: audience_def f)
  have "s_closed (w_sess w' r)" by (simp add: w' f)
  then have "onClientClosed r w' = w'" by (simp add: onClientClosed_def)
  then show ?thesis by (simp add: w' f a roster_get_remove)
qed

end
