(* ===== verification/GatewayScenario.thy ===== *)
theory GatewayScenario
  imports GatewayDelivery
begin

section \<open>A concrete run\<close>

text \<open>
  A run of the server from an empty database: a browser connects, registers an account, its
  backend connection is established, and the backend welcomes it under its user name.  The
  properties of reachable states are applied to it.
\<close>

definition amy :: jsstr where "amy = js ''amy''"

definition demo_env :: Env where
  "demo_env = \<lparr>e_uuid = (\<lambda>n. replicate (Suc n) (unit (CHR ''u''))), e_clock = (\<lambda>n. js ''t''), e_salt = (\<lambda>n. []),
     e_kdf = (\<lambda>p s n. []), e_json_parse = (\<lambda>s. Some (outbound_json (Register amy (js ''password'')))),
     e_maxClientMessageBytes = 8192, e_backendMaxMessageBytes = 8192, e_ties = (\<lambda>_ _ _. 0)\<rparr>"

definition demo0 :: World where
  "demo0 = \<lparr>w_sess = (\<lambda>r. new_Session []), w_nsess = 0, w_conn = (\<lambda>c. new_BackendConnection 0 0), w_nconn = 0,
     w_roster = [], w_db = openDatabase (js ''t'') None, w_jobs = [], w_tick = 0, w_out = [], w_crashed = False\<rparr>"

definition demo1 :: World where "demo1 = onConnection demo_env demo0"
definition demo2 :: World where "demo2 = onClientRaw demo_env 0 [] demo1"
definition demo3 :: World where "demo3 = handleAuth_resume demo_env (HashJob 0 amy (js ''password'')) (demo2\<lparr>w_jobs := []\<rparr>)"
definition demo4 :: World where "demo4 = upd_conn 0 on_connected demo3"

lemma demo_plain: "uuids_plain demo_env"
  by (simp add: uuids_plain_def demo_env_def plain_def unit_def)

lemma demo_init: "gateway_init demo0"
proof -
  have "conv_inv (openDatabase (js ''t'') None)"
    using openDatabase_new_inv
    by (simp add: conv_inv_def kinds_ok_def openDatabase_def insert_or_ignore_conversation_def empty_tables_def)
  moreover have "plain_db (openDatabase (js ''t'') None)"
    by (simp add: plain_db_def openDatabase_def insert_or_ignore_conversation_def empty_tables_def user_ids_def members_of_def)
  ultimately show ?thesis by (simp add: gateway_init_def demo0_def)
qed

lemma demo1: "w_sess demo1 0 = new_Session (e_uuid demo_env 0)" "w_nsess demo1 = 1" "\<not> w_crashed demo1"
  "w_jobs demo1 = []" "w_db demo1 = openDatabase (js ''t'') None" "w_roster demo1 = []" "w_nconn demo1 = 0"
  "w_out demo1 = []" "w_tick demo1 = 1"
  by (simp_all add: demo1_def onConnection_def Let_def next_tick_def demo0_def)

lemma demo_credentials: "register_check (openDatabase (js ''t'') None) amy (js ''password'') = None"
  by (simp add: register_check_def validateUsername_def USERNAME_RE_def amy_def js_def username_unit_def
      validatePassword_def MIN_PASSWORD_LENGTH_def MAX_PASSWORD_LENGTH_def findByUsername_def row_by_username_def
      openDatabase_def insert_or_ignore_conversation_def empty_tables_def)

lemma demo2: "demo2 = demo1\<lparr>w_jobs := [HashJob 0 amy (js ''password'')]\<rparr>"
proof -
  have "valid_client_message (Register amy (js ''password''))"
    by (simp add: sized_def limits amy_def)
  note v = validate_outbound [OF this]
  have a: "\<not> s_authenticated (w_sess demo1 0)" by (simp add: demo1 new_Session_def)
  show ?thesis
    using v a demo_credentials
    by (simp add: demo2_def onClientRaw_def demo_env_def onClientMessage_def handleAuth_start_def demo1)
qed

definition amy_id :: jsstr where "amy_id = e_uuid demo_env 1"

lemma demo3: "w_sess demo3 0 = (new_Session (e_uuid demo_env 0))\<lparr>s_id := amy_id, s_authenticated := True,
      s_desiredUsername := Some amy, s_backend := Some 0\<rparr>"
  "w_conn demo3 0 = connect (new_BackendConnection 0 8192)" "w_nsess demo3 = 1" "w_nconn demo3 = 1"
  "w_roster demo3 = [(amy_id, 0)]" "w_out demo3 = [Dial 0]" "\<not> w_crashed demo3" "w_jobs demo3 = []" "w_tick demo3 = 2"
  "w_db demo3 = (openDatabase (js ''t'') None)\<lparr>t_users := [\<lparr>u_id = amy_id, u_username = amy, u_password_hash = [],
      u_password_salt = [], u_created_at = js ''t''\<rparr>]\<rparr>"
proof -
  let ?db = "openDatabase (js ''t'') None"
  have "t_users ?db = []" by (simp add: openDatabase_def insert_or_ignore_conversation_def empty_tables_def)
  then have r: "register_insert (e_kdf demo_env) (e_salt demo_env 1) (e_uuid demo_env 1) (e_clock demo_env 1) ?db amy (js ''password'')
      = Inr (?db\<lparr>t_users := [\<lparr>u_id = amy_id, u_username = amy, u_password_hash = [],
          u_password_salt = [], u_created_at = js ''t''\<rparr>]\<rparr>, \<lparr>ur_id = amy_id, ur_username = amy\<rparr>)"
    by (simp add: register_insert_def insert_user_def hashPassword_def demo_env_def amy_id_def Let_def)
  have m: "e_backendMaxMessageBytes demo_env = 8192" by (simp add: demo_env_def)
  have e: "demo3 = handleAuth_account demo_env 0 \<lparr>ur_id = amy_id, ur_username = amy\<rparr> (next_tick (demo1\<lparr>w_jobs := []\<rparr>)\<lparr>w_db := ?db\<lparr>t_users := [\<lparr>u_id = amy_id, u_username = amy, u_password_hash = [],
          u_password_salt = [], u_created_at = js ''t''\<rparr>]\<rparr>\<rparr>)"
    using r demo1(4,5,9) by (simp add: demo3_def demo2)
  show "w_sess demo3 0 = (new_Session (e_uuid demo_env 0))\<lparr>s_id := amy_id, s_authenticated := True,
      s_desiredUsername := Some amy, s_backend := Some 0\<rparr>"
    "w_conn demo3 0 = connect (new_BackendConnection 0 8192)" "w_nsess demo3 = 1" "w_nconn demo3 = 1"
    "w_roster demo3 = [(amy_id, 0)]" "w_out demo3 = [Dial 0]" "\<not> w_crashed demo3" "w_jobs demo3 = []" "w_tick demo3 = 2"
    "w_db demo3 = ?db\<lparr>t_users := [\<lparr>u_id = amy_id, u_username = amy, u_password_hash = [],
      u_password_salt = [], u_created_at = js ''t''\<rparr>]\<rparr>"
    unfolding e by (simp_all add: handleAuth_account_def Let_def emit_def upd_conn_def upd_sess_def roster_get_def
        roster_add_def next_tick_def demo1 m)
qed

definition welcome_amy :: bytes where
  "welcome_amy = uint32be 11 @ utf8_encode (server_line (EvWelcome amy))"

definition demo5 :: World where "demo5 = on_backend_data demo_env 0 welcome_amy demo4"

lemma welcome_data: "on_data welcome_amy (w_conn demo4 0) = (w_conn demo4 0, [EvWelcome amy], False)"
proof -
  have l: "server_line (EvWelcome amy) = js ''WELCOME amy''" by (simp add: amy_def js_append [symmetric])
  have n: "length (utf8_encode (server_line (EvWelcome amy))) = 11" unfolding l by (simp add: utf8_js)
  have p: "parseBackendLine (utf8_decode (utf8_encode (server_line (EvWelcome amy)))) = EvWelcome amy"
    using parse_spoken [of "EvWelcome amy"] by (simp only: l utf8_roundtrip wf_str_js spoken.simps simp_thms)
  have "drain 8192 welcome_amy = ([utf8_encode (server_line (EvWelcome amy))], [], False)"
    using drain_frame [of "utf8_encode (server_line (EvWelcome amy))" 8192] n
    by (simp add: welcome_amy_def drain_short FRAME_HEADER_SIZE_def)
  with p show ?thesis
    by (simp add: on_data_def push_drain demo4_def upd_conn_def demo3 on_connected_def connect_def
        new_BackendConnection_def new_FrameDecoder_def)
qed

lemma demo4: "w_sess demo4 = w_sess demo3" "w_roster demo4 = w_roster demo3" "w_out demo4 = [Dial 0]"
  "bc_socket (w_conn demo4 0) = Wired" "bc_session (w_conn demo4 0) = 0" "w_nconn demo4 = 1" "w_nsess demo4 = 1" "\<not> w_crashed demo4"
  "w_jobs demo4 = []" "w_db demo4 = w_db demo3"
  by (simp_all add: demo4_def upd_conn_def demo3 on_connected_def connect_def new_BackendConnection_def)

definition amy_ready :: ServerMessage where
  "amy_ready = SReady amy_id amy [\<lparr>us_id = amy_id, us_username = amy, us_presence = Online\<rparr>]
     [publicConversation [amy_id]] []"

lemma demo5: "w_out demo5 = [Dial 0, Sent 0 amy_ready]"
proof -
  have "upd_conn 0 (\<lambda>_. w_conn demo4 0) demo4 = demo4" by (simp add: upd_conn_def)
  then have e: "demo5 = onWelcome demo_env 0 amy demo4"
    using welcome_data demo4(5) by (simp add: demo5_def on_backend_data_def)
  have n: "conversationsFor (w_db demo4) amy_id = []" "historyForUser (e_ties demo_env) (w_db demo4) amy_id = []"
    by (simp_all add: demo4 demo3 conversationsFor_def historyForUser_def openDatabase_def
        insert_or_ignore_conversation_def empty_tables_def)
  show ?thesis
    unfolding e using n
    by (simp add: onWelcome_def announceReady_def Let_def sendReady_def sendTo_eq broadcast_eq drainQueue_def
        upd_sess_def is_open_def audience_def demo4 demo3 new_Session_def welcomedUsers_def roster_all_def
        summarize_def sends_def amy_ready_def)
qed

lemma demo_steps:
  "(gateway_step demo_env)\<^sup>*\<^sup>* demo0 demo2" "gateway_step demo_env demo2 demo3"
  "gateway_step demo_env demo3 demo4" "gateway_step demo_env demo4 demo5"
proof -
  have "gateway_step demo_env demo0 demo1" unfolding demo1_def by (rule accept) (simp add: demo0_def)
  moreover have "gateway_step demo_env demo1 demo2"
    unfolding demo2_def by (rule client_message) (simp_all add: demo1 new_Session_def)
  ultimately show "(gateway_step demo_env)\<^sup>*\<^sup>* demo0 demo2" by auto
  show "gateway_step demo_env demo2 demo3"
    using auth_resume [of demo2 "[]" "HashJob 0 amy (js ''password'')" "[]" demo_env]
    by (simp add: demo2 demo1 demo3_def)
  show "gateway_step demo_env demo3 demo4"
    unfolding demo4_def by (rule connected) (simp_all add: demo3 connect_def)
  show "gateway_step demo_env demo4 demo5"
    unfolding demo5_def by (rule gateway_step.backend_data) (simp_all add: demo4 data_events_def welcome_data)
qed

lemma demo_run: "(gateway_step demo_env)\<^sup>*\<^sup>* demo0 demo5"
  using demo_steps by (meson rtranclp.rtrancl_into_rtrancl)

subsection \<open>The properties at the run\<close>

theorem tables_consistent_witness: "db_inv (w_db demo5)"
  using tables_consistent [OF demo_plain demo_init demo_run] by blast

theorem tables_only_grow_witness: "user_ids (w_db demo2) \<subseteq> user_ids (w_db demo3)"
  using tables_only_grow [OF demo_plain demo_init demo_steps(1)
      r_into_rtranclp [where r = "gateway_step demo_env", OF demo_steps(2)]] by blast

theorem authentication_gate_witness:
  "s_authenticated (w_sess demo5 0) \<and> s_id (w_sess demo5 0) \<in> user_ids (w_db demo5)"
proof -
  have "Sent 0 amy_ready \<in> set (w_out demo5)" "\<not> is_error amy_ready" by (simp_all add: demo5 amy_ready_def)
  from authentication_gate [OF demo_plain demo_init demo_run this] show ?thesis by blast
qed

theorem unauthenticated_isolated_witness:
  "isolated 0 demo1 (onClientRaw demo_env 0 [] demo1)
    \<and> w_crashed (onClientRaw (demo_env\<lparr>e_json_parse := (\<lambda>_. Some (JObj [(js ''type'', JObj [(js ''toString'', JNum (js ''1''))])]))\<rparr>) 0 [] demo1)"
proof -
  have s: "\<not> s_authenticated (w_sess demo1 0)" by (simp add: demo1 new_Session_def)
  let ?env = "demo_env\<lparr>e_json_parse := (\<lambda>_. Some (JObj [(js ''type'', JObj [(js ''toString'', JNum (js ''1''))])]))\<rparr>"
  have "fatal_frame ?env []" by (simp add: fatal_frame_def hostile_type_throws)
  with unauthenticated_isolated [OF s, of demo_env "[]"] unauthenticated_isolated [OF s, of ?env "[]"] show ?thesis by blast
qed

theorem login_requires_credentials_witness:
  "proves_account demo_env demo2 amy_id (HashJob 0 amy (js ''password'')) demo3"
  using login_requires_credentials [OF demo_plain demo_init demo_steps(1,2), of 0]
  by (simp add: demo2 demo1 demo3 new_Session_def)

lemma demo_orderly: "(orderly_step demo_env)\<^sup>*\<^sup>* demo0 demo4" "orderly_step demo_env demo4 demo5"
proof -
  have s: "gateway_step demo_env demo0 demo1" "gateway_step demo_env demo1 demo2"
    unfolding demo1_def demo2_def
    by (rule accept, simp add: demo0_def) (rule client_message, simp_all add: demo1 [unfolded demo1_def] new_Session_def)
  have "w_jobs demo5 = []"
  proof -
    have "gw_inv demo4" by (rule reachable_inv [OF demo_plain demo_init]) (use demo_steps in auto)
    then have "serves demo4 demo5" unfolding demo5_def
      by (rule serves_on_backend_data) (simp_all add: demo4 data_events_def welcome_data)
    then show ?thesis by (simp add: servesD demo4)
  qed
  then have one: "one_login demo1" "one_login demo2" "one_login demo3" "one_login demo4" "one_login demo5"
    by (simp_all add: one_login_def demo1 demo2 demo3 demo4)
  have "orderly_step demo_env demo0 demo1" "orderly_step demo_env demo1 demo2" "orderly_step demo_env demo2 demo3"
    "orderly_step demo_env demo3 demo4"
    using s demo_steps(2,3) one by (simp_all add: orderly_step_def)
  then show "(orderly_step demo_env)\<^sup>*\<^sup>* demo0 demo4" by (meson rtranclp.rtrancl_into_rtrancl rtranclp.rtrancl_refl)
  show "orderly_step demo_env demo4 demo5" using demo_steps(4) one by (simp add: orderly_step_def)
qed

theorem conversation_privacy_witness:
  "w_out demo5 = w_out demo4 @ [Sent 0 amy_ready] \<and>
   list_all (\<lambda>c. cs_kind c = KPublic \<or> amy_id \<in> members_of (w_db demo5) (cs_id c)) [publicConversation [amy_id]]"
proof -
  have o: "w_out demo5 = w_out demo4 @ [Sent 0 amy_ready]" by (simp add: demo5 demo4)
  from conversation_privacy [OF demo_plain demo_init demo_orderly o, of 0 amy_ready "s_id (w_sess demo4 0)"]
  show ?thesis using o by (simp add: amy_ready_def demo4 demo3)
qed

theorem ready_then_queue_witness:
  "\<exists>w2. announceReady demo_env 0 demo4 = fold (handleClientMessage demo_env 0) (s_pending (w_sess demo4 0)) w2
     \<and> s_readyAnnounced (w_sess w2 0)"
proof -
  have "is_open demo4 0" by (simp add: is_open_def demo4 demo3 new_Session_def)
  from ready_then_queue [OF this refl refl refl, of demo_env] show ?thesis by auto
qed

theorem disconnect_cleanup_witness: "roster_get (w_roster (onClientClosed 0 demo4)) amy_id = None"
proof -
  have "s_authenticated (w_sess demo4 0)" "\<not> s_closed (w_sess demo4 0)" "amy_id = s_id (w_sess demo4 0)"
    "backend_open demo4 0 0"
    by (simp_all add: demo4 demo3 new_Session_def backend_open_def)
      (simp add: demo4_def upd_conn_def on_connected_def demo3 connect_def new_BackendConnection_def)
  from disconnect_cleanup [OF this refl] show ?thesis by simp
qed

subsection \<open>Two users in a group\<close>

definition user_session :: "nat \<Rightarrow> jsstr \<Rightarrow> jsstr \<Rightarrow> Session" where
  "user_session c i nick = (new_Session [])\<lparr>s_id := i, s_authenticated := True, s_backend := Some c,
     s_nickname := nick, s_readyAnnounced := True, s_welcomed := True\<rparr>"

definition user_row :: "jsstr \<Rightarrow> jsstr \<Rightarrow> UserRow" where
  "user_row i n = \<lparr>u_id = i, u_username = n, u_password_hash = [], u_password_salt = [], u_created_at = []\<rparr>"

definition duo :: World where
  "duo = \<lparr>w_sess = (\<lambda>r. if r = 0 then user_session 0 (js ''a'') (js ''amy'')
            else if r = 1 then user_session 1 (js ''b'') (js ''bob'') else new_Session []), w_nsess = 2,
     w_conn = (\<lambda>c. on_connected (connect (new_BackendConnection c 8192))), w_nconn = 2,
     w_roster = [(js ''a'', 0), (js ''b'', 1)],
     w_db = \<lparr>t_users = [user_row (js ''a'') (js ''amy''), user_row (js ''b'') (js ''bob'')],
             t_conversations = [\<lparr>c_id = PUBLIC_CONVERSATION_ID, c_kind = KPublic, c_title = [], c_created_at = []\<rparr>,
               \<lparr>c_id = js ''group:g'', c_kind = KGroup, c_title = js ''g'', c_created_at = []\<rparr>],
             t_members = [(js ''group:g'', js ''a''), (js ''group:g'', js ''b'')], t_messages = []\<rparr>,
     w_jobs = [], w_tick = 0, w_out = [], w_crashed = False\<rparr>"

lemma duo_sessions: "w_sess duo 0 = user_session 0 (js ''a'') (js ''amy'')" "w_sess duo 1 = user_session 1 (js ''b'') (js ''bob'')"
  "w_roster duo = [(js ''a'', 0), (js ''b'', 1)]" "w_tick duo = 0" "t_messages (w_db duo) = []" "w_out duo = []"
  by (simp_all add: duo_def)

lemma duo_db: "conv_inv (w_db duo)" "plain_db (w_db duo)"
proof -
  have "js ''group:g'' = group_conversation_id (js ''g'')"
    by (simp add: group_conversation_id_def js_append [symmetric])
  then show "conv_inv (w_db duo)"
    using group_not_public [of "js ''g''"] by (auto simp: duo_def conv_inv_def db_inv_defs kinds_ok_def PUBLIC_CONVERSATION_ID_def conv_ids_def user_row_def)
  show "plain_db (w_db duo)"
    by (auto simp: duo_def plain_db_def plain_def user_ids_def members_of_def user_row_def)
qed

lemma duo_inv: "gw_inv duo"
proof -
  have "sessions_inv duo"
    by (simp add: sessions_inv_def duo_def user_session_def new_Session_def user_ids_def user_row_def)
  moreover have "conns_inv duo"
    by (auto simp: conns_inv_def duo_def user_session_def new_Session_def on_connected_def connect_def
        new_BackendConnection_def split: if_splits)
  moreover have "roster_inv duo"
    by (simp add: roster_inv_def roster_wf_def duo_def user_session_def user_ids_def user_row_def)
  ultimately show ?thesis using duo_db by (simp add: gw_inv_def) (simp add: duo_def)
qed

lemma duo_backend: "backend_open duo 0 0"
  by (simp add: backend_open_def duo_def user_session_def on_connected_def connect_def new_BackendConnection_def)

lemma duo_group: "getGroup (w_db duo) (js ''group:g'') = Some \<lparr>g_id = js ''group:g'', g_name = js ''g'', g_memberIds = [js ''a'', js ''b'']\<rparr>"
  by (simp add: getGroup_def duo_def PUBLIC_CONVERSATION_ID_def member_rows_def)

theorem group_delivery_witness:
  "\<exists>m. w_out (handleClientMessage demo_env 0 (SendMessage (TGroup (js ''group:g'')) (js ''hi'')) duo)
      = [Sent 0 (SMessage m), Sent 1 (SMessage m)] \<and> ms_text m = js ''hi''"
proof -
  let ?m = "stored demo_env duo (js ''group:g'') (w_sess duo 0) (js ''hi'')"
  have "s_id (w_sess duo 0) \<in> set [js ''a'', js ''b'']" by (simp add: duo_sessions user_session_def)
  moreover have "fresh_id demo_env duo" by (simp add: fresh_id_def duo_sessions)
  moreover have "online_members duo [js ''a'', js ''b''] = [0, 1]"
    by (simp add: online_members_def duo_sessions roster_get_def map_filter_simps is_open_def user_session_def new_Session_def
        del: One_nat_def)
  ultimately show ?thesis
    using group_delivery [OF duo_group, of 0 demo_env ?m "js ''hi''" "handleClientMessage demo_env 0 (SendMessage (TGroup (js ''group:g'')) (js ''hi'')) duo"]
    by (simp add: sends_def duo_sessions) (simp add: toSummary_def stored_def)
qed

theorem group_refusal_witness:
  "\<exists>e. handleClientMessage demo_env 0 (SendMessage (TGroup (js ''group:x'')) (js ''hi'')) duo
      = duo\<lparr>w_out := w_out duo @ sends (SError (js ''NOT_A_MEMBER'') e (Some (js ''group:x''))) (filter (is_open duo) [0])\<rparr>"
  by (rule group_refusal) (simp add: getGroup_def duo_def PUBLIC_CONVERSATION_ID_def)

theorem public_message_witness:
  "\<exists>m. w_out (handleClientMessage demo_env 0 (SendMessage TPublic (js ''hi'')) duo)
      = [Sent 0 (SMessage m), Wrote 0 [0, 0, 0, 2, 104, 105]]"
proof -
  have f: "fresh_id demo_env duo" by (simp add: fresh_id_def duo_sessions)
  have b: "encodeFrame_str (js ''hi'') = Some [0, 0, 0, 2, 104, 105]"
    by (simp add: encodeFrame_str_def encodeFrame_def utf8_js uint32be_def)
  have o: "filter (is_open duo) [0] = [0]" by (simp add: is_open_def duo_sessions user_session_def new_Session_def)
  from public_message [OF duo_db(1) f duo_backend b refl refl] show ?thesis
    unfolding o by (simp add: sends_def duo_sessions)
qed

theorem direct_message_witness:
  "members_of (w_db (handleClientMessage demo_env 0 (SendMessage (TDirect (js ''b'')) (js ''hi'')) duo))
      (directConversationId (js ''a'') (js ''b'')) = {js ''a'', js ''b''}"
proof -
  have p: "s_authenticated (w_sess duo 0)" "roster_get (w_roster duo) (js ''b'') = Some 1" "s_welcomed (w_sess duo 1)"
    "js ''a'' = s_id (w_sess duo 0)" "js ''b'' = s_id (w_sess duo 1)"
    by (simp_all add: duo_sessions user_session_def roster_get_def del: One_nat_def)
  have f: "e_uuid demo_env (Suc (w_tick duo)) \<notin> m_id ` set (t_messages (w_db duo))" by (simp add: duo_sessions)
  have "s_nickname (w_sess duo 1) = js ''bob''" by (simp add: duo_sessions user_session_def del: One_nat_def)
  then have "encodeFrame_str (formatMsgCommand (s_nickname (w_sess duo 1)) (js ''hi'')) =
      Some (uint32be (length ''/msg bob hi'') @ map of_char ''/msg bob hi'')"
    by (simp add: formatMsgCommand_def js_append [symmetric] encodeFrame_str_def encodeFrame_def utf8_js)
  from direct_message [OF duo_inv p(1-5) refl f duo_backend this refl] show ?thesis by blast
qed

end
