(* ===== verification/GatewayFaults.thy ===== *)
theory GatewayFaults
  imports GatewayScenario
begin

section \<open>Where the gateway's cleanup is incomplete\<close>

text \<open>
  \<open>handleAuth\<close> checks \<open>session.authenticated\<close> and the state of the socket before its awaits
  and not after them, and the roster is cleaned by account id, not by session.  The theorems
  state what follows in three interleavings.
\<close>

lemma account_eq:
  assumes "\<not> (case roster_get (w_roster w) (ur_id acc) of None \<Rightarrow> False | Some q \<Rightarrow> \<not> s_closed (w_sess w q))"
  shows "w_sess (handleAuth_account env r acc w) = (w_sess w)(r := (w_sess w r)\<lparr>s_id := ur_id acc, s_authenticated := True,
      s_desiredUsername := Some (ur_username acc), s_backend := Some (w_nconn w)\<rparr>)"
    and "w_roster (handleAuth_account env r acc w) = AList.update (ur_id acc) r (w_roster w)"
    and "w_nconn (handleAuth_account env r acc w) = Suc (w_nconn w)"
    and "w_conn (handleAuth_account env r acc w) =
      (w_conn w)(w_nconn w := connect (new_BackendConnection r (e_backendMaxMessageBytes env)))"
    and "w_out (handleAuth_account env r acc w) = w_out w @ [Dial (w_nconn w)]"
  using assms by (simp_all add: handleAuth_account_def Let_def emit_def upd_conn_def upd_sess_def roster_add_def cong: if_cong)

lemma verify_account: "login_verify kdf row p = Some acc \<Longrightarrow> ur_id acc = u_id row"
  by (auto simp: login_verify_def to_record_def split: if_splits)

text \<open>A client that leaves while its password is being checked is logged in all the same.  The
  closed session becomes authenticated, enters the roster and dials the backend; it stays so,
  since its close event has been handled already and a further one does nothing.\<close>

theorem login_after_close:
  assumes "s_closed (w_sess w r)" and "login_verify (e_kdf env) row p = Some acc"
    and "roster_get (w_roster w) (u_id row) = None" and "w' = handleAuth_resume env (VerifyJob r row p) w"
  shows "s_authenticated (w_sess w' r) \<and> s_closed (w_sess w' r) \<and> roster_get (w_roster w') (u_id row) = Some r
    \<and> w_out w' = w_out w @ [Dial (w_nconn w)] \<and> onClientClosed r w' = w'"
proof -
  have i: "ur_id acc = u_id row" using assms(2) by (rule verify_account)
  have "\<not> (case roster_get (w_roster w) (ur_id acc) of None \<Rightarrow> False | Some q \<Rightarrow> \<not> s_closed (w_sess w q))"
    using assms(3) by (simp add: i)
  note a = account_eq [OF this, of env r]
  have "w' = handleAuth_account env r acc w" using assms(2,4) by simp
  then show ?thesis using assms(1)
    by (simp add: a onClientClosed_def roster_get_def i alist.get_put)
qed

text \<open>Two logins on one socket leave an alias.  When a client has two logins in flight, as two
  accounts, both succeed: the session takes the second account's id and connection, and the
  roster keeps the first account pointing to it; when the client leaves, that entry stays.\<close>

theorem concurrent_logins_alias:
  assumes "\<not> s_closed (w_sess w r)" and "login_verify (e_kdf env) row1 p1 = Some acc1"
    and "login_verify (e_kdf env) row2 p2 = Some acc2" and "u_id row1 \<noteq> u_id row2"
    and "roster_get (w_roster w) (u_id row1) = None" and "roster_get (w_roster w) (u_id row2) = None"
    and "w1 = handleAuth_resume env (VerifyJob r row1 p1) w" and "w2 = handleAuth_resume env (VerifyJob r row2 p2) w1"
    and "w3 = onClientClosed r w2"
  shows "s_id (w_sess w2 r) = u_id row2 \<and> roster_get (w_roster w2) (u_id row1) = Some r
    \<and> w_out w2 = w_out w @ [Dial (w_nconn w), Dial (Suc (w_nconn w))] \<and> s_backend (w_sess w2 r) = Some (Suc (w_nconn w))
    \<and> s_closed (w_sess w3 r) \<and> roster_get (w_roster w3) (u_id row1) = Some r \<and> \<not> bc_closed (w_conn w3 (w_nconn w))"
proof -
  have i: "ur_id acc1 = u_id row1" "ur_id acc2 = u_id row2" using assms(2,3) by (simp_all add: verify_account)
  have "\<not> (case roster_get (w_roster w) (ur_id acc1) of None \<Rightarrow> False | Some q \<Rightarrow> \<not> s_closed (w_sess w q))"
    using assms(5) by (simp add: i)
  note a = account_eq [OF this, of env r]
  have w1: "w1 = handleAuth_account env r acc1 w" using assms(2,7) by simp
  have "roster_get (w_roster w1) (u_id row2) = None"
    using assms(4,6) by (simp add: w1 a roster_get_def i alist.get_put)
  then have "\<not> (case roster_get (w_roster w1) (ur_id acc2) of None \<Rightarrow> False | Some q \<Rightarrow> \<not> s_closed (w_sess w1 q))"
    by (simp add: i)
  note b = account_eq [OF this, of env r]
  have w2: "w2 = handleAuth_account env r acc2 w1" using assms(3,8) by simp
  have f: "s_authenticated (w_sess w2 r)" "\<not> s_closed (w_sess w2 r)" "s_id (w_sess w2 r) = u_id row2"
    "s_backend (w_sess w2 r) = Some (Suc (w_nconn w))" "roster_get (w_roster w2) (u_id row1) = Some r"
    "w_out w2 = w_out w @ [Dial (w_nconn w), Dial (Suc (w_nconn w))]" "\<not> bc_closed (w_conn w2 (w_nconn w))"
    using assms(1,4) by (simp_all add: w2 b i) (simp_all add: w1 a i roster_get_def alist.get_put connect_def new_BackendConnection_def)
  have "s_closed (w_sess w3 r) \<and> roster_get (w_roster w3) (u_id row1) = Some r \<and> \<not> bc_closed (w_conn w3 (w_nconn w))"
    using f assms(4)
    by (simp add: assms(9) onClientClosed_def Let_def backend_close_def upd_sess_def upd_conn_def emit_def close_def
        broadcast_eq roster_get_remove)
  with f show ?thesis by blast
qed

text \<open>A failed connection takes the next session down with it.  When the backend cannot be
  reached, the account leaves the roster although its socket is still closing; if it logs in
  again on another socket before the old one has closed, the old socket's close event removes
  the new session from the roster, which stays connected and unreachable.\<close>

theorem stale_close_removes_new_session:
  assumes "s_authenticated (w_sess w r)" and "\<not> s_closed (w_sess w r)" and "i = s_id (w_sess w r)"
    and "w1 = handleAuth_unavailable r w" and "q \<noteq> r" and "ur_id acc = i" and "\<not> s_closed (w_sess w q)"
    and "w2 = handleAuth_account env q acc w1" and "w3 = onClientClosed r w2"
  shows "roster_get (w_roster w2) i = Some q \<and> roster_get (w_roster w3) i = None
    \<and> s_authenticated (w_sess w3 q) \<and> s_id (w_sess w3 q) = i \<and> \<not> s_closed (w_sess w3 q)"
proof -
  have f1: "w_roster w1 = roster_remove i (w_roster w)" "s_id (w_sess w1 r) = i" "s_authenticated (w_sess w1 r)"
    "\<not> s_closed (w_sess w1 r)" "\<not> s_closed (w_sess w1 q)"
    using assms(1-3,5,7)
    by (simp_all add: assms(4) handleAuth_unavailable_def Let_def ws_close_def sendTo_eq emit_def upd_sess_def)
  have "\<not> (case roster_get (w_roster w1) (ur_id acc) of None \<Rightarrow> False | Some q \<Rightarrow> \<not> s_closed (w_sess w1 q))"
    by (simp add: f1 assms(6) roster_get_remove)
  note a = account_eq [OF this, of env q]
  have f2: "roster_get (w_roster w2) i = Some q" "s_id (w_sess w2 r) = i" "s_authenticated (w_sess w2 r)" "\<not> s_closed (w_sess w2 r)"
    "s_authenticated (w_sess w2 q)" "s_id (w_sess w2 q) = i" "\<not> s_closed (w_sess w2 q)"
    using f1 assms(5,6) by (simp_all add: assms(8) a roster_get_def alist.get_put)
  show ?thesis
    using f2 assms(5)
    by (simp add: assms(9) onClientClosed_def Let_def backend_close_def upd_sess_def upd_conn_def emit_def close_def
        broadcast_eq roster_get_remove split: option.split)
qed

subsection \<open>The interleavings exist\<close>

text \<open>A server with the accounts of \<open>duo\<close>, whose passwords verify under the key derivation of
  \<open>demo_env\<close>, and fresh sockets.\<close>

definition lobby :: World where
  "lobby = duo\<lparr>w_sess := (\<lambda>r. new_Session []), w_nconn := 0, w_roster := []\<rparr>"

lemma lobby_login: "login_verify (e_kdf demo_env) (user_row i n) p = Some \<lparr>ur_id = i, ur_username = n\<rparr>"
  by (simp add: login_verify_def verifyPassword_def user_row_def demo_env_def to_record_def Let_def)

lemma lobby: "w_sess lobby r = new_Session []" "w_roster lobby = []" "u_id (user_row i n) = i" "w_nconn lobby = 0"
  by (simp_all add: lobby_def user_row_def)

theorem login_after_close_witness:
  "\<exists>w' :: World. s_authenticated (w_sess w' 0) \<and> s_closed (w_sess w' 0) \<and> roster_get (w_roster w') (js ''a'') = Some 0"
proof -
  let ?w = "onClientClosed 0 lobby"
  have w: "s_closed (w_sess ?w 0)" "roster_get (w_roster ?w) (js ''a'') = None"
    by (simp_all add: onClientClosed_def upd_sess_def lobby new_Session_def roster_get_def)
  from login_after_close [OF w(1) lobby_login, of "js ''a''" "js ''amy''", unfolded lobby(3), OF w(2) refl]
  show ?thesis by blast
qed

theorem concurrent_logins_alias_witness:
  "\<exists>w :: World. s_id (w_sess w 0) = js ''b'' \<and> roster_get (w_roster w) (js ''a'') = Some 0"
proof -
  have w: "\<not> s_closed (w_sess lobby 0)" "js ''a'' \<noteq> js ''b''" "roster_get (w_roster lobby) i = None" for i
    by (simp_all add: lobby new_Session_def roster_get_def)
  from concurrent_logins_alias [OF w(1) lobby_login lobby_login _ _ _ refl refl refl,
      of "js ''a''" "js ''amy''" "js ''b''" "js ''bob''"] w(2,3)
  show ?thesis unfolding lobby(3) by blast
qed

theorem stale_close_removes_new_session_witness:
  "\<exists>w :: World. roster_get (w_roster w) (js ''a'') = None \<and> s_authenticated (w_sess w 2) \<and> s_id (w_sess w 2) = js ''a''"
proof -
  have w: "s_authenticated (w_sess duo 0)" "\<not> s_closed (w_sess duo 0)" "js ''a'' = s_id (w_sess duo 0)" "\<not> s_closed (w_sess duo 2)"
    by (simp_all add: duo_def user_session_def new_Session_def)
  have "(2::nat) \<noteq> 0" "ur_id \<lparr>ur_id = js ''a'', ur_username = js ''amy''\<rparr> = js ''a''" by simp_all
  from stale_close_removes_new_session [OF w(1-3) refl this w(4) refl refl, of demo_env]
  show ?thesis by blast
qed

end
