(* ===== verification/Config.thy ===== *)
theory Config
  imports JsString
begin

section \<open>Configuration and logging (gateway/src/config.ts, gateway/src/logger.ts)\<close>

text \<open>
  The configuration read from the environment variables, and the filter of the logger.  The
  levels are a linear order, so that \<open>ORDER[level] < ORDER[this.minLevel]\<close> is \<open><\<close>.
\<close>

subsection \<open>logger.ts\<close>

datatype Level = Debug | Info | Warn | Error

fun ORDER :: "Level \<Rightarrow> nat" where
  "ORDER Debug = 0"
| "ORDER Info = 1"
| "ORDER Warn = 2"
| "ORDER Error = 3"

instantiation Level :: linorder
begin

definition less_eq_Level :: "Level \<Rightarrow> Level \<Rightarrow> bool" where
  "less_eq_Level a b \<longleftrightarrow> ORDER a \<le> ORDER b"

definition less_Level :: "Level \<Rightarrow> Level \<Rightarrow> bool" where
  "less_Level a b \<longleftrightarrow> ORDER a < ORDER b"

instance
proof
  fix a b c :: Level
  show "a < b \<longleftrightarrow> a \<le> b \<and> \<not> b \<le> a" by (auto simp: less_Level_def less_eq_Level_def)
  show "a \<le> a" by (simp add: less_eq_Level_def)
  show "a \<le> b \<Longrightarrow> b \<le> c \<Longrightarrow> a \<le> c" by (simp add: less_eq_Level_def)
  show "a \<le> b \<Longrightarrow> b \<le> a \<Longrightarrow> a = b" by (cases a; cases b; simp add: less_eq_Level_def)
  show "a \<le> b \<or> b \<le> a" by (auto simp: less_eq_Level_def)
qed

end

fun level_name :: "Level \<Rightarrow> jsstr" where
  "level_name Debug = js ''DEBUG''"
| "level_name Info = js ''INFO''"
| "level_name Warn = js ''WARN''"
| "level_name Error = js ''ERROR''"

datatype Stream = Stdout | Stderr

text \<open>\<open>ts\<close> is the time stamp already rewritten by the two \<open>replace\<close> calls.\<close>

definition log_write :: "Level \<Rightarrow> jsstr \<Rightarrow> Level \<Rightarrow> jsstr \<Rightarrow> (Stream \<times> jsstr) option" where
  "log_write minLevel ts level msg =
     (if level < minLevel then None
      else let line = js ''['' @ ts @ js ''] ['' @ level_name level @ js ''] '' @ msg
           in Some (if level = Warn \<or> level = Error then Stderr else Stdout, line))"

subsection \<open>config.ts\<close>

type_synonym environ = "jsstr \<Rightarrow> jsstr option"

record GatewayConfig =
  gatewayPort :: int
  backendHost :: jsstr
  backendPort :: int
  maxClientMessageBytes :: int
  backendMaxMessageBytes :: int
  logLevel :: Level
  dbPath :: jsstr

definition DEFAULTS :: GatewayConfig where
  "DEFAULTS = \<lparr>gatewayPort = 8081, backendHost = js ''127.0.0.1'', backendPort = 8080,
     maxClientMessageBytes = 16 * 1024, backendMaxMessageBytes = 8192, logLevel = Info, dbPath = js ''./threadlink.db''\<rparr>"

text \<open>The warning that accompanies a fallback is not part of the value.  \<open>Number.parseInt(raw, 10)\<close>
  gives \<open>None\<close> for NaN.  A text so long that the number is not exact
  is above every maximum used here, as the exact value is.\<close>

definition intFromEnv :: "environ \<Rightarrow> string \<Rightarrow> int \<Rightarrow> int \<Rightarrow> int \<Rightarrow> int" where
  "intFromEnv env name fallback mn mx =
     (case env (js name) of
        None \<Rightarrow> fallback
      | Some raw \<Rightarrow>
          if raw = [] then fallback
          else (case parse_int raw of
                  None \<Rightarrow> fallback
                | Some value \<Rightarrow> if value < mn \<or> value > mx then fallback else value))"

definition logLevelFromEnv :: "environ \<Rightarrow> Level \<Rightarrow> Level" where
  "logLevelFromEnv env fallback =
     (let raw = to_lower (case env (js ''LOG_LEVEL'') of None \<Rightarrow> [] | Some s \<Rightarrow> s) in
      if raw = js ''debug'' then Debug
      else if raw = js ''info'' then Info
      else if raw = js ''warn'' then Warn
      else if raw = js ''error'' then Error
      else fallback)"

text \<open>\<open>process.env[name]?.trim() || fallback\<close>.\<close>

definition textFromEnv :: "environ \<Rightarrow> string \<Rightarrow> jsstr \<Rightarrow> jsstr" where
  "textFromEnv env name fallback =
     (case env (js name) of None \<Rightarrow> fallback | Some s \<Rightarrow> if trim s = [] then fallback else trim s)"

definition loadConfig :: "environ \<Rightarrow> GatewayConfig" where
  "loadConfig env =
     \<lparr>gatewayPort = intFromEnv env ''GATEWAY_PORT'' (gatewayPort DEFAULTS) 1 65535,
      backendHost = textFromEnv env ''BACKEND_HOST'' (backendHost DEFAULTS),
      backendPort = intFromEnv env ''BACKEND_PORT'' (backendPort DEFAULTS) 1 65535,
      maxClientMessageBytes = intFromEnv env ''MAX_CLIENT_MESSAGE_BYTES'' (maxClientMessageBytes DEFAULTS) 64 (1024 * 1024),
      backendMaxMessageBytes = intFromEnv env ''BACKEND_MAX_MESSAGE_BYTES'' (backendMaxMessageBytes DEFAULTS) 64 (16 * 1024 * 1024),
      logLevel = logLevelFromEnv env (logLevel DEFAULTS),
      dbPath = textFromEnv env ''DB_PATH'' (dbPath DEFAULTS)\<rparr>"

lemma intFromEnv_bounds: "mn \<le> d \<Longrightarrow> d \<le> mx \<Longrightarrow> mn \<le> intFromEnv env name d mn mx \<and> intFromEnv env name d mn mx \<le> mx"
  by (auto simp: intFromEnv_def split: option.split)

lemma intFromEnv_value:
  "env (js name) = Some (show_nat n) \<Longrightarrow> mn \<le> int n \<Longrightarrow> int n \<le> mx \<Longrightarrow> intFromEnv env name d mn mx = int n"
  using parse_int_show_nat [of n] by (auto simp: intFromEnv_def parse_int_show_nat)

text \<open>The configuration is always usable, whatever the environment holds: ports are TCP
  ports, the two size limits lie between 64 bytes and their maxima, the host and the path are
  not empty; and a number in range that is written in decimal is the one used.\<close>

theorem config_usable:
  "(let c = loadConfig env in
      1 \<le> gatewayPort c \<and> gatewayPort c \<le> 65535 \<and> 1 \<le> backendPort c \<and> backendPort c \<le> 65535
    \<and> 64 \<le> maxClientMessageBytes c \<and> maxClientMessageBytes c \<le> 1048576
    \<and> 64 \<le> backendMaxMessageBytes c \<and> backendMaxMessageBytes c \<le> 16777216
    \<and> backendHost c \<noteq> [] \<and> dbPath c \<noteq> []
    \<and> (env (js ''GATEWAY_PORT'') = Some (show_nat n) \<and> 1 \<le> n \<and> n \<le> 65535 \<longrightarrow> gatewayPort c = int n))"
proof -
  have t: "d \<noteq> [] \<Longrightarrow> textFromEnv env name d \<noteq> []" for name d
    by (auto simp: textFromEnv_def split: option.split)
  show ?thesis
    using intFromEnv_bounds [of 1 8081 65535 env "''GATEWAY_PORT''"] intFromEnv_bounds [of 1 8080 65535 env "''BACKEND_PORT''"]
      intFromEnv_bounds [of 64 16384 1048576 env "''MAX_CLIENT_MESSAGE_BYTES''"]
      intFromEnv_bounds [of 64 8192 16777216 env "''BACKEND_MAX_MESSAGE_BYTES''"]
      intFromEnv_value [of env "''GATEWAY_PORT''" n 1 65535]
    by (simp add: Let_def loadConfig_def DEFAULTS_def t)
qed

theorem config_usable_witness:
  "gatewayPort (loadConfig [js ''GATEWAY_PORT'' \<mapsto> show_nat 9000]) = 9000"
  using config_usable [of "[js ''GATEWAY_PORT'' \<mapsto> show_nat 9000]" 9000] by (simp add: Let_def)

end
