(* ===== verification/GatewayProcess.thy ===== *)
theory GatewayProcess
  imports GatewayScenario Config
begin

section \<open>The gateway process (gateway/src/index.ts)\<close>

text \<open>
  What the process puts together: the configuration, the tables of the database file, the server,
  and its end on a signal.  \<open>shutdown\<close> is cut at \<open>await server.close()\<close>; until the sockets are
  closed, the events of the server still run.  The process can also be killed, and not only between
  two handlers: as no handler opens a transaction, the tables are then left after any of its
  statements.  A restart opens the tables of the process before.
\<close>

record Process =
  pr_world :: World
  pr_shuttingDown :: bool
  pr_exit :: "nat option"



text \<open>What the configuration fixes of the environment.\<close>

definition configured :: "GatewayConfig \<Rightarrow> Env \<Rightarrow> Env" where
  "configured config env = env\<lparr>e_maxClientMessageBytes := nat (maxClientMessageBytes config),
     e_backendMaxMessageBytes := nat (backendMaxMessageBytes config)\<rparr>"

definition shutdown_signal :: "Process \<Rightarrow> Process" where
  "shutdown_signal p =
     (if pr_shuttingDown p then p
      else p\<lparr>pr_shuttingDown := True, pr_world := server_close (pr_world p)\<rparr>)"

text \<open>\<open>server.close()\<close> or \<open>db.close()\<close> has ended: well, or with an error.\<close>

definition shutdown_ended :: "bool \<Rightarrow> Process \<Rightarrow> Process" where
  "shutdown_ended ok p = p\<lparr>pr_exit := Some (if ok then 0 else 1)\<rparr>"

text \<open>The exit code of a process that was killed.\<close>

abbreviation SIGKILLED :: nat where "SIGKILLED \<equiv> 137"

inductive process_step :: "Env \<Rightarrow> Process \<Rightarrow> Process \<Rightarrow> bool" for env where
  runs: "pr_exit p = None \<Longrightarrow> gateway_step env (pr_world p) w \<Longrightarrow> process_step env p (p\<lparr>pr_world := w\<rparr>)"
| signal: "pr_exit p = None \<Longrightarrow> \<not> w_crashed (pr_world p) \<Longrightarrow> process_step env p (shutdown_signal p)"
| ended: "pr_exit p = None \<Longrightarrow> \<not> w_crashed (pr_world p) \<Longrightarrow> pr_shuttingDown p \<Longrightarrow> process_step env p (shutdown_ended ok p)"
| killed: "pr_exit p = None \<Longrightarrow> gateway_step env (pr_world p) w \<Longrightarrow> stmt\<^sup>*\<^sup>* (w_db (pr_world p)) d \<Longrightarrow> stmt\<^sup>*\<^sup>* d (w_db w) \<Longrightarrow>
    process_step env p (p\<lparr>pr_world := (pr_world p)\<lparr>w_db := d\<rparr>, pr_exit := Some SIGKILLED\<rparr>)"









subsection \<open>Properties\<close>



text \<open>What a kill can break.  Killed after the first statement of \<open>ensureDirect\<close>, the conversation of two
  accounts has no members, and never gets any: the next \<open>ensureDirect\<close> finds the row and inserts
  nothing.  Neither account is shown the conversation after a login, and a message that is stored
  in it is in the history of neither.\<close>

theorem torn_direct_never_heals:
  assumes "conv_inv db" and "\<not> hasDirect db i" and "i = directConversationId a b"
    and "d = insert_or_ignore_conversation \<lparr>c_id = i, c_kind = KDirect, c_title = [], c_created_at = now\<rparr> db"
    and "d_conversationId draft = i" and "append uuid t draft d = Inr (d', s)"
  shows "stmt\<^sup>*\<^sup>* db d \<and> stmt\<^sup>*\<^sup>* d (fst (ensureDirect now a b db)) \<and> members_of d i = {}
    \<and> fst (ensureDirect later a b d) = d \<and> i \<notin> cs_id ` set (conversationsFor d u) \<and> s \<notin> set (historyForUser ties d' u)"
proof -
  have h: "\<not> hasDirect db (directConversationId a b)" using assms(2,3) by simp
  note st = ensureDirect_stmts [OF h assms(3,4) refl]
  have new: "i \<notin> conv_ids db" using assms(1,2) hasDirect_iff unfolding assms(3) conv_inv_def by blast
  have "members_of db i = {}" using no_members [OF _ new] assms(1) by (simp add: conv_inv_def)
  then have m: "members_of d i = {}" by (simp add: assms(4) members_of_def)
  have "hasDirect d i" using new by (auto simp: assms(4) hasDirect_def insert_or_ignore_conversation_def conv_ids_def)
  then have e: "fst (ensureDirect later a b d) = d" by (simp add: ensureDirect_def Let_def assms(3))
  have c: "i \<notin> cs_id ` set (conversationsFor d u)" using m by (auto simp: conversationsFor_elem)
  have row: "m_conversation_id (message_row uuid t draft) = i" by (simp add: message_row_def assms(5))
  have "members_of d' = members_of d" using append_frame(2) [OF assms(6)] by (simp add: members_of_def fun_eq_iff)
  then have "\<not> visible_to d' u (message_row uuid t draft)"
    using m row direct_not_public [of a b] by (simp add: visible_members assms(3))
  then have "s \<notin> set (historyForUser ties d' u)"
    using append_Inr [OF assms(6)] injD [OF inj_toSummary] by (auto simp: history_set)
  with st e c m show ?thesis by (meson rtranclp_trans)
qed

text \<open>Without environment variables the limits are 16 KiB and 8 KiB.\<close>

lemma default_limits: "e_maxClientMessageBytes (configured (loadConfig (\<lambda>_. None)) env) = 16384"
  "e_backendMaxMessageBytes (configured (loadConfig (\<lambda>_. None)) env) = 8192"
  by (simp_all add: configured_def loadConfig_def intFromEnv_def DEFAULTS_def)

text \<open>A second signal does nothing, and the process exits once.\<close>

lemma signal_idempotent: "shutdown_signal (shutdown_signal p) = shutdown_signal p"
  by (simp add: shutdown_signal_def)

lemma exit_is_final: "pr_exit p \<noteq> None \<Longrightarrow> \<not> process_step env p q"
  by (auto elim: process_step.cases)

end
