(* ===== verification/BackendServer.thy ===== *)
theory BackendServer
  imports BackendMessages WireProtocol
begin

section \<open>The C++ server behind the gateway (src/Server.cpp, src/Protocol.cpp)\<close>

text \<open>
  The chat server that the gateway connects every account to.  A file descriptor is a number;
  strings are bytes.  The map of clients is shared by the acceptor thread and one handler thread
  per client; what a thread does inside one critical section of \<open>clients_mtx_\<close> is one step, and
  so is the writing of one frame, which the write mutex of its client protects.  A frame is written
  whole or not at all: where \<open>send_all\<close> fails part-way, the connection is broken, and its reader is
  left with a part of a frame, of which it makes nothing.  What a thread
  has still to do is its list of tasks; steps of all threads interleave in any order.

  The order in which \<open>std::unordered_map\<close> is iterated is not specified: the targets of a
  broadcast are taken in any order.  Logging, the console and signals are not modelled, apart
  from the shutdown that they request.
\<close>

definition asc :: "string \<Rightarrow> bytes" where
  "asc s = map of_char s"

definition BSP :: "8 word" where
  "BSP = 32"

subsection \<open>Words and lines\<close>

text \<open>\<open>split_first\<close> of the server, on bytes.\<close>

definition split_first :: "bytes \<Rightarrow> bytes \<times> bytes" where
  "split_first s = (takeWhile (\<lambda>b. b \<noteq> BSP) s, tl (dropWhile (\<lambda>b. b \<noteq> BSP) s))"

text \<open>\<open>std::isspace\<close> and \<open>std::isalnum\<close> of the C locale, and \<open>iss >> word\<close>.\<close>

definition is_space :: "8 word \<Rightarrow> bool" where
  "is_space b \<longleftrightarrow> b = 32 \<or> (9 \<le> b \<and> b \<le> 13)"

definition is_alnum :: "8 word \<Rightarrow> bool" where
  "is_alnum b \<longleftrightarrow> (48 \<le> b \<and> b \<le> 57) \<or> (65 \<le> b \<and> b \<le> 90) \<or> (97 \<le> b \<and> b \<le> 122)"

definition read_word :: "bytes \<Rightarrow> bytes \<times> bytes" where
  "read_word s = (let t = dropWhile is_space s
                  in (takeWhile (\<lambda>b. \<not> is_space b) t, dropWhile (\<lambda>b. \<not> is_space b) t))"

definition MAX_NICKNAME_LENGTH :: nat where
  "MAX_NICKNAME_LENGTH = 24"

definition is_valid_nickname :: "bytes \<Rightarrow> bool" where
  "is_valid_nickname nick \<longleftrightarrow> nick \<noteq> [] \<and> length nick \<le> MAX_NICKNAME_LENGTH
     \<and> (\<forall>c \<in> set nick. is_alnum c \<or> c = 95 \<or> c = 45)"

definition decimal :: "nat \<Rightarrow> bytes" where
  "decimal n = map (\<lambda>u. word_of_nat (unat u)) (show_nat n)"

subsection \<open>State\<close>

record ClientRecord =
  cr_nickname :: bytes
  cr_welcomed :: bool

text \<open>What a thread has still to do: look a client up and send it a frame, write a frame to a
  socket, choose the targets of a broadcast, set \<open>welcomed\<close>, start a handler thread, remove the
  client at the end of a handler, close its socket.\<close>

datatype Task =
    SendTo nat bytes
  | WriteFrame nat bytes
  | Broadcast bytes "nat option"
  | MarkWelcomed nat
  | Spawn nat
  | Leave nat
  | CloseSocket nat

datatype Thread = Acceptor | Handler nat

datatype Event = Accepted nat | Frame nat bytes | Closed nat

record Server =
  sv_clients :: "(nat \<times> ClientRecord) list"
  sv_open :: "nat list"
  sv_reading :: "nat list"
  sv_tasks :: "Thread \<Rightarrow> Task list"
  sv_out :: "Event list"
  sv_running :: bool

record ServerConfig =
  max_clients :: nat
  max_message_size :: nat

definition new_Server :: Server where
  "new_Server = \<lparr>sv_clients = [], sv_open = [], sv_reading = [], sv_tasks = (\<lambda>_. []), sv_out = [], sv_running = True\<rparr>"

definition find_client :: "nat \<Rightarrow> Server \<Rightarrow> ClientRecord option" where
  "find_client fd sv = map_of (sv_clients sv) fd"

definition set_client :: "nat \<Rightarrow> ClientRecord \<Rightarrow> Server \<Rightarrow> Server" where
  "set_client fd rec sv = sv\<lparr>sv_clients := AList.update fd rec (sv_clients sv)\<rparr>"

definition nicknames :: "Server \<Rightarrow> bytes set" where
  "nicknames sv = (\<lambda>(fd, rec). cr_nickname rec) ` set (sv_clients sv)"

subsection \<open>The handlers: the critical section and what is left to do\<close>

definition send_error :: "nat \<Rightarrow> string \<Rightarrow> bytes \<Rightarrow> Task list" where
  "send_error fd code text = [SendTo fd (asc ''ERR '' @ asc code @ asc '' '' @ text)]"

definition handle_nick :: "nat \<Rightarrow> bytes \<Rightarrow> Server \<Rightarrow> Server \<times> Task list" where
  "handle_nick fd args sv =
     (let (new_nick, rest) = read_word args; (trailing_junk, _) = read_word rest in
      if trailing_junk \<noteq> [] then (sv, send_error fd ''NICK_INVALID'' (asc ''Nickname must not contain spaces''))
      else if new_nick = [] then (sv, send_error fd ''NICK_EMPTY'' (asc ''Usage: /nick <name>''))
      else if \<not> is_valid_nickname new_nick then
        (sv, send_error fd ''NICK_INVALID'' (asc ''Nickname must be 1-'' @ decimal MAX_NICKNAME_LENGTH
           @ asc '' characters: letters, digits, '' @ [39, 95, 39] @ asc '' or '' @ [39, 45, 39] @ asc '' only''))
      else if \<exists>(other_fd, rec) \<in> set (sv_clients sv). other_fd \<noteq> fd \<and> cr_nickname rec = new_nick
      then (sv, send_error fd ''NICK_TAKEN'' (asc ''Nickname '' @ [39] @ new_nick @ [39] @ asc '' is already in use''))
      else (case find_client fd sv of
          None \<Rightarrow> (sv, [])
        | Some rec \<Rightarrow> (set_client fd (rec\<lparr>cr_nickname := new_nick\<rparr>) sv,
            [Broadcast (asc ''NICK '' @ cr_nickname rec @ asc '' '' @ new_nick) None])))"

text \<open>The loop that looks for the target stops at the first welcomed client with the name.\<close>

definition handle_msg :: "nat \<Rightarrow> bytes \<Rightarrow> Server \<Rightarrow> Server \<times> Task list" where
  "handle_msg fd args sv =
     (let (target, text) = split_first args in
      if target = [] \<or> text = [] then (sv, send_error fd ''MSG_USAGE'' (asc ''Usage: /msg <nickname> <message>''))
      else (case find_client fd sv of
          None \<Rightarrow> (sv, [])
        | Some self \<Rightarrow>
            (case find (\<lambda>(other_fd, rec). cr_welcomed rec \<and> cr_nickname rec = target) (sv_clients sv) of
               None \<Rightarrow> (sv, send_error fd ''USER_NOT_FOUND'' (asc ''User '' @ [39] @ target @ [39] @ asc '' not found''))
             | Some (target_fd, _) \<Rightarrow>
                 if target_fd = fd then (sv, send_error fd ''MSG_SELF'' (asc ''You cannot send a private message to yourself''))
                 else (sv, [SendTo target_fd (asc ''PRIV '' @ cr_nickname self @ asc '' '' @ text),
                            SendTo fd (asc ''PRIV_SENT '' @ target @ asc '' '' @ text)]))))"

text \<open>\<open>std::string\<close> compares bytes as unsigned numbers.\<close>

definition handle_list :: "nat \<Rightarrow> Server \<Rightarrow> Server \<times> Task list" where
  "handle_list fd sv =
     (let names = sort (map (cr_nickname \<circ> snd) (filter (cr_welcomed \<circ> snd) (sv_clients sv)))
      in (sv, [SendTo fd (asc ''LIST '' @ decimal (length names) @ concat (map (\<lambda>n. asc '' '' @ n) names))]))"

definition eol_byte :: "8 word \<Rightarrow> bool" where
  "eol_byte b \<longleftrightarrow> b = 13 \<or> b = 10"

definition strip_line :: "bytes \<Rightarrow> bytes" where
  "strip_line raw = rev (dropWhile eol_byte (rev raw))"

text \<open>The state, the tasks, and whether the handler goes on reading.\<close>

definition serve_line :: "nat \<Rightarrow> bytes \<Rightarrow> Server \<Rightarrow> Server \<times> Task list \<times> bool" where
  "serve_line fd raw sv =
     (let line = strip_line raw in
      if line = [] then (sv, [], True)
      else if hd line = 47 then
        (let (cmd, rest) = split_first line in
         if cmd = asc ''/nick'' then (let (sv', ts) = handle_nick fd rest sv in (sv', ts, True))
         else if cmd = asc ''/msg'' then (let (sv', ts) = handle_msg fd rest sv in (sv', ts, True))
         else if cmd = asc ''/list'' then (let (sv', ts) = handle_list fd sv in (sv', ts, True))
         else if cmd = asc ''/exit'' then (sv, [], False)
         else (sv, send_error fd ''BAD_CMD'' (asc ''Unknown command '' @ [39] @ cmd @ [39]), True))
      else (case find_client fd sv of
          None \<Rightarrow> (sv, [], True)
        | Some rec \<Rightarrow> (sv, [Broadcast (asc ''MSG '' @ cr_nickname rec @ asc '' '' @ line) (Some fd)], True)))"

subsection \<open>The default nickname\<close>

definition default_name :: "nat \<Rightarrow> bytes" where
  "default_name n = asc ''User'' @ decimal n"

lemma show_nat_inj: "show_nat m = show_nat n \<Longrightarrow> m = n"
proof -
  assume "show_nat m = show_nat n"
  then have "parse_int (show_nat m) = parse_int (show_nat n)" by (rule arg_cong)
  then show ?thesis by (simp only: parse_int_show_nat option.inject of_nat_eq_iff)
qed

lemma show_nat_byte: "u \<in> set (show_nat n) \<Longrightarrow> 48 \<le> unat u \<and> unat u \<le> 57"
proof -
  assume "u \<in> set (show_nat n)"
  then have "is_digit u" using show_nat_digits by blast
  then show ?thesis by (simp add: is_digit_def word_le_nat_alt)
qed

lemma decimal_inj: "decimal m = decimal n \<Longrightarrow> m = n"
proof -
  have u: "unat (word_of_nat (unat u) :: 8 word) = unat u" if "u \<in> set (show_nat k)" for u k
    using show_nat_byte [OF that] by (simp add: unsigned_ucast_eq take_bit_nat_eq_self)
  assume "decimal m = decimal n"
  then have "map unat (decimal m) = map unat (decimal n)" by simp
  then have "map unat (show_nat m) = map unat (show_nat n)"
    using u by (simp add: decimal_def cong: map_cong)
  then have "show_nat m = show_nat n" by (rule map_injective) (simp add: inj_def word_unat_eq_iff)
  then show "m = n" by (rule show_nat_inj)
qed

lemma default_name_inj: "default_name m = default_name n \<Longrightarrow> m = n"
  by (simp add: default_name_def decimal_inj)

lemma finite_defaults: "finite {m. n \<le> m \<and> default_name m \<in> set names}"
proof (rule finite_imageD)
  show "finite (default_name ` {m. n \<le> m \<and> default_name m \<in> set names})"
    by (rule finite_subset [of _ "set names"]) auto
  show "inj_on default_name {m. n \<le> m \<and> default_name m \<in> set names}"
    by (auto intro: inj_onI default_name_inj)
qed

text \<open>The loop of \<open>assign_default_nickname_locked\<close>; it ends because there are finitely many
  clients.\<close>

function default_from :: "nat \<Rightarrow> bytes list \<Rightarrow> bytes" where
  "default_from n names = (if default_name n \<in> set names then default_from (Suc n) names else default_name n)"
  by pat_completeness auto
termination
proof (relation "measure (\<lambda>(n, names). card {m. n \<le> m \<and> default_name m \<in> set names})")
  fix n names
  assume "default_name n \<in> set names"
  then have "n \<in> {m. n \<le> m \<and> default_name m \<in> set names} - {m. Suc n \<le> m \<and> default_name m \<in> set names}" by simp
  moreover have "{m. Suc n \<le> m \<and> default_name m \<in> set names} \<subseteq> {m. n \<le> m \<and> default_name m \<in> set names}"
    using Suc_leD by blast
  ultimately have "{m. Suc n \<le> m \<and> default_name m \<in> set names} \<subset> {m. n \<le> m \<and> default_name m \<in> set names}" by blast
  with finite_defaults [of n names]
  show "((Suc n, names), n, names) \<in> measure (\<lambda>(n, names). card {m. n \<le> m \<and> default_name m \<in> set names})"
    by (simp add: psubset_card_mono)
qed simp

declare default_from.simps [simp del]

definition assign_default_nickname :: "Server \<Rightarrow> bytes" where
  "assign_default_nickname sv = default_from 1 (map (cr_nickname \<circ> snd) (sv_clients sv))"

lemma default_from_spec: "\<exists>k. default_from n names = default_name k \<and> n \<le> k \<and> default_name k \<notin> set names \<and> (\<forall>m. n \<le> m \<and> m < k \<longrightarrow> default_name m \<in> set names)"
proof (induction n names rule: default_from.induct)
  case (1 n names)
  show ?case
  proof (cases "default_name n \<in> set names")
    case True
    then obtain k where "default_from (Suc n) names = default_name k" "Suc n \<le> k" "default_name k \<notin> set names"
      "\<forall>m. Suc n \<le> m \<and> m < k \<longrightarrow> default_name m \<in> set names" using 1 by blast
    moreover from this True have "default_name m \<in> set names" if "n \<le> m \<and> m < k" for m
      using that by (cases "m = n") auto
    ultimately show ?thesis
      using True by (intro exI [of _ k]) (simp add: default_from.simps [of n])
  next
    case False
    then show ?thesis by (intro exI [of _ n]) (auto simp: default_from.simps [of n])
  qed
qed

subsection \<open>The threads as a step relation\<close>

definition set_tasks :: "Thread \<Rightarrow> Task list \<Rightarrow> Server \<Rightarrow> Server" where
  "set_tasks t ts sv = sv\<lparr>sv_tasks := (sv_tasks sv)(t := ts)\<rparr>"

definition accept_one :: "ServerConfig \<Rightarrow> nat \<Rightarrow> Server \<Rightarrow> Server" where
  "accept_one cfg fd sv =
     (let sv1 = sv\<lparr>sv_open := sv_open sv @ [fd], sv_out := sv_out sv @ [Accepted fd]\<rparr> in
      if length (sv_clients sv) \<ge> max_clients cfg
      then set_tasks Acceptor [WriteFrame fd (asc ''ERR SERVER_FULL Server is full, try again later''), CloseSocket fd] sv1
      else (let nickname = assign_default_nickname sv in
            set_tasks Acceptor
              [SendTo fd (asc ''WELCOME '' @ nickname), MarkWelcomed fd, Spawn fd,
               Broadcast (asc ''SYS '' @ nickname @ asc '' has joined.'') (Some fd)]
              (sv1\<lparr>sv_clients := sv_clients sv @ [(fd, \<lparr>cr_nickname = nickname, cr_welcomed = False\<rparr>)]\<rparr>)))"

definition broadcast_targets :: "nat option \<Rightarrow> Server \<Rightarrow> nat list" where
  "broadcast_targets exclude sv = map fst (filter (\<lambda>(fd, rec). Some fd \<noteq> exclude \<and> cr_welcomed rec) (sv_clients sv))"

text \<open>What a task does to the state, and the tasks that take its place; \<open>order\<close> is the order in
  which the map of clients is iterated.\<close>

fun run_task :: "ServerConfig \<Rightarrow> (nat list \<Rightarrow> nat list) \<Rightarrow> Task \<Rightarrow> Server \<Rightarrow> Server \<times> Task list" where
  "run_task cfg order (SendTo fd payload) sv = (sv, if find_client fd sv = None then [] else [WriteFrame fd payload])"
| "run_task cfg order (WriteFrame fd payload) sv =
     (if length payload > max_message_size cfg \<or> fd \<notin> set (sv_open sv) then sv
      else sv\<lparr>sv_out := sv_out sv @ [Frame fd payload]\<rparr>, [])"
| "run_task cfg order (Broadcast payload exclude) sv =
     (sv, map (\<lambda>fd. WriteFrame fd payload) (order (broadcast_targets exclude sv)))"
| "run_task cfg order (MarkWelcomed fd) sv =
     (case find_client fd sv of None \<Rightarrow> sv | Some rec \<Rightarrow> set_client fd (rec\<lparr>cr_welcomed := True\<rparr>) sv, [])"
| "run_task cfg order (Spawn fd) sv = (sv\<lparr>sv_reading := sv_reading sv @ [fd]\<rparr>, [])"
| "run_task cfg order (Leave fd) sv =
     (case find_client fd sv of
        None \<Rightarrow> (sv, [CloseSocket fd])
      | Some rec \<Rightarrow> (sv\<lparr>sv_clients := AList.delete fd (sv_clients sv)\<rparr>,
          (if cr_nickname rec = [] then [] else [Broadcast (asc ''SYS '' @ cr_nickname rec @ asc '' has left.'') (Some fd)])
          @ [CloseSocket fd]))"
| "run_task cfg order (CloseSocket fd) sv =
     (sv\<lparr>sv_open := removeAll fd (sv_open sv), sv_out := sv_out sv @ [Closed fd]\<rparr>, [])"

definition stop_reading :: "nat \<Rightarrow> Task list \<Rightarrow> Server \<Rightarrow> Server" where
  "stop_reading fd ts sv = set_tasks (Handler fd) (ts @ [Leave fd]) (sv\<lparr>sv_reading := removeAll fd (sv_reading sv)\<rparr>)"

text \<open>\<open>handle_client\<close> when \<open>recv_frame\<close> has returned a payload.\<close>

definition receive_frame :: "nat \<Rightarrow> bytes \<Rightarrow> Server \<Rightarrow> Server" where
  "receive_frame fd payload sv =
     (let (sv', ts, goes_on) = serve_line fd payload sv
      in if goes_on then set_tasks (Handler fd) ts sv' else stop_reading fd ts sv')"

text \<open>\<open>shutdown_all\<close> says goodbye; then it shuts the sockets down, which ends the loops of the
  handlers, and joins their threads.  The end of a loop is a step of its own below.\<close>

definition shutdown_all :: "Server \<Rightarrow> Server" where
  "shutdown_all sv = set_tasks Acceptor [Broadcast (asc ''SYS Server is shutting down. Goodbye!'') None] (sv\<lparr>sv_running := False\<rparr>)"

text \<open>The kernel gives a new connection any descriptor that is not open.  A handler reads when it
  has nothing left to do; a frame that is declared too large, an error or the end of the
  connection end its loop.  A write to a connection that has broken writes nothing.\<close>

inductive server_step :: "ServerConfig \<Rightarrow> Server \<Rightarrow> Server \<Rightarrow> bool" for cfg where
  accepts: "sv_running sv \<Longrightarrow> sv_tasks sv Acceptor = [] \<Longrightarrow> fd \<notin> set (sv_open sv) \<Longrightarrow> server_step cfg sv (accept_one cfg fd sv)"
| receives: "fd \<in> set (sv_reading sv) \<Longrightarrow> sv_tasks sv (Handler fd) = [] \<Longrightarrow> length payload \<le> max_message_size cfg \<Longrightarrow>
    server_step cfg sv (receive_frame fd payload sv)"
| too_large: "fd \<in> set (sv_reading sv) \<Longrightarrow> sv_tasks sv (Handler fd) = [] \<Longrightarrow> server_step cfg sv
    (stop_reading fd (send_error fd ''FRAME_TOO_LARGE'' (asc ''Message exceeds the server'' @ [39] @ asc ''s maximum size'')) sv)"
| ends: "fd \<in> set (sv_reading sv) \<Longrightarrow> sv_tasks sv (Handler fd) = [] \<Longrightarrow> server_step cfg sv (stop_reading fd [] sv)"
| works: "sv_tasks sv t = task # ts \<Longrightarrow> (\<And>xs. set (order xs) = set xs \<and> distinct (order xs) = distinct xs) \<Longrightarrow>
    run_task cfg order task sv = (sv', new) \<Longrightarrow> server_step cfg sv (set_tasks t (new @ ts) sv')"
| write_fails: "sv_tasks sv t = WriteFrame fd payload # ts \<Longrightarrow> server_step cfg sv (set_tasks t ts sv)"
| shuts_down: "sv_running sv \<Longrightarrow> sv_tasks sv Acceptor = [] \<Longrightarrow> server_step cfg sv (shutdown_all sv)"

inductive_cases server_stepE: "server_step cfg sv sv'"

end
