(* ===== verification/BackendServerInv.thy ===== *)
theory BackendServerInv
  imports BackendServer
begin

section \<open>Invariants of the C++ server\<close>

text \<open>
  Every open descriptor has one token: the task that will start its handler, its place among the
  handlers that read, the task that removes its client, or the task that closes it.  From this
  follow that a descriptor is not reused while a client of the map has it, that the nicknames
  of the clients are different, and that they are valid.
\<close>

subsection \<open>Tokens\<close>

fun token :: "nat \<Rightarrow> Task \<Rightarrow> bool" where
  "token fd (Spawn x) \<longleftrightarrow> x = fd"
| "token fd (Leave x) \<longleftrightarrow> x = fd"
| "token fd (CloseSocket x) \<longleftrightarrow> x = fd"
| "token fd _ \<longleftrightarrow> False"

definition held :: "nat \<Rightarrow> Task list \<Rightarrow> nat" where
  "held fd ts = length (filter (token fd) ts)"

definition tokens :: "Server \<Rightarrow> nat \<Rightarrow> nat" where
  "tokens sv fd = count_list (sv_reading sv) fd + held fd (sv_tasks sv Acceptor) + held fd (sv_tasks sv (Handler fd))"

lemma held_simps [simp]: "held fd [] = 0" "held fd (t # ts) = (if token fd t then 1 else 0) + held fd ts"
  "held fd (ts @ us) = held fd ts + held fd us"
  by (simp_all add: held_def)

lemma held_zero: "held fd ts = 0 \<longleftrightarrow> (\<forall>t \<in> set ts. \<not> token fd t)"
  by (simp add: held_def filter_empty_conv)

lemma set_tasks_simps [simp]:
  "sv_tasks (set_tasks t ts sv) = (sv_tasks sv)(t := ts)" "sv_clients (set_tasks t ts sv) = sv_clients sv"
  "sv_open (set_tasks t ts sv) = sv_open sv" "sv_reading (set_tasks t ts sv) = sv_reading sv" "sv_out (set_tasks t ts sv) = sv_out sv"
  by (simp_all add: set_tasks_def)

lemma set_client_simps [simp]:
  "sv_tasks (set_client fd r sv) = sv_tasks sv" "sv_clients (set_client fd r sv) = AList.update fd r (sv_clients sv)"
  "sv_open (set_client fd r sv) = sv_open sv" "sv_reading (set_client fd r sv) = sv_reading sv" "sv_out (set_client fd r sv) = sv_out sv"
  by (simp_all add: set_client_def)

lemma count_list_removeAll: "count_list (removeAll x xs) y = (if x = y then 0 else count_list xs y)"
  by (induction xs) auto

subsection \<open>What a task and a line do\<close>

lemma run_task_frame:
  assumes "run_task cfg order task sv = (sv', new)"
  shows "sv_tasks sv' = sv_tasks sv"
    and "count_list (sv_reading sv') fd + held fd new + (if task = CloseSocket fd then 1 else 0)
       = count_list (sv_reading sv) fd + held fd [task]"
    and "set (sv_open sv') = set (sv_open sv) - {x. task = CloseSocket x}"
  using assms by (cases task; auto simp: held_zero split: option.splits if_splits)+

text \<open>The clients change as one of three things: not at all, by an update of a client that keeps
  the descriptor, by a removal.\<close>

lemma run_task_clients:
  assumes "run_task cfg order task sv = (sv', new)"
  shows "sv_clients sv' = sv_clients sv
    \<or> (\<exists>fd r. find_client fd sv = Some r \<and> sv_clients sv' = AList.update fd (r\<lparr>cr_welcomed := True\<rparr>) (sv_clients sv))
    \<or> (\<exists>fd. task = Leave fd \<and> sv_clients sv' = AList.delete fd (sv_clients sv))"
proof (cases task)
  case (MarkWelcomed fd)
  show ?thesis
  proof (cases "find_client fd sv")
    case (Some r)
    with assms MarkWelcomed have "sv_clients sv' = AList.update fd (r\<lparr>cr_welcomed := True\<rparr>) (sv_clients sv)" by auto
    with Some show ?thesis by blast
  qed (use assms MarkWelcomed in simp)
qed (use assms in \<open>auto split: option.splits if_splits\<close>)

definition quiet_tasks :: "Task list \<Rightarrow> bool" where
  "quiet_tasks ts \<longleftrightarrow> (\<forall>fd. held fd ts = 0)"

text \<open>What a line changes: at most the nickname of its sender, to a valid one that nobody else has.\<close>

definition line_effect :: "nat \<Rightarrow> Server \<Rightarrow> Server \<Rightarrow> Task list \<Rightarrow> bool" where
  "line_effect fd sv sv' ts \<longleftrightarrow> quiet_tasks ts \<and> sv_tasks sv' = sv_tasks sv \<and> sv_open sv' = sv_open sv
     \<and> sv_reading sv' = sv_reading sv \<and> sv_out sv' = sv_out sv
     \<and> (sv_clients sv' = sv_clients sv \<or> (\<exists>r new. find_client fd sv = Some r \<and> is_valid_nickname new
       \<and> (\<forall>(g, q) \<in> set (sv_clients sv). g \<noteq> fd \<longrightarrow> cr_nickname q \<noteq> new)
       \<and> sv_clients sv' = AList.update fd (r\<lparr>cr_nickname := new\<rparr>) (sv_clients sv)))"

lemma line_effect_same: "quiet_tasks ts \<Longrightarrow> line_effect fd sv sv ts"
  by (simp add: line_effect_def)

lemma quiet_error [simp]: "quiet_tasks (send_error fd code text)" "quiet_tasks []" "quiet_tasks [Broadcast p ex]"
  by (simp_all add: quiet_tasks_def send_error_def)

lemma nick_effect: "handle_nick fd args sv = (sv', ts) \<Longrightarrow> line_effect fd sv sv' ts"
proof -
  assume h: "handle_nick fd args sv = (sv', ts)"
  obtain new rest junk x where w: "read_word args = (new, rest)" "read_word rest = (junk, x)" by (cases "read_word args"; cases "read_word (snd (read_word args))") auto
  show ?thesis
  proof (cases "sv' = sv")
    case True
    have "quiet_tasks ts"
      using h by (auto simp: handle_nick_def w Let_def quiet_tasks_def send_error_def split: if_splits option.splits)
    with True show ?thesis by (simp add: line_effect_same)
  next
    case False
    then obtain r where r: "find_client fd sv = Some r" "is_valid_nickname new"
      "\<not> (\<exists>(g, q) \<in> set (sv_clients sv). g \<noteq> fd \<and> cr_nickname q = new)"
      "sv' = set_client fd (r\<lparr>cr_nickname := new\<rparr>) sv"
      "ts = [Broadcast (asc ''NICK '' @ cr_nickname r @ asc '' '' @ new) None]"
      using h by (auto simp: handle_nick_def w Let_def split: if_splits option.splits)
    then show ?thesis by (auto simp: line_effect_def quiet_tasks_def)
  qed
qed

lemma msg_effect: "handle_msg fd args sv = (sv', ts) \<Longrightarrow> line_effect fd sv sv' ts"
  by (auto simp: handle_msg_def Let_def quiet_tasks_def send_error_def intro!: line_effect_same
      split: prod.splits if_splits option.splits)

lemma list_effect: "handle_list fd sv = (sv', ts) \<Longrightarrow> line_effect fd sv sv' ts"
  by (auto simp: handle_list_def Let_def quiet_tasks_def intro!: line_effect_same)

lemma serve_line_effect: "serve_line fd raw sv = (sv', ts, goes_on) \<Longrightarrow> line_effect fd sv sv' ts"
  by (auto simp: serve_line_def Let_def intro!: line_effect_same
      dest: nick_effect msg_effect list_effect split: prod.splits if_splits option.splits)

subsection \<open>The invariant\<close>

definition closing :: "Server \<Rightarrow> nat \<Rightarrow> bool" where
  "closing sv fd \<longleftrightarrow> CloseSocket fd \<in> set (sv_tasks sv Acceptor) \<union> set (sv_tasks sv (Handler fd))"

definition tokens_inv :: "Server \<Rightarrow> bool" where
  "tokens_inv sv \<longleftrightarrow> (\<forall>fd. tokens sv fd = (if fd \<in> set (sv_open sv) then 1 else 0))
     \<and> (\<forall>g fd. \<forall>x \<in> set (sv_tasks sv (Handler g)). token fd x \<longrightarrow> fd = g)
     \<and> (\<forall>fd. find_client fd sv \<noteq> None \<longrightarrow> fd \<in> set (sv_open sv) \<and> \<not> closing sv fd)"

definition names_inv :: "ServerConfig \<Rightarrow> Server \<Rightarrow> bool" where
  "names_inv cfg sv \<longleftrightarrow> distinct (map fst (sv_clients sv)) \<and> distinct (map (cr_nickname \<circ> snd) (sv_clients sv))
     \<and> (\<forall>(fd, r) \<in> set (sv_clients sv). is_valid_nickname (cr_nickname r)) \<and> length (sv_clients sv) \<le> max_clients cfg"

lemma close_held: "CloseSocket fd \<in> set ts \<Longrightarrow> 0 < held fd ts"
  by (induction ts) auto

lemma closing_token: "\<not> closing sv fd \<or> 0 < held fd (sv_tasks sv Acceptor) + held fd (sv_tasks sv (Handler fd))"
  using close_held [of fd "sv_tasks sv Acceptor"] close_held [of fd "sv_tasks sv (Handler fd)"] by (auto simp: closing_def)

lemma tokens_new: "tokens_inv new_Server"
  by (simp add: tokens_inv_def tokens_def new_Server_def find_client_def)

lemma tokens_accept:
  assumes "tokens_inv sv" and "sv_tasks sv Acceptor = []" and "fd \<notin> set (sv_open sv)"
  shows "tokens_inv (accept_one cfg fd sv)"
proof -
  have z: "tokens sv fd = 0" using assms(1,3) by (simp add: tokens_inv_def)
  have t: "tokens (accept_one cfg fd sv) g = (if g = fd then 1 else tokens sv g)" for g
    using z assms(2) by (auto simp: tokens_def accept_one_def Let_def)
  have c: "closing (accept_one cfg fd sv) g \<longleftrightarrow> g = fd \<and> length (sv_clients sv) \<ge> max_clients cfg \<or> g \<noteq> fd \<and> closing sv g" for g
    using closing_token [of sv fd] z assms(2) by (auto simp: closing_def accept_one_def Let_def tokens_def)
  have f: "find_client g (accept_one cfg fd sv) = (if g = fd \<and> length (sv_clients sv) < max_clients cfg
      then Some \<lparr>cr_nickname = assign_default_nickname sv, cr_welcomed = False\<rparr> else find_client g sv)" for g
  proof -
    have "find_client fd sv = None" using assms(1,3) by (auto simp: tokens_inv_def)
    then show ?thesis
      by (auto simp: find_client_def accept_one_def Let_def map_add_def split: option.split)
  qed
  have o: "set (sv_open (accept_one cfg fd sv)) = insert fd (set (sv_open sv))"
    by (auto simp: accept_one_def Let_def)
  have h: "sv_tasks (accept_one cfg fd sv) (Handler g) = sv_tasks sv (Handler g)" for g
    by (simp add: accept_one_def Let_def)
  show ?thesis
    using assms(1,3) unfolding tokens_inv_def t c f o h by (auto split: if_splits)
qed

text \<open>A handler that reads has nothing else to do; its token is its place among the readers.\<close>

lemma reading_token:
  assumes "tokens_inv sv" and "fd \<in> set (sv_reading sv)"
  shows "fd \<in> set (sv_open sv)" and "count_list (sv_reading sv) fd = 1"
    and "held fd (sv_tasks sv Acceptor) = 0" and "held fd (sv_tasks sv (Handler fd)) = 0"
proof -
  have "0 < count_list (sv_reading sv) fd" using assms(2) by (simp add: count_list_0_iff flip: neq0_conv)
  then have "0 < tokens sv fd" by (simp add: tokens_def)
  then have "tokens sv fd = 1" "fd \<in> set (sv_open sv)" using assms(1) by (auto simp: tokens_inv_def split: if_splits)
  with \<open>0 < count_list (sv_reading sv) fd\<close>
  show "fd \<in> set (sv_open sv)" and "count_list (sv_reading sv) fd = 1"
    and "held fd (sv_tasks sv Acceptor) = 0" and "held fd (sv_tasks sv (Handler fd)) = 0"
    by (auto simp: tokens_def)
qed

lemma tokens_reading_step:
  assumes "tokens_inv sv" and "fd \<in> set (sv_reading sv)" and "quiet_tasks ts"
    and "\<And>g. find_client g sv' \<noteq> None \<longleftrightarrow> find_client g sv \<noteq> None"
    and "sv_tasks sv' = sv_tasks sv" and "sv_open sv' = sv_open sv" and "sv_reading sv' = sv_reading sv"
  shows "tokens_inv (set_tasks (Handler fd) ts sv')" and "tokens_inv (stop_reading fd ts sv')"
proof -
  note r = reading_token [OF assms(1,2)]
  have q: "held g ts = 0" for g using assms(3) by (simp add: quiet_tasks_def)
  have f: "find_client g (set_tasks (Handler fd) ts sv') = find_client g sv'" "find_client g (stop_reading fd ts sv') = find_client g sv'" for g
    by (simp_all add: find_client_def stop_reading_def)
  have tok: "tokens (set_tasks (Handler fd) ts sv') g = tokens sv g" "tokens (stop_reading fd ts sv') g = tokens sv g" for g
    using q r by (auto simp: tokens_def assms(5,7) stop_reading_def count_list_removeAll)
  have c: "closing (set_tasks (Handler fd) ts sv') g \<Longrightarrow> closing sv g" "closing (stop_reading fd ts sv') g \<Longrightarrow> closing sv g" for g
    using q [of g] close_held [of g ts] by (auto simp: closing_def stop_reading_def assms(5) split: if_splits)
  have own: "token g x \<Longrightarrow> x \<in> set (sv_tasks (set_tasks (Handler fd) ts sv') (Handler h)) \<Longrightarrow> g = h"
    "token g x \<Longrightarrow> x \<in> set (sv_tasks (stop_reading fd ts sv') (Handler h)) \<Longrightarrow> g = h" for g h x
    using assms(1) q [of g] by (auto simp: tokens_inv_def stop_reading_def assms(5) held_zero split: if_splits)
  show "tokens_inv (set_tasks (Handler fd) ts sv')"
    using assms(1) c(1) own(1) unfolding tokens_inv_def tok(1) f(1) assms(4) by (auto simp: assms(6))
  show "tokens_inv (stop_reading fd ts sv')"
    using assms(1) c(2) own(2) unfolding tokens_inv_def tok(2) f(2) assms(4)
    by (auto simp: assms(6) stop_reading_def)
qed

lemma own_token:
  assumes "tokens_inv sv" and "sv_tasks sv t = task # ts" and "token fd task"
  shows "t = Acceptor \<or> t = Handler fd"
proof (cases t)
  case (Handler g)
  with assms(2) have "task \<in> set (sv_tasks sv (Handler g))" by simp
  with assms(1,3) have "fd = g" unfolding tokens_inv_def by blast
  with Handler show ?thesis by simp
qed simp

lemma new_tokens: "run_task cfg order task sv = (sv', new) \<Longrightarrow> x \<in> set new \<Longrightarrow> token fd x \<Longrightarrow> token fd task"
  by (cases task) (auto split: option.splits if_splits)

lemma leave_removes: "run_task cfg order (Leave fd) sv = (sv', new) \<Longrightarrow> find_client fd sv' = None"
  by (auto simp: find_client_def alist.get_remove split: option.splits)

lemma task_clients_shrink: "run_task cfg order task sv = (sv', new) \<Longrightarrow> find_client fd sv' \<noteq> None \<Longrightarrow> find_client fd sv \<noteq> None"
  using run_task_clients [of cfg order task sv sv' new]
  by (auto simp: find_client_def alist.get_put alist.get_remove split: if_splits)

lemma tokens_works:
  assumes "tokens_inv sv" and "sv_tasks sv t = task # ts" and "run_task cfg order task sv = (sv', new)"
  shows "tokens_inv (set_tasks t (new @ ts) sv')"
proof -
  let ?s = "set_tasks t (new @ ts) sv'"
  note r = run_task_frame [OF assms(3)]
  have h: "held fd (sv_tasks ?s u) + (if u = t then held fd [task] else 0) = held fd (sv_tasks sv u) + (if u = t then held fd new else 0)" for fd u
    using assms(2) by (auto simp: r(1))
  have tok: "tokens ?s fd + (if task = CloseSocket fd then 1 else 0) = tokens sv fd" for fd
  proof (cases "t = Acceptor \<or> t = Handler fd")
    case True
    then show ?thesis using r(2) [of fd] h [of fd Acceptor] h [of fd "Handler fd"] by (auto simp: tokens_def)
  next
    case False
    then have n: "\<not> token fd task" using own_token [OF assms(1,2)] by blast
    then have "held fd new = 0" using new_tokens [OF assms(3)] by (auto simp: held_zero)
    with n r(2) [of fd] False assms(2) show ?thesis by (auto simp: tokens_def r(1))
  qed
  have own: "fd = g" if "x \<in> set (sv_tasks ?s (Handler g))" "token fd x" for g fd x
  proof (cases "t = Handler g \<and> x \<in> set new")
    case True
    then have "token fd task" using new_tokens [OF assms(3)] that(2) by blast
    with own_token [OF assms(1,2)] True show ?thesis by auto
  next
    case False
    then have "x \<in> set (sv_tasks sv (Handler g))" using that(1) assms(2) by (auto simp: r(1) split: if_splits)
    then show ?thesis using assms(1) that(2) by (auto simp: tokens_inv_def)
  qed
  have cli: "fd \<in> set (sv_open sv') \<and> \<not> closing ?s fd" if f: "find_client fd ?s \<noteq> None" for fd
  proof -
    have f': "find_client fd sv' \<noteq> None" using f by (simp add: find_client_def)
    have g: "find_client fd sv \<noteq> None" "task \<noteq> Leave fd"
      using task_clients_shrink [OF assms(3) f'] leave_removes [of cfg order fd sv sv' new] assms(3) f' by auto
    then have o: "fd \<in> set (sv_open sv)" "\<not> closing sv fd" using assms(1) by (auto simp: tokens_inv_def)
    have c: "task \<noteq> CloseSocket fd"
    proof
      assume "task = CloseSocket fd"
      then have "t = Acceptor \<or> t = Handler fd" using own_token [OF assms(1,2), of fd] by simp
      with assms(2) o(2) \<open>task = CloseSocket fd\<close> show False by (auto simp: closing_def)
    qed
    have "CloseSocket fd \<notin> set new"
      using assms(3) g(2) by (cases task) (auto split: option.splits if_splits)
    then have "\<not> closing ?s fd" using o(2) assms(2) by (auto simp: closing_def r(1) split: if_splits)
    with o(1) c show ?thesis by (simp add: r(3))
  qed
  have "tokens ?s fd = (if fd \<in> set (sv_open ?s) then 1 else 0)" for fd
  proof (cases "task = CloseSocket fd")
    case True
    then have "0 < tokens sv fd" using own_token [OF assms(1,2), of fd] assms(2) by (auto simp: tokens_def)
    with tok [of fd] True assms(1) show ?thesis by (auto simp: tokens_inv_def r(3) split: if_splits)
  next
    case False
    with tok [of fd] assms(1) show ?thesis by (auto simp: tokens_inv_def r(3))
  qed
  with own cli show ?thesis by (simp add: tokens_inv_def)
qed

lemma tokens_write_fails:
  assumes "tokens_inv sv" and "sv_tasks sv t = WriteFrame fd payload # ts"
  shows "tokens_inv (set_tasks t ts sv)"
proof -
  have "run_task \<lparr>max_clients = 0, max_message_size = 0\<rparr> id (WriteFrame fd payload) (sv\<lparr>sv_open := sv_open sv\<rparr>) =
      (if length payload > 0 \<or> fd \<notin> set (sv_open sv) then sv else sv\<lparr>sv_out := sv_out sv @ [Frame fd payload]\<rparr>, [])"
    by simp
  show ?thesis
  proof (cases "length payload > 0 \<or> fd \<notin> set (sv_open sv)")
    case True
    then have "run_task \<lparr>max_clients = 0, max_message_size = 0\<rparr> id (WriteFrame fd payload) sv = (sv, [])" by simp
    from tokens_works [OF assms this] show ?thesis by simp
  next
    case False
    then have "run_task \<lparr>max_clients = 0, max_message_size = 0\<rparr> id (WriteFrame fd payload) sv = (sv\<lparr>sv_out := sv_out sv @ [Frame fd payload]\<rparr>, [])"
      by simp
    from tokens_works [OF assms this] show ?thesis
      by (simp add: tokens_inv_def tokens_def find_client_def closing_def)
  qed
qed

lemma line_effect_clients: "line_effect fd sv sv' ts \<Longrightarrow> find_client g sv' \<noteq> None \<longleftrightarrow> find_client g sv \<noteq> None"
  by (auto simp: line_effect_def find_client_def alist.get_put split: if_splits)

lemma tokens_step:
  assumes "tokens_inv sv" and "server_step cfg sv sv'"
  shows "tokens_inv sv'"
  using assms(2)
proof cases
  case (accepts fd)
  with assms(1) show ?thesis by (simp add: tokens_accept)
next
  case (receives fd payload)
  obtain s ts b where l: "serve_line fd payload sv = (s, ts, b)" by (cases "serve_line fd payload sv")
  note e = serve_line_effect [OF l]
  show ?thesis
    unfolding receives(1) receive_frame_def l Let_def prod.case
    using tokens_reading_step [OF assms(1) receives(2), of ts s, OF _ line_effect_clients [OF e]] e by (simp add: line_effect_def)
next
  case (too_large fd)
  show ?thesis unfolding too_large(1) by (rule tokens_reading_step(2) [OF assms(1) too_large(2)]) simp_all
next
  case (ends fd)
  show ?thesis unfolding ends(1) by (rule tokens_reading_step(2) [OF assms(1) ends(2)]) simp_all
next
  case (works t task ts order s new)
  with assms(1) show ?thesis by (simp add: tokens_works)
next
  case (write_fails t fd payload ts)
  with assms(1) show ?thesis by (simp add: tokens_write_fails)
next
  case shuts_down
  with assms(1) show ?thesis
    by (simp add: shutdown_all_def tokens_inv_def tokens_def find_client_def closing_def)
qed

subsection \<open>Nicknames\<close>

lemma show_nat_length: "n < 10 ^ Suc m \<Longrightarrow> length (show_nat n) \<le> Suc m"
proof (induction m arbitrary: n)
  case 0
  then show ?case by (simp add: show_nat.simps [of n])
next
  case (Suc m)
  show ?case
  proof (cases "n < 10")
    case False
    have "n div 10 < 10 ^ Suc m" using Suc.prems by (simp add: less_mult_imp_div_less mult.commute)
    from Suc.IH [OF this] False show ?thesis by (simp add: show_nat.simps [of n])
  qed (simp add: show_nat.simps [of n])
qed

lemma decimal_digit: "b \<in> set (decimal n) \<Longrightarrow> 48 \<le> b \<and> b \<le> 57"
proof -
  assume "b \<in> set (decimal n)"
  then obtain u where u: "u \<in> set (show_nat n)" "b = word_of_nat (unat u)" by (auto simp: decimal_def)
  have "unat b = unat u" using show_nat_byte [OF u(1)] by (simp add: u(2) unsigned_ucast_eq take_bit_nat_eq_self)
  with show_nat_byte [OF u(1)] show ?thesis by (simp add: word_le_nat_alt)
qed

lemma default_valid:
  assumes "n < 10 ^ 20"
  shows "is_valid_nickname (default_name n)"
proof -
  have "length (decimal n) \<le> 20" using show_nat_length [of n 19] assms by (simp add: decimal_def)
  moreover have "is_alnum b" if "b \<in> set (decimal n)" for b
    using decimal_digit [OF that] by (simp add: is_alnum_def)
  ultimately show ?thesis
    by (auto simp: is_valid_nickname_def default_name_def MAX_NICKNAME_LENGTH_def is_alnum_def asc_def)
qed

text \<open>The bound on the number of clients is an \<open>int\<close> of the configuration.\<close>

lemma assigned_fresh:
  assumes "length (sv_clients sv) < max_clients cfg" and "max_clients cfg < 2 ^ 31"
  shows "is_valid_nickname (assign_default_nickname sv)" and "assign_default_nickname sv \<notin> nicknames sv"
proof -
  let ?names = "map (cr_nickname \<circ> snd) (sv_clients sv)"
  obtain k where k: "assign_default_nickname sv = default_name k" "default_name k \<notin> set ?names"
    "\<forall>m. 1 \<le> m \<and> m < k \<longrightarrow> default_name m \<in> set ?names"
    using default_from_spec [of 1 ?names] unfolding assign_default_nickname_def by blast
  have "card {1..<k} \<le> card (set ?names)"
    by (rule card_inj_on_le [of default_name]) (use k(3) in \<open>auto intro: inj_onI default_name_inj\<close>)
  also have "\<dots> \<le> length (sv_clients sv)" using card_length [of ?names] by simp
  finally have "k < 10 ^ 20" using assms by simp
  then show "is_valid_nickname (assign_default_nickname sv)" unfolding k(1) by (rule default_valid)
  show "assign_default_nickname sv \<notin> nicknames sv"
    using k(2) unfolding k(1) by (force simp: nicknames_def)
qed

lemma names_update:
  assumes "distinct (map (cr_nickname \<circ> snd) cs)" and "map_of cs fd = Some r"
    and "\<forall>(g, q) \<in> set cs. g \<noteq> fd \<longrightarrow> cr_nickname q \<noteq> cr_nickname new" and "distinct (map fst cs)"
  shows "distinct (map (cr_nickname \<circ> snd) (AList.update fd new cs)) \<and> length (AList.update fd new cs) = length cs
    \<and> set (AList.update fd new cs) \<subseteq> insert (fd, new) (set cs)"
  using assms
proof (induction cs)
  case (Cons c cs)
  obtain g q where c: "c = (g, q)" by (cases c)
  show ?case
  proof (cases "g = fd")
    case True
    have "g \<notin> fst ` set cs" using Cons.prems(4) by (simp add: c)
    then have "cr_nickname p \<noteq> cr_nickname new" if "(h, p) \<in> set cs" for h p
      using Cons.prems(3) that True by (force simp: c)
    then have "cr_nickname new \<notin> (cr_nickname \<circ> snd) ` set cs" by force
    with True Cons.prems(1) show ?thesis by (auto simp: c comp_def)
  next
    case False
    have i: "distinct (map (cr_nickname \<circ> snd) (AList.update fd new cs))" "length (AList.update fd new cs) = length cs"
        "set (AList.update fd new cs) \<subseteq> insert (fd, new) (set cs)"
      using Cons False by (simp_all add: c comp_def)
    have "cr_nickname q \<noteq> cr_nickname new" "cr_nickname q \<notin> (cr_nickname \<circ> snd) ` set cs"
      using Cons.prems(1,3) False by (auto simp: c)
    then have "cr_nickname q \<notin> (cr_nickname \<circ> snd) ` set (AList.update fd new cs)" using i(3) by auto
    then show ?thesis using False i by (auto simp: c comp_def)
  qed
qed simp

lemma names_put:
  assumes "names_inv cfg sv" and "find_client fd sv = Some r" and "sv_clients sv' = AList.update fd new (sv_clients sv)"
    and "is_valid_nickname (cr_nickname new)" and "\<forall>(g, q) \<in> set (sv_clients sv). g \<noteq> fd \<longrightarrow> cr_nickname q \<noteq> cr_nickname new"
  shows "names_inv cfg sv'"
proof -
  have i: "distinct (map fst (sv_clients sv))" "distinct (map (cr_nickname \<circ> snd) (sv_clients sv))" "map_of (sv_clients sv) fd = Some r"
    using assms(1,2) by (simp_all add: names_inv_def find_client_def)
  from names_update [OF i(2,3) assms(5) i(1)] alist.wf_put [OF i(1), of fd new] assms(1,4) show ?thesis
    by (auto simp: names_inv_def assms(3))
qed

lemma names_same: "names_inv cfg sv \<Longrightarrow> sv_clients sv' = sv_clients sv \<Longrightarrow> names_inv cfg sv'"
  by (simp add: names_inv_def)

lemma names_delete: "names_inv cfg sv \<Longrightarrow> sv_clients sv' = AList.delete fd (sv_clients sv) \<Longrightarrow> names_inv cfg sv'"
  by (auto simp: names_inv_def AList.delete_eq distinct_map intro: inj_on_subset le_trans [OF length_filter_le])

lemma other_nickname:
  assumes "names_inv cfg sv" and "find_client fd sv = Some r"
  shows "\<forall>(g, q) \<in> set (sv_clients sv). g \<noteq> fd \<longrightarrow> cr_nickname q \<noteq> cr_nickname r"
proof -
  have "(fd, r) \<in> set (sv_clients sv)" using assms(2) by (simp add: find_client_def map_of_SomeD)
  moreover have "inj_on (cr_nickname \<circ> snd) (set (sv_clients sv))" using assms(1) by (simp add: names_inv_def distinct_map)
  ultimately have "(g, q) = (fd, r)" if "(g, q) \<in> set (sv_clients sv)" "cr_nickname q = cr_nickname r" for g q
    using that inj_onD [of "cr_nickname \<circ> snd" _ "(g, q)" "(fd, r)"] by simp
  then show ?thesis by blast
qed

lemma names_line:
  assumes "names_inv cfg sv" and "line_effect fd sv sv' ts"
  shows "names_inv cfg sv'"
proof (cases "sv_clients sv' = sv_clients sv")
  case False
  then obtain r new where "find_client fd sv = Some r" "is_valid_nickname new"
    "\<forall>(g, q) \<in> set (sv_clients sv). g \<noteq> fd \<longrightarrow> cr_nickname q \<noteq> new"
    "sv_clients sv' = AList.update fd (r\<lparr>cr_nickname := new\<rparr>) (sv_clients sv)"
    using assms(2) unfolding line_effect_def by blast
  note n = this
  show ?thesis by (rule names_put [OF assms(1) n(1,4)]) (simp_all add: n(2,3))
qed (rule names_same [OF assms(1)])

lemma names_accept:
  assumes "names_inv cfg sv" and "max_clients cfg < 2 ^ 31" and "find_client fd sv = None"
  shows "names_inv cfg (accept_one cfg fd sv)"
proof (cases "length (sv_clients sv) \<ge> max_clients cfg")
  case False
  then have f: "is_valid_nickname (assign_default_nickname sv)" "assign_default_nickname sv \<notin> nicknames sv"
    using assigned_fresh [OF _ assms(2), of sv] by auto
  have "fd \<notin> set (map fst (sv_clients sv))" using assms(3) by (simp add: find_client_def map_of_eq_None_iff)
  with assms(1) f False show ?thesis
    by (auto simp: names_inv_def accept_one_def Let_def nicknames_def image_iff)
qed (use assms(1) in \<open>simp add: names_same accept_one_def Let_def\<close>)

lemma names_task:
  assumes "names_inv cfg sv" and "run_task cfg order task sv = (sv', new)"
  shows "names_inv cfg sv'"
proof -
  have "names_inv cfg sv'" if "find_client fd sv = Some r" "sv_clients sv' = AList.update fd (r\<lparr>cr_welcomed := True\<rparr>) (sv_clients sv)" for fd r
  proof (rule names_put [OF assms(1) that])
    show "is_valid_nickname (cr_nickname (r\<lparr>cr_welcomed := True\<rparr>))"
      using assms(1) map_of_SomeD [OF that(1) [unfolded find_client_def]] by (auto simp: names_inv_def)
    show "\<forall>(g, q) \<in> set (sv_clients sv). g \<noteq> fd \<longrightarrow> cr_nickname q \<noteq> cr_nickname (r\<lparr>cr_welcomed := True\<rparr>)"
      using other_nickname [OF assms(1) that(1)] by simp
  qed
  with run_task_clients [OF assms(2)] names_same [OF assms(1)] names_delete [OF assms(1)] show ?thesis by blast
qed

lemma names_step:
  assumes "tokens_inv sv" and "names_inv cfg sv" and "max_clients cfg < 2 ^ 31" and "server_step cfg sv sv'"
  shows "names_inv cfg sv'"
  using assms(4)
proof cases
  case (accepts fd)
  then have "find_client fd sv = None" using assms(1) by (auto simp: tokens_inv_def)
  with assms(2,3) show ?thesis unfolding accepts(1) by (rule names_accept)
next
  case (receives fd payload)
  obtain s ts b where l: "serve_line fd payload sv = (s, ts, b)" by (cases "serve_line fd payload sv")
  have "names_inv cfg s" by (rule names_line [OF assms(2) serve_line_effect [OF l]])
  then show ?thesis unfolding receives(1) by (simp add: receive_frame_def l names_same stop_reading_def)
next
  case (works t task ts order s new)
  from names_task [OF assms(2) works(4)] show ?thesis unfolding works(1) by (simp add: names_same)
qed (use assms(2) in \<open>simp_all add: names_same stop_reading_def shutdown_all_def\<close>)

text \<open>The two invariants of all reachable states.\<close>

definition server_inv :: "ServerConfig \<Rightarrow> Server \<Rightarrow> bool" where
  "server_inv cfg sv \<longleftrightarrow> tokens_inv sv \<and> names_inv cfg sv"

interpretation server: invariant_system "\<lambda>sv. sv = new_Server" "server_step cfg"
  "\<lambda>sv. max_clients cfg < 2 ^ 31 \<longrightarrow> server_inv cfg sv" for cfg
proof
  show "max_clients cfg < 2 ^ 31 \<longrightarrow> server_inv cfg sv" if "sv = new_Server" for sv
    by (simp add: that server_inv_def tokens_new names_inv_def) (simp add: new_Server_def)
  show "max_clients cfg < 2 ^ 31 \<longrightarrow> server_inv cfg sv'"
    if "max_clients cfg < 2 ^ 31 \<longrightarrow> server_inv cfg sv" "server_step cfg sv sv'" for sv sv'
    using that tokens_step names_step unfolding server_inv_def by blast
qed

lemma server_reachable:
  "max_clients cfg < 2 ^ 31 \<Longrightarrow> (server_step cfg)\<^sup>*\<^sup>* new_Server sv \<Longrightarrow> server_inv cfg sv"
  using server.inv_reachable by blast

end
