(* ===== verification/BackendServerWire.thy ===== *)
theory BackendServerWire
  imports BackendServerInv BackendConnection Accounts
begin

section \<open>What the C++ server writes, as the gateway reads it\<close>

text \<open>
  The gateway trusts the lines of the server: it takes names out of them and stores what they
  say.  Here every frame that the server writes, whatever its clients send, is shown to be a
  line of the vocabulary whose names satisfy the gateway's own rule for user names; the
  assumption that the model of the gateway makes on the events it reads follows.
\<close>

subsection \<open>ASCII prefixes and UTF-8\<close>

definition ascii :: "bytes \<Rightarrow> bool" where
  "ascii bs \<longleftrightarrow> (\<forall>b \<in> set bs. b < 128)"

definition widen :: "bytes \<Rightarrow> jsstr" where
  "widen bs = map ucast bs"

lemma widen_simps [simp]: "widen [] = []" "widen (b # bs) = ucast b # widen bs" "widen (bs @ cs) = widen bs @ widen cs"
  "length (widen bs) = length bs" "widen bs = [] \<longleftrightarrow> bs = []"
  by (simp_all add: widen_def)

lemma ascii_simps [simp]: "ascii []" "ascii (b # bs) \<longleftrightarrow> b < 128 \<and> ascii bs" "ascii (bs @ cs) \<longleftrightarrow> ascii bs \<and> ascii cs"
  by (auto simp: ascii_def)

lemma decode_ascii: "ascii a \<Longrightarrow> utf8_decode (a @ rest) = widen a @ utf8_decode rest"
  by (induction a) (simp_all add: utf8_decode_def word_less_nat_alt)

lemma unat_of_char_8: "unat (of_char c :: 8 word) = of_char c"
proof -
  have "(of_char c :: 8 word) = word_of_nat (of_char c)" by (simp only: of_nat_of_char)
  then show ?thesis using of_char_less [of c] by (simp only: unat_of_nat) simp
qed

lemma widen_asc [simp]: "widen (asc s) = js s"
proof -
  have "ucast (of_char c :: 8 word) = (of_char c :: 16 word)" for c
    unfolding of_char_16 unat_of_char_8 [symmetric] by simp
  then show ?thesis by (simp add: widen_def js_def asc_def)
qed

lemma ascii_asc: "ascii (asc s) \<longleftrightarrow> list_all (\<lambda>c. (of_char c :: nat) < 128) s"
  by (simp add: ascii_def list_all_iff word_less_nat_alt unat_of_char_8 asc_def)

lemma decode_Nil [simp]: "utf8_decode [] = []"
  by (simp add: utf8_decode_def)

lemma decode_asc: "list_all (\<lambda>c. (of_char c :: nat) < 128) s \<Longrightarrow> utf8_decode (asc s @ rest) = js s @ utf8_decode rest"
  by (simp add: decode_ascii ascii_asc)

lemma decode_asc_end: "list_all (\<lambda>c. (of_char c :: nat) < 128) s \<Longrightarrow> utf8_decode (asc s) = js s"
  using decode_asc [of s "[]"] by simp

lemma widen_decimal [simp]: "widen (decimal n) = show_nat n"
proof -
  have "ucast (word_of_nat (unat u) :: 8 word) = u" if "u \<in> set (show_nat n)" for u :: code_unit
    using show_nat_byte [OF that] by (simp add: word_unat_eq_iff unsigned_ucast_eq unsigned_take_bit_eq take_bit_nat_eq_self)
  then show ?thesis by (simp add: widen_def decimal_def map_idI)
qed

lemma ascii_decimal [simp]: "ascii (decimal n)"
proof -
  have "b < 128" if "b \<in> set (decimal n)" for b
    using decimal_digit [OF that] by (simp add: word_le_nat_alt word_less_nat_alt)
  then show ?thesis by (simp add: ascii_def)
qed

lemma unat_byte: "unat (b :: 8 word) < 256"
  using unsigned_less [of b] by simp

lemma unat_widen: "unat (ucast (b :: 8 word) :: 16 word) = unat b"
  using unat_byte [of b] by (simp add: unsigned_ucast_eq take_bit_nat_eq_self)

subsection \<open>The two rules for names\<close>

lemma name_byte: "is_alnum b \<or> b = 95 \<or> b = 45 \<longleftrightarrow> username_unit (ucast b)"
  by (auto simp: is_alnum_def username_unit_def word_le_nat_alt word_unat_eq_iff unat_widen simp del: unsigned_ucast_eq)

lemma name_unit_small: "username_unit u \<Longrightarrow> unat u < 128"
  by (auto simp: username_unit_def word_le_nat_alt)

lemma name_byte_ascii: "is_alnum b \<or> b = 95 \<or> b = 45 \<Longrightarrow> b < 128"
proof -
  assume "is_alnum b \<or> b = 95 \<or> b = 45"
  then have "username_unit (ucast b)" by (simp only: name_byte)
  from name_unit_small [OF this] show ?thesis by (simp only: unat_widen word_less_nat_alt) simp
qed

lemma nickname_ascii: "is_valid_nickname n \<Longrightarrow> ascii n"
  by (auto simp: is_valid_nickname_def ascii_def name_byte_ascii)

lemma nickname_name: "is_valid_nickname n \<longleftrightarrow> USERNAME_RE (widen n)"
  by (auto simp: is_valid_nickname_def USERNAME_RE_def MAX_NICKNAME_LENGTH_def name_byte widen_def list_all_iff Suc_le_eq)

lemma name_space: "USERNAME_RE n \<Longrightarrow> SP \<notin> set n" and name_nonempty: "USERNAME_RE n \<Longrightarrow> n \<noteq> []"
  by (auto simp: USERNAME_RE_def list_all_iff username_unit_def SP_def unit_def)

text \<open>A byte above 127 is never read as a character that a name may have.\<close>

lemma dec_bounds:
  "194 \<le> b \<Longrightarrow> b < 224 \<Longrightarrow> cont_byte c \<Longrightarrow> 128 \<le> (b - 192) * 64 + (c - 128) \<and> (b - 192) * 64 + (c - 128) < 65536"
  "224 \<le> b \<Longrightarrow> b < 240 \<Longrightarrow> second_byte b c \<Longrightarrow> cont_byte d \<Longrightarrow>
     128 \<le> (b - 224) * 4096 + (c - 128) * 64 + (d - 128) \<and> (b - 224) * 4096 + (c - 128) * 64 + (d - 128) < 65536"
  "n \<le> 2000000 \<Longrightarrow> 128 \<le> 55296 + (n - 65536) div 1024 \<and> 55296 + (n - 65536) div 1024 < (65536 :: nat)"
  unfolding cont_byte_def second_byte_def by (auto split: if_splits)

lemma dec_bound_4: "240 \<le> b \<Longrightarrow> b < 245 \<Longrightarrow> second_byte b c \<Longrightarrow> cont_byte d \<Longrightarrow> cont_byte e \<Longrightarrow>
    (b - 240) * 262144 + (c - 128) * 4096 + (d - 128) * 64 + (e - 128) \<le> 2000000"
  unfolding cont_byte_def second_byte_def by (auto split: if_splits)

lemma dec_high:
  assumes "128 \<le> b"
  shows "\<exists>u rest. utf8_dec (b # bs) = u # rest \<and> 128 \<le> u \<and> u < 65536"
proof -
  have b: "\<not> b < 128" using assms by simp
  consider "194 \<le> b" "b < 224" | "224 \<le> b" "b < 240" | "240 \<le> b" "b < 245" | "b < 194" | "245 \<le> b" by linarith
  then show ?thesis
  proof cases
    case 1
    with b show ?thesis by (simp add: dec_bounds(1) split: list.split)
  next
    case 2
    with b show ?thesis by (simp add: dec_bounds(2) split: list.split)
  next
    case 3
    with b show ?thesis by (simp add: dec_bounds(3) dec_bound_4 surrogates_def split: list.split)
  qed (use b in simp_all)
qed

lemma decode_high:
  assumes "\<not> ascii p"
  shows "\<exists>u \<in> set (utf8_decode p). 128 \<le> unat u"
  using assms
proof (induction p)
  case (Cons b p)
  show ?case
  proof (cases "b < 128")
    case True
    with Cons obtain u where "u \<in> set (utf8_decode p)" "128 \<le> unat u" by auto
    with True show ?thesis by (auto simp: utf8_decode_def word_less_nat_alt)
  next
    case False
    then have "128 \<le> unat b" by (simp add: word_less_nat_alt)
    from dec_high [OF this, of "map unat p"] obtain u rest
      where u: "utf8_dec (unat b # map unat p) = u # rest" "128 \<le> u" "u < 65536" by blast
    then have "word_of_nat u \<in> set (utf8_decode (b # p))" by (simp add: utf8_decode_def)
    with u(2,3) show ?thesis by (intro bexI [of _ "word_of_nat u"]) (simp_all add: unat_of_nat)
  qed
qed simp

text \<open>The nickname rule of the server and the user name rule of the gateway are one rule: a
  payload's bytes are a valid nickname exactly when the text that the gateway reads from them
  matches its pattern for user names.\<close>

theorem nickname_rules_agree: "is_valid_nickname p \<longleftrightarrow> USERNAME_RE (utf8_decode p)"
proof (cases "ascii p")
  case True
  then show ?thesis using decode_ascii [of p "[]"] by (simp add: nickname_name utf8_decode_def)
next
  case False
  from decode_high [OF this] obtain u where "u \<in> set (utf8_decode p)" "128 \<le> unat u" by blast
  then have "\<not> USERNAME_RE (utf8_decode p)" using name_unit_small [of u] by (auto simp: USERNAME_RE_def list_all_iff)
  with False show ?thesis using nickname_ascii [of p] by blast
qed

subsection \<open>What a payload says\<close>

definition ERROR_CODES :: "string list" where
  "ERROR_CODES = [''SERVER_FULL'', ''FRAME_TOO_LARGE'', ''BAD_CMD'', ''NICK_INVALID'', ''NICK_EMPTY'',
     ''NICK_TAKEN'', ''MSG_USAGE'', ''USER_NOT_FOUND'', ''MSG_SELF'']"

fun vouched :: "BackendEvent \<Rightarrow> bool" where
  "vouched (EvWelcome n) \<longleftrightarrow> USERNAME_RE n"
| "vouched (EvSys text) \<longleftrightarrow> (\<exists>n. USERNAME_RE n \<and> (text = n @ js '' has joined.'' \<or> text = n @ js '' has left.''))
     \<or> text = js ''Server is shutting down. Goodbye!''"
| "vouched (EvMsg sender _) \<longleftrightarrow> USERNAME_RE sender"
| "vouched (EvPriv sender _) \<longleftrightarrow> USERNAME_RE sender"
| "vouched (EvPrivSent recipient _) \<longleftrightarrow> USERNAME_RE recipient"
| "vouched (EvNick old new) \<longleftrightarrow> USERNAME_RE old \<and> USERNAME_RE new"
| "vouched (EvList count names) \<longleftrightarrow> count = int (length names) \<and> (\<forall>n \<in> set names. USERNAME_RE n)"
| "vouched (EvErr code _) \<longleftrightarrow> code \<in> js ` set ERROR_CODES"
| "vouched (EvUnknown _) \<longleftrightarrow> False"

definition says :: "bytes \<Rightarrow> BackendEvent \<Rightarrow> bool" where
  "says p e \<longleftrightarrow> utf8_decode p = server_line e"

definition good :: "bytes \<Rightarrow> bool" where
  "good p \<longleftrightarrow> (\<exists>e. vouched e \<and> says p e)"

lemma js_code_space: "SP \<in> set (js s) \<longleftrightarrow> CHR '' '' \<in> set s"
  by (simp add: SP_def)

lemma vouched_spoken: "vouched e \<Longrightarrow> spoken e"
  by (cases e) (auto simp: name_space name_nonempty ERROR_CODES_def js_code_space)

lemma good_parses: "good p \<Longrightarrow> vouched (parseBackendLine (utf8_decode p))"
  by (auto simp: good_def says_def parse_spoken vouched_spoken)

lemma good_intro: "says p e \<Longrightarrow> vouched e \<Longrightarrow> good p"
  by (auto simp: good_def)

lemma decode_nickname: "is_valid_nickname n \<Longrightarrow> utf8_decode (n @ rest) = widen n @ utf8_decode rest"
  and decode_nickname_end: "is_valid_nickname n \<Longrightarrow> utf8_decode n = widen n"
  using decode_ascii [OF nickname_ascii, of n] decode_ascii [OF nickname_ascii, of n "[]"] by (simp_all add: utf8_decode_def)

lemma says_named:
  assumes "is_valid_nickname n"
  shows "says (asc ''WELCOME '' @ n) (EvWelcome (widen n))"
    and "says (asc ''SYS '' @ n @ asc '' has joined.'') (EvSys (widen n @ js '' has joined.''))"
    and "says (asc ''SYS '' @ n @ asc '' has left.'') (EvSys (widen n @ js '' has left.''))"
    and "says (asc ''MSG '' @ n @ asc '' '' @ text) (EvMsg (widen n) (utf8_decode text))"
    and "says (asc ''PRIV '' @ n @ asc '' '' @ text) (EvPriv (widen n) (utf8_decode text))"
    and "says (asc ''PRIV_SENT '' @ n @ asc '' '' @ text) (EvPrivSent (widen n) (utf8_decode text))"
    and "is_valid_nickname m \<Longrightarrow> says (asc ''NICK '' @ n @ asc '' '' @ m) (EvNick (widen n) (widen m))"
  using assms by (simp_all add: says_def decode_asc decode_asc_end decode_nickname decode_nickname_end)

lemma says_error:
  assumes "list_all (\<lambda>c. (of_char c :: nat) < 128) code"
  shows "says (asc ''ERR '' @ asc code @ asc '' '' @ text) (EvErr (js code) (utf8_decode text))"
  using assms by (simp add: says_def decode_asc)

lemma says_list:
  assumes "\<forall>n \<in> set names. is_valid_nickname n"
  shows "says (asc ''LIST '' @ decimal k @ concat (map (\<lambda>n. asc '' '' @ n) names)) (EvList (int k) (map widen names))"
proof -
  have "utf8_decode (concat (map (\<lambda>n. asc '' '' @ n) names)) = concat (map (\<lambda>n. js '' '' @ n) (map widen names))"
    using assms
  proof (induction names)
    case (Cons n names)
    then have "utf8_decode (asc '' '' @ n @ concat (map (\<lambda>n. asc '' '' @ n) names))
        = js '' '' @ widen n @ concat (map (\<lambda>n. js '' '' @ n) (map widen names))"
      by (subst decode_asc) (simp_all add: decode_nickname)
    then show ?case by simp
  qed simp
  then show ?thesis by (simp add: says_def decode_asc decode_ascii)
qed

subsection \<open>Everything that is written or waits to be written is good\<close>

fun task_good :: "Task \<Rightarrow> bool" where
  "task_good (SendTo fd p) \<longleftrightarrow> good p"
| "task_good (WriteFrame fd p) \<longleftrightarrow> good p"
| "task_good (Broadcast p exclude) \<longleftrightarrow> good p"
| "task_good _ \<longleftrightarrow> True"

definition tasks_good :: "Task list \<Rightarrow> bool" where
  "tasks_good ts \<longleftrightarrow> (\<forall>x \<in> set ts. task_good x)"

definition writes_good :: "Server \<Rightarrow> bool" where
  "writes_good sv \<longleftrightarrow> (\<forall>t. tasks_good (sv_tasks sv t)) \<and> (\<forall>fd p. Frame fd p \<in> set (sv_out sv) \<longrightarrow> good p)"

lemma tasks_good_simps [simp]: "tasks_good []" "tasks_good (t # ts) \<longleftrightarrow> task_good t \<and> tasks_good ts"
  "tasks_good (ts @ us) \<longleftrightarrow> tasks_good ts \<and> tasks_good us"
  by (auto simp: tasks_good_def)

lemma error_good [simp]:
  "code \<in> set ERROR_CODES \<Longrightarrow> list_all (\<lambda>c. (of_char c :: nat) < 128) code \<Longrightarrow> tasks_good (send_error fd code text)"
  by (auto simp: send_error_def intro!: good_intro [OF says_error])

lemma named_good:
  assumes "is_valid_nickname n"
  shows "good (asc ''WELCOME '' @ n)" and "good (asc ''SYS '' @ n @ asc '' has joined.'')"
    and "good (asc ''SYS '' @ n @ asc '' has left.'')" and "good (asc ''MSG '' @ n @ asc '' '' @ text)"
    and "good (asc ''PRIV '' @ n @ asc '' '' @ text)" and "good (asc ''PRIV_SENT '' @ n @ asc '' '' @ text)"
    and "is_valid_nickname m \<Longrightarrow> good (asc ''NICK '' @ n @ asc '' '' @ m)"
  using says_named [OF assms] assms by (auto intro!: good_intro simp: nickname_name)

lemma known_names:
  assumes "names_inv cfg sv"
  shows "find_client fd sv = Some r \<Longrightarrow> is_valid_nickname (cr_nickname r)"
    and "(fd, r) \<in> set (sv_clients sv) \<Longrightarrow> is_valid_nickname (cr_nickname r)"
  using assms by (auto simp: names_inv_def find_client_def dest: map_of_SomeD)

lemma nick_good: "names_inv cfg sv \<Longrightarrow> handle_nick fd args sv = (sv', ts) \<Longrightarrow> tasks_good ts"
  by (auto simp: handle_nick_def Let_def ERROR_CODES_def named_good(7) dest: known_names(1)
      split: prod.splits if_splits option.splits)

lemma msg_good: "names_inv cfg sv \<Longrightarrow> handle_msg fd args sv = (sv', ts) \<Longrightarrow> tasks_good ts"
  by (auto simp: handle_msg_def Let_def ERROR_CODES_def dest!: find_Some_set intro!: named_good intro: known_names
      split: prod.splits if_splits option.splits)

lemma list_good:
  assumes "names_inv cfg sv" and "handle_list fd sv = (sv', ts)"
  shows "tasks_good ts"
proof -
  let ?names = "sort (map (cr_nickname \<circ> snd) (filter (cr_welcomed \<circ> snd) (sv_clients sv)))"
  have v: "\<forall>n \<in> set ?names. is_valid_nickname n" using known_names(2) [OF assms(1)] by auto
  then have "good (asc ''LIST '' @ decimal (length ?names) @ concat (map (\<lambda>n. asc '' '' @ n) ?names))"
    by (intro good_intro [OF says_list]) (auto simp: nickname_name)
  with assms(2) show ?thesis by (auto simp: handle_list_def Let_def)
qed

lemma line_good: "names_inv cfg sv \<Longrightarrow> serve_line fd raw sv = (sv', ts, goes_on) \<Longrightarrow> tasks_good ts"
  by (auto simp: serve_line_def Let_def ERROR_CODES_def named_good(4) dest: nick_good msg_good list_good known_names(1)
      split: prod.splits if_splits option.splits)

lemma writes_line: "writes_good sv \<Longrightarrow> line_effect fd sv sv' ts \<Longrightarrow> writes_good sv'"
  by (simp add: writes_good_def line_effect_def)

lemma writes_set: "writes_good sv \<Longrightarrow> tasks_good ts \<Longrightarrow> writes_good (set_tasks t ts sv)"
  by (auto simp: writes_good_def)

lemma writes_stop: "writes_good sv \<Longrightarrow> tasks_good ts \<Longrightarrow> writes_good (stop_reading fd ts sv)"
  unfolding stop_reading_def by (rule writes_set) (simp_all add: writes_good_def)

lemma writes_accept:
  assumes "writes_good sv" and "length (sv_clients sv) < max_clients cfg \<Longrightarrow> is_valid_nickname (assign_default_nickname sv)"
  shows "writes_good (accept_one cfg fd sv)"
proof -
  have full: "good (asc ''ERR SERVER_FULL Server is full, try again later'')"
    by (rule good_intro [of _ "EvErr (js ''SERVER_FULL'') (js ''Server is full, try again later'')"])
      (simp_all add: says_def decode_asc_end ERROR_CODES_def js_append [symmetric])
  have "writes_good (sv\<lparr>sv_open := open, sv_out := sv_out sv @ [Accepted fd]\<rparr>)" for "open"
    using assms(1) by (auto simp: writes_good_def)
  moreover have "writes_good (s\<lparr>sv_clients := cs\<rparr>) \<longleftrightarrow> writes_good s" for s cs by (simp add: writes_good_def)
  ultimately show ?thesis
    using assms(2) full by (auto simp: accept_one_def Let_def named_good intro!: writes_set)
qed

lemma writes_task:
  assumes "writes_good sv" and "names_inv cfg sv" and "task_good task" and "run_task cfg order task sv = (sv', new)"
  shows "writes_good sv' \<and> tasks_good new"
proof -
  have *: "writes_good (sv\<lparr>sv_open := x, sv_out := sv_out sv @ [Closed fd]\<rparr>)" "writes_good (sv\<lparr>sv_reading := y\<rparr>)"
    "writes_good (sv\<lparr>sv_clients := cs\<rparr>)" "writes_good (set_client fd r sv)" "good p \<Longrightarrow> writes_good (sv\<lparr>sv_out := sv_out sv @ [Frame fd p]\<rparr>)" for x y cs fd r p
    using assms(1) by (auto simp: writes_good_def)
  have "good (asc ''SYS '' @ cr_nickname r @ asc '' has left.'')" if "find_client fd sv = Some r" for fd r
    using named_good(3) known_names(1) [OF assms(2) that] .
  with assms(3,4) * assms(1) show ?thesis
    by (cases task) (auto simp: tasks_good_def split: option.splits if_splits)
qed

lemma writes_step:
  assumes "max_clients cfg < 2 ^ 31" and "names_inv cfg sv" and "writes_good sv" and "server_step cfg sv sv'"
  shows "writes_good sv'"
  using assms(4)
proof cases
  case (accepts fd)
  show ?thesis unfolding accepts(1) by (rule writes_accept [OF assms(3)]) (use assigned_fresh(1) assms(1) in blast)
next
  case (receives fd payload)
  obtain s ts b where l: "serve_line fd payload sv = (s, ts, b)" by (cases "serve_line fd payload sv")
  have "tasks_good ts" "writes_good s"
    using line_good [OF assms(2) l] writes_line [OF assms(3) serve_line_effect [OF l]] by simp_all
  then show ?thesis unfolding receives(1) by (simp add: receive_frame_def l writes_set writes_stop)
next
  case (too_large fd)
  show ?thesis unfolding too_large(1) by (rule writes_stop [OF assms(3)]) (simp add: ERROR_CODES_def)
next
  case (ends fd)
  show ?thesis unfolding ends(1) by (rule writes_stop [OF assms(3)]) simp
next
  case (works t task ts order s new)
  have g: "tasks_good (task # ts)" using assms(3) works(2) by (metis writes_good_def)
  then show ?thesis using writes_task [OF assms(3,2) _ works(4)] unfolding works(1) by (simp add: writes_set)
next
  case (write_fails t fd payload ts)
  have "tasks_good (WriteFrame fd payload # ts)" using assms(3) write_fails(2) by (metis writes_good_def)
  then show ?thesis unfolding write_fails(1) by (simp add: writes_set [OF assms(3)])
next
  case shuts_down
  have "good (asc ''SYS Server is shutting down. Goodbye!'')"
    by (rule good_intro [of _ "EvSys (js ''Server is shutting down. Goodbye!'')"])
      (simp_all add: says_def decode_asc_end js_append [symmetric])
  then have "tasks_good [Broadcast (asc ''SYS Server is shutting down. Goodbye!'') None]" by simp
  moreover have "writes_good (sv\<lparr>sv_running := False\<rparr>)" using assms(3) by (simp add: writes_good_def)
  ultimately show ?thesis unfolding shuts_down(1) shutdown_all_def by (intro writes_set)
qed

interpretation server_writes: invariant_system "\<lambda>sv. sv = new_Server" "server_step cfg"
  "\<lambda>sv. max_clients cfg < 2 ^ 31 \<longrightarrow> server_inv cfg sv \<and> writes_good sv" for cfg
proof
  show "max_clients cfg < 2 ^ 31 \<longrightarrow> server_inv cfg sv \<and> writes_good sv" if "sv = new_Server" for sv
    using server.inv_init [OF that] by (simp add: that writes_good_def) (simp add: new_Server_def)
  show "max_clients cfg < 2 ^ 31 \<longrightarrow> server_inv cfg sv' \<and> writes_good sv'"
    if "max_clients cfg < 2 ^ 31 \<longrightarrow> server_inv cfg sv \<and> writes_good sv" "server_step cfg sv sv'" for sv sv'
    using that server.inv_step [of cfg sv sv'] writes_step [of cfg sv sv'] by (auto simp: server_inv_def)
qed

text \<open>A frame is never longer than the server's maximum.\<close>

definition frames_fit :: "ServerConfig \<Rightarrow> Server \<Rightarrow> bool" where
  "frames_fit cfg sv \<longleftrightarrow> (\<forall>fd p. Frame fd p \<in> set (sv_out sv) \<longrightarrow> length p \<le> max_message_size cfg)"

interpretation server_frames: invariant_system "\<lambda>sv. sv = new_Server" "server_step cfg" "frames_fit cfg" for cfg
proof
  show "frames_fit cfg sv" if "sv = new_Server" for sv
    by (simp add: that frames_fit_def new_Server_def)
  show "frames_fit cfg sv'" if inv: "frames_fit cfg sv" and step: "server_step cfg sv sv'" for sv sv'
    using step
  proof cases
    case (receives fd payload)
    obtain s ts b where l: "serve_line fd payload sv = (s, ts, b)" by (cases "serve_line fd payload sv")
    with inv serve_line_effect [OF l] show ?thesis
      unfolding receives(1) by (simp add: receive_frame_def frames_fit_def stop_reading_def line_effect_def)
  next
    case (works t task ts order s new)
    with inv show ?thesis by (cases task) (auto simp: frames_fit_def split: option.splits if_splits)
  qed (use inv in \<open>auto simp: frames_fit_def accept_one_def stop_reading_def shutdown_all_def Let_def\<close>)
qed

subsection \<open>What the gateway reads\<close>

text \<open>The bytes of one connection, of which the gateway may have read only a part.\<close>

lemma read_prefix:
  assumes "\<forall>p \<in> set ps. length p \<le> m \<and> length p < 2 ^ 32"
    and "concat chunks @ rest = concat (map (\<lambda>p. uint32be (length p) @ p) ps)"
  shows "\<exists>qs. set qs \<subseteq> set ps \<and>
    read_chunks (connect (new_BackendConnection s m)) chunks = (map (\<lambda>p. parseBackendLine (utf8_decode p)) qs, False)"
proof -
  let ?d = "new_FrameDecoder m"
  have i: "buffer ?d = []" "maxPayloadSize ?d = m" by (simp_all add: new_FrameDecoder_def)
  have "decoder_feed ?d (concat chunks @ rest) = Some (ps, ?d)"
    unfolding assms(2) using assms(1) by (intro wire.feed_frames) (simp_all add: i)
  then obtain qs d rs where q: "decoder_feed ?d (concat chunks) = Some (qs, d)" "ps = qs @ rs"
    by (auto simp: wire.feed_append split: option.splits)
  have "bc_decoder (connect (new_BackendConnection s m)) = ?d" by (simp add: connect_def new_BackendConnection_def)
  then have "feed_all decoder_feed (bc_decoder (connect (new_BackendConnection s m))) chunks = Some (qs, d)"
    using wire.feed_chunks [of ?d chunks] wire.idle_settled [OF i(1)] q(1) by simp
  from read_chunks_feed [OF this] q(2) show ?thesis by auto
qed

end
