(* ===== verification/BackendServerProps.thy ===== *)
theory BackendServerProps
  imports BackendServerWire
begin

section \<open>Runs and properties of the C++ server\<close>

text \<open>
  A schedule names the steps of a run: which connection arrives, what a handler receives, which
  thread goes on.  \<open>schedule\<close> executes one, and what it returns is a run of the step relation.
  The properties follow from the invariants and from two runs.
\<close>

datatype Act = Arrives nat | Receives nat bytes | Leaves nat | Goes Thread

definition perform :: "ServerConfig \<Rightarrow> Act \<Rightarrow> Server \<Rightarrow> Server option" where
  "perform cfg a sv = (case a of
     Arrives fd \<Rightarrow> if sv_running sv \<and> sv_tasks sv Acceptor = [] \<and> fd \<notin> set (sv_open sv) then Some (accept_one cfg fd sv) else None
   | Receives fd payload \<Rightarrow> if fd \<in> set (sv_reading sv) \<and> sv_tasks sv (Handler fd) = [] \<and> length payload \<le> max_message_size cfg
       then Some (receive_frame fd payload sv) else None
   | Leaves fd \<Rightarrow> if fd \<in> set (sv_reading sv) \<and> sv_tasks sv (Handler fd) = [] then Some (stop_reading fd [] sv) else None
   | Goes t \<Rightarrow> (case sv_tasks sv t of [] \<Rightarrow> None
       | task # ts \<Rightarrow> let (sv', new) = run_task cfg id task sv in Some (set_tasks t (new @ ts) sv')))"

fun schedule :: "ServerConfig \<Rightarrow> Act list \<Rightarrow> Server \<Rightarrow> Server option" where
  "schedule cfg [] sv = Some sv"
| "schedule cfg (a # as) sv = (case perform cfg a sv of None \<Rightarrow> None | Some sv' \<Rightarrow> schedule cfg as sv')"

lemma perform_step: "perform cfg a sv = Some sv' \<Longrightarrow> server_step cfg sv sv'"
  by (cases a) (auto simp: perform_def Let_def intro: server_step.intros works [where order = id] split: if_splits list.splits prod.splits)

lemma schedule_run: "schedule cfg as sv = Some sv' \<Longrightarrow> (server_step cfg)\<^sup>*\<^sup>* sv sv'"
  by (induction as arbitrary: sv) (auto split: option.splits dest: perform_step intro: converse_rtranclp_into_rtranclp)

definition demo_config :: ServerConfig where
  "demo_config = \<lparr>max_clients = 100, max_message_size = 4096\<rparr>"

definition go :: "nat \<Rightarrow> Thread \<Rightarrow> Act list" where
  "go n t = replicate n (Goes t)"

lemma schedule_append: "schedule cfg (as @ bs) sv = (case schedule cfg as sv of None \<Rightarrow> None | Some sv' \<Rightarrow> schedule cfg bs sv')"
  by (induction as arbitrary: sv) (auto split: option.splits)

text \<open>Two clients connect and the second calls itself bob.\<close>

definition two_clients :: "Act list" where
  "two_clients = Arrives 5 # go 5 Acceptor @ Arrives 6 # go 6 Acceptor @ Receives 6 (asc ''/nick bob'') # go 3 (Handler 6)"

definition two_state :: Server where
  "two_state = the (schedule demo_config two_clients new_Server)"

lemma two_some: "schedule demo_config two_clients new_Server \<noteq> None"
  by code_simp

lemma two_run: "(server_step demo_config)\<^sup>*\<^sup>* new_Server two_state"
  by (rule schedule_run [of _ two_clients]) (use two_some in \<open>simp add: two_state_def\<close>)

lemma two_observed:
  "(find_client 5 two_state, find_client 6 two_state, sv_reading two_state, sv_tasks two_state (Handler 5), sv_out two_state) =
   (Some \<lparr>cr_nickname = asc ''User1'', cr_welcomed = True\<rparr>, Some \<lparr>cr_nickname = asc ''bob'', cr_welcomed = True\<rparr>, [5, 6], [],
    [Accepted 5, Frame 5 (asc ''WELCOME User1''), Accepted 6, Frame 6 (asc ''WELCOME User2''),
     Frame 5 (asc ''SYS User2 has joined.''), Frame 5 (asc ''NICK User2 bob''), Frame 6 (asc ''NICK User2 bob'')])"
  by code_simp

lemma two_facts:
  "find_client 5 two_state = Some \<lparr>cr_nickname = asc ''User1'', cr_welcomed = True\<rparr>"
  "find_client 6 two_state = Some \<lparr>cr_nickname = asc ''bob'', cr_welcomed = True\<rparr>"
  "sv_reading two_state = [5, 6]" "sv_tasks two_state (Handler 5) = []"
  "sv_out two_state = [Accepted 5, Frame 5 (asc ''WELCOME User1''), Accepted 6, Frame 6 (asc ''WELCOME User2''),
     Frame 5 (asc ''SYS User2 has joined.''), Frame 5 (asc ''NICK User2 bob''), Frame 6 (asc ''NICK User2 bob'')]"
  using two_observed by simp_all

subsection \<open>Properties\<close>

text \<open>C26: Nicknames are unique and valid.  In every state that the server can reach, two
  connections never have the same nickname, every nickname satisfies the server's rule, and
  there are at most as many clients as configured; a descriptor of the map is an open one.\<close>

theorem nicknames_unique:
  assumes "(server_step cfg)\<^sup>*\<^sup>* new_Server sv" and "max_clients cfg < 2 ^ 31"
    and "find_client fd sv = Some r" and "find_client g sv = Some q"
  shows "(cr_nickname r = cr_nickname q \<longrightarrow> fd = g) \<and> is_valid_nickname (cr_nickname r)
    \<and> length (sv_clients sv) \<le> max_clients cfg \<and> fd \<in> set (sv_open sv)"
proof -
  have inv: "tokens_inv sv" "names_inv cfg sv"
    using server_reachable [OF assms(2,1)] by (simp_all add: server_inv_def)
  have "cr_nickname r = cr_nickname q \<longrightarrow> fd = g"
    using other_nickname [OF inv(2) assms(4)] map_of_SomeD [OF assms(3) [unfolded find_client_def]] by auto
  with inv known_names(1) [OF inv(2) assms(3)] assms(3) show ?thesis
    by (auto simp: names_inv_def tokens_inv_def)
qed

theorem nicknames_unique_witness:
  "is_valid_nickname (asc ''User1'') \<and> length (sv_clients two_state) \<le> 100 \<and> 5 \<in> set (sv_open two_state)
    \<and> asc ''User1'' \<noteq> asc ''bob''"
  using nicknames_unique [OF two_run _ two_facts(1,2)] by (simp add: demo_config_def)

text \<open>C9: The gateway may believe its backend.  Whatever its clients send it, in whatever order its
  threads run: what the gateway reads of the frames that the server wrote to a connection, cut
  into chunks anywhere and perhaps not to the end, is never an unknown line and, as the server's
  limit on a message is at most the gateway's, never an oversized frame, and every name in it satisfies the gateway's own rule for user names.\<close>

theorem server_lines_trusted:
  assumes "(server_step cfg)\<^sup>*\<^sup>* new_Server sv" and "max_clients cfg < 2 ^ 31"
    and "max_message_size cfg \<le> m" and "max_message_size cfg < 2 ^ 32"
    and "\<forall>p \<in> set ps. Frame fd p \<in> set (sv_out sv)"
    and "concat chunks @ rest = concat (map (\<lambda>p. uint32be (length p) @ p) ps)"
    and "read_chunks (connect (new_BackendConnection s m)) chunks = (evs, too_large)"
  shows "\<not> too_large \<and> (\<forall>e \<in> set evs. vouched e)"
proof -
  have inv: "writes_good sv" "frames_fit cfg sv"
    using server_writes.inv_reachable [OF _ assms(1)] server_frames.inv_reachable [OF _ assms(1)] assms(2) by auto
  have "\<forall>p \<in> set ps. length p \<le> m \<and> length p < 2 ^ 32"
    using inv(2) assms(3,4,5) unfolding frames_fit_def by (meson le_trans le_less_trans)
  from read_prefix [OF this assms(6), of s] assms(7) obtain qs where qs: "set qs \<subseteq> set ps"
    "evs = map (\<lambda>p. parseBackendLine (utf8_decode p)) qs" "\<not> too_large" by auto
  have "good p" if "p \<in> set qs" for p using that qs(1) inv(1) assms(5) unfolding writes_good_def by blast
  with qs(2,3) show ?thesis by (auto simp: good_parses)
qed

theorem server_lines_trusted_witness:
  "list_all vouched (fst (read_chunks (connect (new_BackendConnection 0 8192)) [[0, 0, 0], [13] @ asc ''WELCOME User1'', [0, 0, 0]]))"
proof -
  have w: "length (asc ''WELCOME User1'') = 13" by (simp add: asc_def)
  obtain evs b where e: "read_chunks (connect (new_BackendConnection 0 8192)) [[0, 0, 0], [13] @ asc ''WELCOME User1'', [0, 0, 0]] = (evs, b)"
    by (metis prod.exhaust)
  have "\<not> b \<and> (\<forall>e \<in> set evs. vouched e)"
    by (rule server_lines_trusted [OF two_run, where fd = 5 and m = 8192 and chunks = "[[0, 0, 0], [13] @ asc ''WELCOME User1'', [0, 0, 0]]" and evs = evs
          and ps = "[asc ''WELCOME User1'', asc ''SYS User2 has joined.'']" and rest = "[21] @ asc ''SYS User2 has joined.''" and s = 0])
      (use e in \<open>simp_all add: demo_config_def two_facts(5) uint32be_def asc_def\<close>)
  with e show ?thesis by (simp add: list_all_iff)
qed

text \<open>A private message can reach a stranger.  The handler of \<open>/msg\<close> releases the lock between
  looking up its target and sending to the target's descriptor.  There is a run in which bob,
  the target, leaves in between and the kernel gives his descriptor to a new connection: the
  stranger, who is called User2, gets the message as his first frame, before his WELCOME.\<close>

theorem private_message_misdelivered:
  "\<exists>sv0 sv. (server_step demo_config)\<^sup>*\<^sup>* new_Server sv0 \<and> server_step demo_config sv0 (receive_frame 5 (asc ''/msg bob secret'') sv0)
     \<and> (server_step demo_config)\<^sup>*\<^sup>* (receive_frame 5 (asc ''/msg bob secret'') sv0) sv
     \<and> find_client 6 sv0 = Some \<lparr>cr_nickname = asc ''bob'', cr_welcomed = True\<rparr>
     \<and> find_client 6 sv = Some \<lparr>cr_nickname = asc ''User2'', cr_welcomed = False\<rparr>
     \<and> sv_out sv = sv_out sv0 @ [Frame 5 (asc ''SYS bob has left.''), Closed 6, Accepted 6, Frame 6 (asc ''PRIV User1 secret'')]"
proof -
  let ?s = "receive_frame 5 (asc ''/msg bob secret'') two_state" and ?as = "Leaves 6 # go 4 (Handler 6) @ Arrives 6 # go 2 (Handler 5)"
  have "map_option (\<lambda>sv. (find_client 6 sv, sv_out sv)) (schedule demo_config ?as ?s) =
     Some (Some \<lparr>cr_nickname = asc ''User2'', cr_welcomed = False\<rparr>, sv_out two_state @
       [Frame 5 (asc ''SYS bob has left.''), Closed 6, Accepted 6, Frame 6 (asc ''PRIV User1 secret'')])"
    by code_simp
  then obtain sv where sv: "schedule demo_config ?as ?s = Some sv"
    "find_client 6 sv = Some \<lparr>cr_nickname = asc ''User2'', cr_welcomed = False\<rparr>"
    "sv_out sv = sv_out two_state @ [Frame 5 (asc ''SYS bob has left.''), Closed 6, Accepted 6, Frame 6 (asc ''PRIV User1 secret'')]"
    by auto
  have "server_step demo_config two_state ?s"
    by (rule receives) (simp_all add: two_facts demo_config_def asc_def)
  with two_run schedule_run [OF sv(1)] two_facts(2) sv(2,3) show ?thesis by blast
qed

end
