(* ===== verification/Stack.thy ===== *)
theory Stack
  imports BackendServerProps GatewayScenario
begin

section \<open>The gateway on top of the C++ server\<close>

text \<open>
  The two programs with the TCP connections between them.  The gateway's model assumes of the
  bytes it receives that the names in them have no separator; here those bytes are what the
  server's model has written, and the assumption is proved.  The server has other clients as
  well, of which nothing is known.
\<close>

subsection \<open>What a handler leaves of the decoders\<close>

definition conns :: "World \<Rightarrow> nat \<times> (nat \<Rightarrow> FrameDecoder)" where
  "conns w = (w_nconn w, \<lambda>c. bc_decoder (w_conn w c))"

lemma conns_upd [simp]:
  "conns (emit e w) = conns w" "conns (crash w) = conns w" "conns (upd_sess r f w) = conns w" "conns (next_tick w) = conns w"
  "conns (w\<lparr>w_db := db\<rparr>) = conns w" "conns (w\<lparr>w_roster := ro\<rparr>) = conns w" "conns (w\<lparr>w_jobs := jobs\<rparr>) = conns w"
  by (simp_all add: conns_def emit_def crash_def upd_sess_def next_tick_def)

lemma conns_upd_conn: "(\<And>b. bc_decoder (f b) = bc_decoder b) \<Longrightarrow> conns (upd_conn c f w) = conns w"
  by (auto simp: conns_def upd_conn_def)

lemma conns_put: "bc_decoder b = bc_decoder (w_conn w c) \<Longrightarrow> conns (upd_conn c (\<lambda>_. b) w) = conns w"
  by (auto simp: conns_def upd_conn_def)

lemma conns_fold: "(\<And>x w. conns (f x w) = conns w) \<Longrightarrow> conns (fold f xs w) = conns w"
  by (induction xs arbitrary: w) auto

lemma conns_sendTo [simp]: "conns (sendTo r m w) = conns w"
  by (simp add: sendTo_def)

lemma conns_broadcast [simp]: "conns (broadcastToAll m ex w) = conns w"
  unfolding broadcastToAll_def by (rule conns_fold) simp

lemma conns_ws_close [simp]: "conns (ws_close r n w) = conns w"
  by (simp add: ws_close_def)

lemma close_decoder: "close b = (b', d) \<Longrightarrow> bc_decoder b' = bc_decoder b"
  by (auto simp: close_def split: if_splits)

lemma conns_backend_close [simp]: "conns (backend_close r w) = conns w"
  by (auto simp: backend_close_def Let_def conns_put dest: close_decoder split: option.split prod.split)

lemma conns_sendLine [simp]: "conns (backend_sendLine r line w) = conns w"
  by (auto simp: backend_sendLine_def sendLine_def conns_put split: option.splits if_splits prod.splits)

lemma conns_ensureDirect: "ensureDirect_w env a b w = (w', s) \<Longrightarrow> conns w' = conns w"
  by (auto simp: ensureDirect_w_def split: prod.splits)

lemma conns_append: "append_w env d w = Some (w', s) \<Longrightarrow> conns w' = conns w"
  by (auto simp: append_w_def split: sum.splits prod.splits)

lemma conns_sendReady [simp]: "conns (sendReady env r w) = conns w"
  by (simp add: sendReady_def Let_def)

lemma conns_to_member [simp]: "conns (send_to_member m i w) = conns w"
  by (simp add: send_to_member_def split: option.split)

lemma conns_createGroup [simp]: "conns (handleCreateGroup env r name ids w) = conns w"
  by (simp add: handleCreateGroup_def Let_def conns_fold split: sum.split)

lemma conns_sendPublic [simp]: "conns (sendPublic env r text w) = conns w"
  by (auto simp: sendPublic_def dest: conns_append split: option.split)

lemma conns_sendGroup [simp]: "conns (sendGroup env r g text w) = conns w"
  by (auto simp: sendGroup_def Let_def conns_fold dest: conns_append split: option.split)

lemma conns_sendDirect [simp]: "conns (sendDirect env r p text w) = conns w"
  by (auto simp: sendDirect_def Let_def dest!: conns_append conns_ensureDirect split: option.split prod.split)

lemma conns_clientMessage [simp]: "conns (handleClientMessage env r m w) = conns w"
proof (cases m)
  case (SendMessage t body)
  then show ?thesis by (cases t) simp_all
qed (simp_all add: Let_def)

lemma conns_announceReady [simp]: "conns (announceReady env r w) = conns w"
  by (simp add: announceReady_def Let_def drainQueue_def conns_fold)

lemma conns_event [simp]: "conns (onBackendEvent env r e w) = conns w"
  by (cases e)
    (auto simp: onWelcome_def onNick_def onPriv_def onPrivSent_def onErr_def Let_def
      dest!: conns_ensureDirect split: option.split prod.split sum.split)

text \<open>A login adds a connection with an empty buffer.\<close>

definition conns_grow :: "World \<Rightarrow> World \<Rightarrow> bool" where
  "conns_grow w w' \<longleftrightarrow> conns w' = conns w
     \<or> (\<exists>m. conns w' = (Suc (fst (conns w)), (snd (conns w))(fst (conns w) := new_FrameDecoder m)))"

lemma conns_account: "conns_grow w (handleAuth_account env r a w)"
  by (auto simp: conns_grow_def handleAuth_account_def Let_def conns_def emit_def upd_conn_def upd_sess_def connect_def
      new_BackendConnection_def fun_eq_iff sendTo_def split: option.split)

lemma conns_resume: "conns_grow w (handleAuth_resume env job w)"
proof (cases job)
  case (HashJob r username password)
  have "conns_grow w (handleAuth_account env r account (next_tick w\<lparr>w_db := db\<rparr>))" for account db
    using conns_account [of "next_tick w\<lparr>w_db := db\<rparr>" env r account] by (simp add: conns_grow_def)
  then show ?thesis
    unfolding HashJob by (simp add: auth_failed_def split: sum.split prod.split) (simp add: conns_grow_def)
next
  case (VerifyJob r row password)
  then show ?thesis using conns_account [of w env r] by (simp add: auth_failed_def split: option.split) (simp add: conns_grow_def)
qed

lemma conns_unavailable [simp]: "conns (handleAuth_unavailable r w) = conns w"
  by (simp add: handleAuth_unavailable_def Let_def)

lemma conns_raw [simp]: "conns (onClientRaw env r raw w) = conns w"
  by (auto simp: onClientRaw_def onClientMessage_def handleAuth_start_def auth_failed_def handleLogout_def
      simp del: handleClientMessage.simps split: option.split ValidationResult.split ClientMessage.split)

lemma conns_connection [simp]: "conns (onConnection env w) = conns w"
  by (simp add: onConnection_def Let_def) (simp add: conns_def)

lemma conns_closed [simp]: "conns (onClientClosed r w) = conns w"
  by (simp add: onClientClosed_def Let_def)

lemma conns_backend_closed [simp]: "conns (on_backend_close c w) = conns w"
proof -
  obtain b e where b: "on_close (w_conn w c) = (b, e)" by (cases "on_close (w_conn w c)")
  then have "bc_decoder b = bc_decoder (w_conn w c)" by (auto simp: on_close_def split: if_splits)
  then show ?thesis by (simp add: on_backend_close_def b onBackendClosed_def Let_def conns_put)
qed

lemma conns_server_close [simp]: "conns (server_close w) = conns w"
  unfolding server_close_def by (rule conns_fold) simp

subsection \<open>The bytes between the programs\<close>

definition framed :: "bytes list \<Rightarrow> bytes" where
  "framed ps = concat (map (\<lambda>p. uint32be (length p) @ p) ps)"

lemma framed_simps [simp]: "framed [] = []" "framed (p # ps) = uint32be (length p) @ p @ framed ps" "framed (ps @ qs) = framed ps @ framed qs"
  by (simp_all add: framed_def)

text \<open>Whatever part of a sequence of frames the decoder has seen, it has delivered whole frames
  from its front and keeps the bytes of the others.\<close>

lemma drain_framed:
  assumes "buf @ rest = framed ps" and "\<forall>p \<in> set ps. length p < 2 ^ 32" and "drain m buf = (fs, buf', err)"
  shows "\<exists>qs. ps = fs @ qs \<and> buf' @ rest = framed qs"
  using assms
proof (induction buf arbitrary: ps fs buf' err rule: drain_induct [where m = m])
  case (step buf)
  obtain p qs where ps: "ps = p # qs" using step.hyps(1) step.prems(1) by (cases ps) (auto simp: FRAME_HEADER_SIZE_def)
  have l: "FRAME_HEADER_SIZE \<le> length buf" using step.hyps(1) by simp
  have n: "readUInt32BE buf = length p"
    using step.prems(1,2) read_append [OF l, of rest] read_uint32be [of "length p" "p @ framed qs"] by (simp add: ps)
  let ?d = "drop (FRAME_HEADER_SIZE + readUInt32BE buf) buf"
  have split: "take (readUInt32BE buf) (drop FRAME_HEADER_SIZE buf) = p" "?d @ rest = framed qs"
  proof -
    have "take (length p) (drop FRAME_HEADER_SIZE (buf @ rest)) = p" "drop (FRAME_HEADER_SIZE + length p) (buf @ rest) = framed qs"
      by (simp_all add: step.prems(1) ps)
    with step.hyps(1) l show "take (readUInt32BE buf) (drop FRAME_HEADER_SIZE buf) = p" "?d @ rest = framed qs"
      by (simp_all add: n)
  qed
  obtain gs buf'' e where d: "drain m ?d = (gs, buf'', e)" by (metis prod_cases3)
  have "fs = p # gs" "buf'' = buf'" using step.prems(3) drain_step [OF step.hyps(1,2) d] split(1) by simp_all
  with step.IH [OF split(2) _ d] step.prems(2) show ?case by (auto simp: ps)
qed (auto simp: drain_short drain_large drain_wait)

subsection \<open>State and steps\<close>

text \<open>\<open>st_peer fd\<close> is the gateway's connection that the server knows as \<open>fd\<close>; \<open>st_backlog\<close> are the
  connections that the kernel has completed and the server has not yet accepted; \<open>st_down\<close> and
  \<open>st_up\<close> are the bytes on their way to the gateway and to the server.\<close>

record Stack =
  st_gateway :: World
  st_server :: Server
  st_peer :: "nat \<Rightarrow> nat option"
  st_backlog :: "nat list"
  st_down :: "nat \<Rightarrow> bytes"
  st_up :: "nat \<Rightarrow> bytes"

text \<open>The steps of the gateway that read nothing from the server.\<close>

inductive local_step :: "Env \<Rightarrow> World \<Rightarrow> World \<Rightarrow> bool" for env where
  "\<not> w_crashed w \<Longrightarrow> local_step env w (onConnection env w)"
| "\<not> w_crashed w \<Longrightarrow> r < w_nsess w \<Longrightarrow> s_ws (w_sess w r) \<noteq> WsClosed \<Longrightarrow> local_step env w (onClientRaw env r raw w)"
| "\<not> w_crashed w \<Longrightarrow> r < w_nsess w \<Longrightarrow> s_ws (w_sess w r) \<noteq> WsClosed \<Longrightarrow>
    local_step env w (onClientClosed r (upd_sess r (\<lambda>s. s\<lparr>s_ws := WsClosed\<rparr>) w))"
| "\<not> w_crashed w \<Longrightarrow> w_jobs w = before @ job # after \<Longrightarrow> local_step env w (handleAuth_resume env job (w\<lparr>w_jobs := before @ after\<rparr>))"
| "\<not> w_crashed w \<Longrightarrow> c < w_nconn w \<Longrightarrow> bc_socket (w_conn w c) = Connecting \<Longrightarrow>
    local_step env w (handleAuth_unavailable (bc_session (w_conn w c)) (upd_conn c onConnectError w))"
| "\<not> w_crashed w \<Longrightarrow> c < w_nconn w \<Longrightarrow> bc_socket (w_conn w c) \<in> {Wired, Destroyed} \<Longrightarrow> local_step env w (on_backend_close c w)"
| "\<not> w_crashed w \<Longrightarrow> c < w_nconn w \<Longrightarrow> bc_unacked (w_conn w c) = Suc n \<Longrightarrow>
    local_step env w (upd_conn c (\<lambda>b. b\<lparr>bc_unacked := n\<rparr>) w)"
| "\<not> w_crashed w \<Longrightarrow> c < w_nconn w \<Longrightarrow> bc_unacked (w_conn w c) = Suc n \<Longrightarrow> local_step env w (crash w)"
| "\<not> w_crashed w \<Longrightarrow> local_step env w (server_close w)"

lemma local_gateway: "local_step env w w' \<Longrightarrow> gateway_step env w w'"
  by (induction rule: local_step.induct) (auto intro: gateway_step.intros)

lemma local_conns:
  assumes "local_step env w w'"
  shows "conns_grow w w'"
  using assms
proof cases
  case (4 before job after)
  then show ?thesis using conns_resume [of "w\<lparr>w_jobs := before @ after\<rparr>" env job] by (simp add: conns_grow_def)
qed (simp_all add: conns_grow_def conns_upd_conn onConnectError_def)

text \<open>The bytes that the gateway has given to the socket of a connection, and what the events of the
  server do to the sockets.\<close>

definition uplink :: "Effect list \<Rightarrow> nat \<Rightarrow> bytes" where
  "uplink es c = concat (map (\<lambda>e. case e of Wrote c' bs \<Rightarrow> if c' = c then bs else [] | _ \<Rightarrow> []) es)"

definition gateway_moves :: "World \<Rightarrow> Stack \<Rightarrow> Stack" where
  "gateway_moves w' y = y\<lparr>st_gateway := w', st_up := (\<lambda>c. st_up y c @ uplink (drop (length (w_out (st_gateway y))) (w_out w')) c)\<rparr>"

fun deliver :: "Event \<Rightarrow> Stack \<Rightarrow> Stack" where
  "deliver (Accepted fd) y = y"
| "deliver (Frame fd p) y = (case st_peer y fd of None \<Rightarrow> y | Some c \<Rightarrow> y\<lparr>st_down := (st_down y)(c := st_down y c @ framed [p])\<rparr>)"
| "deliver (Closed fd) y = y\<lparr>st_peer := (st_peer y)(fd := None)\<rparr>"

definition server_moves :: "Server \<Rightarrow> Stack \<Rightarrow> Stack" where
  "server_moves sv' y = fold deliver (drop (length (sv_out (st_server y))) (sv_out sv')) (y\<lparr>st_server := sv'\<rparr>)"

text \<open>A handler reads a frame that has arrived, or one whose header is too large, or the end of the
  connection; of a client that is not the gateway it reads anything.\<close>

inductive stack_step :: "Env \<Rightarrow> ServerConfig \<Rightarrow> Stack \<Rightarrow> Stack \<Rightarrow> bool" for env cfg where
  gateway_acts: "local_step env (st_gateway y) w' \<Longrightarrow> stack_step env cfg y (gateway_moves w' y)"
| gateway_connects: "w = st_gateway y \<Longrightarrow> \<not> w_crashed w \<Longrightarrow> c < w_nconn w \<Longrightarrow> bc_socket (w_conn w c) = Connecting \<Longrightarrow>
    stack_step env cfg y (y\<lparr>st_gateway := upd_conn c on_connected w, st_backlog := st_backlog y @ [c]\<rparr>)"
| gateway_reads: "w = st_gateway y \<Longrightarrow> \<not> w_crashed w \<Longrightarrow> c < w_nconn w \<Longrightarrow> bc_socket (w_conn w c) = Wired \<Longrightarrow> st_down y c = chunk @ rest \<Longrightarrow>
    stack_step env cfg y (gateway_moves (on_backend_data env c chunk w) (y\<lparr>st_down := (st_down y)(c := rest)\<rparr>))"
| server_accepts: "sv = st_server y \<Longrightarrow> st_backlog y = before @ c # after \<Longrightarrow> sv_running sv \<Longrightarrow> sv_tasks sv Acceptor = [] \<Longrightarrow> fd \<notin> set (sv_open sv) \<Longrightarrow>
    stack_step env cfg y (y\<lparr>st_server := accept_one cfg fd sv, st_backlog := before @ after, st_peer := (st_peer y)(fd \<mapsto> c)\<rparr>)"
| server_accepts_other: "sv = st_server y \<Longrightarrow> sv_running sv \<Longrightarrow> sv_tasks sv Acceptor = [] \<Longrightarrow> fd \<notin> set (sv_open sv) \<Longrightarrow>
    stack_step env cfg y (y\<lparr>st_server := accept_one cfg fd sv, st_peer := (st_peer y)(fd := None)\<rparr>)"
| server_reads: "sv = st_server y \<Longrightarrow> fd \<in> set (sv_reading sv) \<Longrightarrow> sv_tasks sv (Handler fd) = [] \<Longrightarrow> length p \<le> max_message_size cfg \<Longrightarrow>
    st_peer y fd = Some c \<Longrightarrow> st_up y c = framed [p] @ rest \<Longrightarrow>
    stack_step env cfg y (y\<lparr>st_server := receive_frame fd p sv, st_up := (st_up y)(c := rest)\<rparr>)"
| server_reads_other: "sv = st_server y \<Longrightarrow> fd \<in> set (sv_reading sv) \<Longrightarrow> sv_tasks sv (Handler fd) = [] \<Longrightarrow> length p \<le> max_message_size cfg \<Longrightarrow>
    st_peer y fd = None \<Longrightarrow> stack_step env cfg y (y\<lparr>st_server := receive_frame fd p sv\<rparr>)"
| server_refuses: "sv = st_server y \<Longrightarrow> fd \<in> set (sv_reading sv) \<Longrightarrow> sv_tasks sv (Handler fd) = [] \<Longrightarrow>
    (\<forall>c. st_peer y fd = Some c \<longrightarrow> (\<exists>n rest. max_message_size cfg < n \<and> n < 2 ^ 32 \<and> st_up y c = uint32be n @ rest)) \<Longrightarrow>
    stack_step env cfg y (y\<lparr>st_server := stop_reading fd (send_error fd ''FRAME_TOO_LARGE'' (asc ''Message exceeds the server'' @ [39] @ asc ''s maximum size'')) sv\<rparr>)"
| server_hangs_up: "sv = st_server y \<Longrightarrow> fd \<in> set (sv_reading sv) \<Longrightarrow> sv_tasks sv (Handler fd) = [] \<Longrightarrow>
    stack_step env cfg y (y\<lparr>st_server := stop_reading fd [] sv\<rparr>)"
| server_works: "sv = st_server y \<Longrightarrow> sv_tasks sv t = task # ts \<Longrightarrow> (\<And>xs. set (order xs) = set xs \<and> distinct (order xs) = distinct xs) \<Longrightarrow>
    run_task cfg order task sv = (sv', new) \<Longrightarrow> stack_step env cfg y (server_moves (set_tasks t (new @ ts) sv') y)"
| server_fails: "sv = st_server y \<Longrightarrow> sv_tasks sv t = WriteFrame fd p # ts \<Longrightarrow> stack_step env cfg y (y\<lparr>st_server := set_tasks t ts sv\<rparr>)"
| server_stops: "sv = st_server y \<Longrightarrow> sv_running sv \<Longrightarrow> sv_tasks sv Acceptor = [] \<Longrightarrow> stack_step env cfg y (y\<lparr>st_server := shutdown_all sv\<rparr>)"

definition stack_init :: "Stack \<Rightarrow> bool" where
  "stack_init y \<longleftrightarrow> gateway_init (st_gateway y) \<and> st_server y = new_Server \<and> st_peer y = (\<lambda>_. None) \<and> st_backlog y = []
     \<and> st_down y = (\<lambda>_. []) \<and> st_up y = (\<lambda>_. [])"

subsection \<open>The invariant\<close>

definition pipe_ok :: "nat \<Rightarrow> Stack \<Rightarrow> bool" where
  "pipe_ok c y \<longleftrightarrow> (\<exists>ps. buffer (snd (conns (st_gateway y)) c) @ st_down y c = framed ps \<and> (\<forall>p \<in> set ps. good p \<and> length p < 2 ^ 32))"

definition pipes_ok :: "Stack \<Rightarrow> bool" where
  "pipes_ok y \<longleftrightarrow> (\<forall>c < w_nconn (st_gateway y). pipe_ok c y) \<and> (\<forall>c \<ge> w_nconn (st_gateway y). st_down y c = [])
     \<and> (\<forall>fd c. st_peer y fd = Some c \<longrightarrow> c < w_nconn (st_gateway y)) \<and> (\<forall>c \<in> set (st_backlog y). c < w_nconn (st_gateway y))"

lemma name_plain: "USERNAME_RE n \<Longrightarrow> plain n"
  by (auto simp: USERNAME_RE_def list_all_iff username_unit_def plain_def unit_def)

lemma vouched_plain: "vouched e \<Longrightarrow> names_plain e"
  by (cases e) (simp_all add: name_plain)

lemma deliver_fields [simp]: "st_gateway (deliver e y) = st_gateway y" "st_server (deliver e y) = st_server y"
  by (cases e; simp split: option.split)+

lemma pipes_deliver:
  assumes "pipes_ok y" and "\<And>fd p. e = Frame fd p \<Longrightarrow> good p \<and> length p < 2 ^ 32"
  shows "pipes_ok (deliver e y)"
proof (cases e)
  case (Frame fd p)
  show ?thesis
  proof (cases "st_peer y fd")
    case (Some c)
    then have c: "c < w_nconn (st_gateway y)" using assms(1) by (simp add: pipes_ok_def)
    then obtain ps where "buffer (snd (conns (st_gateway y)) c) @ st_down y c = framed ps" "\<forall>p \<in> set ps. good p \<and> length p < 2 ^ 32"
      using assms(1) by (auto simp: pipes_ok_def pipe_ok_def)
    then have "pipe_ok c (deliver e y)"
      using assms(2) [OF Frame] by (auto simp: pipe_ok_def Frame Some intro!: exI [of _ "ps @ [p]"] simp flip: append_assoc)
    moreover have "pipe_ok d (deliver e y) = pipe_ok d y" if "d \<noteq> c" for d using that by (simp add: pipe_ok_def Frame Some)
    ultimately show ?thesis using assms(1) c by (auto simp: pipes_ok_def Frame Some) metis
  qed (use assms(1) in \<open>simp add: Frame\<close>)
qed (use assms(1) in \<open>auto simp: pipes_ok_def pipe_ok_def\<close>)

lemma pipes_server:
  assumes "pipes_ok y" and "writes_good sv'" and "frames_fit cfg sv'" and "max_message_size cfg < 2 ^ 32"
  shows "pipes_ok (server_moves sv' y) \<and> st_gateway (server_moves sv' y) = st_gateway y \<and> st_server (server_moves sv' y) = sv'"
proof -
  have "pipes_ok (fold deliver es x) \<and> st_gateway (fold deliver es x) = st_gateway x \<and> st_server (fold deliver es x) = st_server x"
    if "pipes_ok x" "set es \<subseteq> set (sv_out sv')" for es x
    using that
  proof (induction es arbitrary: x)
    case (Cons e es)
    have "good p \<and> length p < 2 ^ 32" if "e = Frame fd p" for fd p
      using Cons.prems(2) that assms(2,3,4) by (auto simp: writes_good_def frames_fit_def intro: le_less_trans)
    from pipes_deliver [OF Cons.prems(1) this] Cons show ?case by simp
  qed simp
  moreover have "pipes_ok (y\<lparr>st_server := sv'\<rparr>)" using assms(1) by (simp add: pipes_ok_def pipe_ok_def)
  ultimately show ?thesis unfolding server_moves_def by (simp add: set_drop_subset)
qed

lemma pipes_gateway:
  assumes "pipes_ok y" and "conns_grow (st_gateway y) w'"
  shows "pipes_ok (gateway_moves w' y)"
proof (cases "conns w' = conns (st_gateway y)")
  case True
  then have "w_nconn w' = w_nconn (st_gateway y)" by (simp add: conns_def)
  with assms(1) True show ?thesis by (simp add: pipes_ok_def pipe_ok_def gateway_moves_def)
next
  case False
  let ?n = "w_nconn (st_gateway y)"
  obtain m where m: "conns w' = (Suc ?n, (snd (conns (st_gateway y)))(?n := new_FrameDecoder m))"
    using False assms(2) by (auto simp: conns_grow_def) (auto simp: conns_def)
  then have n: "w_nconn w' = Suc ?n" by (simp add: conns_def)
  have "pipe_ok c (gateway_moves w' y)" if "c < Suc ?n" for c
  proof (cases "c = ?n")
    case True
    with assms(1) show ?thesis
      by (auto simp: pipe_ok_def gateway_moves_def m pipes_ok_def new_FrameDecoder_def intro!: exI [of _ "[]"])
  next
    case False
    then have "pipe_ok c y" using assms(1) that by (simp add: pipes_ok_def)
    with False show ?thesis by (simp add: pipe_ok_def gateway_moves_def m)
  qed
  with assms(1) show ?thesis by (auto simp: pipes_ok_def n less_SucI) (auto simp: gateway_moves_def n less_SucI)
qed

lemma conns_data:
  assumes "drain (maxPayloadSize (bc_decoder (w_conn w c))) (buffer (bc_decoder (w_conn w c)) @ chunk) = (fs, buf', err)"
  shows "data_events c chunk w = map (\<lambda>p. parseBackendLine (utf8_decode p)) fs"
    and "conns (on_backend_data env c chunk w) = (w_nconn w, (snd (conns w))(c := (bc_decoder (w_conn w c))\<lparr>buffer := buf'\<rparr>))"
proof -
  let ?d = "(bc_decoder (w_conn w c))\<lparr>buffer := buf'\<rparr>" and ?b = "(w_conn w c)\<lparr>bc_decoder := (bc_decoder (w_conn w c))\<lparr>buffer := buf'\<rparr>\<rparr>"
  let ?evs = "map (\<lambda>p. parseBackendLine (utf8_decode p)) fs"
  have d: "on_data chunk (w_conn w c) = (?b, ?evs, err)" by (simp add: on_data_def push_drain assms)
  then show "data_events c chunk w = ?evs" by (simp add: data_events_def)
  define w1 where "w1 = fold (onBackendEvent env (bc_session ?b)) ?evs (upd_conn c (\<lambda>_. ?b) w)"
  have "conns w1 = conns (upd_conn c (\<lambda>_. ?b) w)" unfolding w1_def by (rule conns_fold) simp
  also have "\<dots> = (w_nconn w, (snd (conns w))(c := ?d))" by (auto simp: conns_def upd_conn_def)
  finally have w1: "conns w1 = (w_nconn w, (snd (conns w))(c := ?d))" .
  have "conns (on_backend_data env c chunk w) = conns w1"
    unfolding on_backend_data_def d prod.case w1_def [symmetric] Let_def
    by (auto simp: conns_put dest: close_decoder split: prod.split)
  then show "conns (on_backend_data env c chunk w) = (w_nconn w, (snd (conns w))(c := ?d))" by (simp only: w1)
qed

lemma data_plain:
  assumes "pipe_ok c y" and "st_down y c = chunk @ rest" and "w = st_gateway y"
  shows "\<forall>e \<in> set (data_events c chunk w). names_plain e"
    and "pipe_ok c (gateway_moves (on_backend_data env c chunk w) (y\<lparr>st_down := (st_down y)(c := rest)\<rparr>))"
proof -
  obtain ps where ps: "buffer (bc_decoder (w_conn w c)) @ chunk @ rest = framed ps" "\<forall>p \<in> set ps. good p \<and> length p < 2 ^ 32"
    using assms by (auto simp: pipe_ok_def conns_def)
  obtain fs buf' err where d: "drain (maxPayloadSize (bc_decoder (w_conn w c))) (buffer (bc_decoder (w_conn w c)) @ chunk) = (fs, buf', err)"
    by (metis prod_cases3)
  obtain qs where qs: "ps = fs @ qs" "buf' @ rest = framed qs"
    using drain_framed [OF _ _ d, of rest ps] ps by auto
  note data = conns_data [OF d]
  show "\<forall>e \<in> set (data_events c chunk w). names_plain e"
    using ps(2) by (auto simp: data(1) qs(1) good_parses vouched_plain)
  show "pipe_ok c (gateway_moves (on_backend_data env c chunk w) (y\<lparr>st_down := (st_down y)(c := rest)\<rparr>))"
    using qs ps(2) by (auto simp: pipe_ok_def gateway_moves_def data(2))
qed

lemma pipes_data:
  assumes "pipes_ok y" and "st_down y c = chunk @ rest" and "w = st_gateway y" and "c < w_nconn w"
  shows "pipes_ok (gateway_moves (on_backend_data env c chunk w) (y\<lparr>st_down := (st_down y)(c := rest)\<rparr>))"
proof -
  let ?y = "gateway_moves (on_backend_data env c chunk w) (y\<lparr>st_down := (st_down y)(c := rest)\<rparr>)"
  obtain fs buf' err where d: "drain (maxPayloadSize (bc_decoder (w_conn w c))) (buffer (bc_decoder (w_conn w c)) @ chunk) = (fs, buf', err)"
    by (metis prod_cases3)
  note data = conns_data(2) [OF d, of env]
  have n: "w_nconn (on_backend_data env c chunk w) = w_nconn w" using data by (simp add: conns_def)
  have "pipe_ok c y" using assms(1,3,4) by (simp add: pipes_ok_def)
  from data_plain(2) [OF this assms(2,3)] have "pipe_ok c ?y" .
  moreover have "pipe_ok b ?y = pipe_ok b y" if "b \<noteq> c" for b
    using that by (simp add: pipe_ok_def gateway_moves_def data flip: assms(3))
  ultimately have "pipe_ok b ?y" if "b < w_nconn w" for b
    using that assms(1,3) by (cases "b = c") (simp_all add: pipes_ok_def)
  moreover have "w_nconn (st_gateway ?y) = w_nconn w" "st_peer ?y = st_peer y" "st_backlog ?y = st_backlog y" "st_down ?y = (st_down y)(c := rest)"
    by (simp_all add: gateway_moves_def n)
  ultimately show ?thesis using assms(1,4) unfolding pipes_ok_def assms(3) [symmetric] by simp
qed

subsection \<open>The refinement\<close>

text \<open>The two models side by side, with nothing between them.\<close>

definition apart_step :: "Env \<Rightarrow> ServerConfig \<Rightarrow> World \<times> Server \<Rightarrow> World \<times> Server \<Rightarrow> bool" where
  "apart_step env cfg s t \<longleftrightarrow> gateway_step env (fst s) (fst t) \<and> snd t = snd s \<or> fst t = fst s \<and> server_step cfg (snd s) (snd t)"

definition server_limits :: "ServerConfig \<Rightarrow> bool" where
  "server_limits cfg \<longleftrightarrow> max_clients cfg < 2 ^ 31 \<and> max_message_size cfg < 2 ^ 32"

definition stack_inv :: "ServerConfig \<Rightarrow> Stack \<Rightarrow> bool" where
  "stack_inv cfg y \<longleftrightarrow> server_limits cfg \<and> pipes_ok y \<and> server_inv cfg (st_server y) \<and> writes_good (st_server y) \<and> frames_fit cfg (st_server y)"

lemma stack_server:
  assumes "stack_inv cfg y" and "server_step cfg (st_server y) sv'"
  shows "server_inv cfg sv' \<and> writes_good sv' \<and> frames_fit cfg sv'"
  using server_writes.inv_step [of cfg "st_server y" sv'] server_frames.inv_step [of cfg "st_server y" sv'] assms
  by (simp add: stack_inv_def server_limits_def)

lemma stack_server_step:
  assumes "stack_inv cfg y" and "server_step cfg (st_server y) sv'" and "st_server z = sv'" and "st_gateway z = st_gateway y" and "pipes_ok z"
  shows "stack_inv cfg z \<and> (apart_step env cfg)\<^sup>*\<^sup>* (st_gateway y, st_server y) (st_gateway z, st_server z)"
  using stack_server [OF assms(1,2)] assms by (auto simp: stack_inv_def apart_step_def)

lemma stack_gateway_step:
  assumes "stack_inv cfg y" and "gateway_step env (st_gateway y) (st_gateway z)" and "st_server z = st_server y" and "pipes_ok z"
  shows "stack_inv cfg z \<and> (apart_step env cfg)\<^sup>*\<^sup>* (st_gateway y, st_server y) (st_gateway z, st_server z)"
  using assms by (auto simp: stack_inv_def apart_step_def)

lemma moves_fields [simp]: "st_gateway (gateway_moves w y) = w" "st_server (gateway_moves w y) = st_server y"
  by (simp_all add: gateway_moves_def)

lemma stack_follow:
  assumes inv: "stack_inv cfg y" and step: "stack_step env cfg y z"
  shows "stack_inv cfg z \<and> (apart_step env cfg)\<^sup>*\<^sup>* (st_gateway y, st_server y) (st_gateway z, st_server z)"
proof -
  have p: "pipes_ok y" and l: "max_message_size cfg < 2 ^ 32" using inv by (simp_all add: stack_inv_def server_limits_def)
  from step show ?thesis
  proof cases
    case (gateway_acts w')
    show ?thesis
      by (rule stack_gateway_step [OF inv]) (use gateway_acts p in \<open>simp_all add: local_gateway pipes_gateway local_conns\<close>)
  next
    case (gateway_connects w c)
    have "pipes_ok (y\<lparr>st_gateway := upd_conn c on_connected w, st_backlog := st_backlog y @ [c]\<rparr>)"
      using p gateway_connects by (auto simp: pipes_ok_def pipe_ok_def conns_upd_conn on_connected_def) (auto simp: upd_conn_def)
    then show ?thesis
      by (intro stack_gateway_step [OF inv]) (use gateway_connects in \<open>simp_all add: gateway_step.connected\<close>)
  next
    case (gateway_reads w c chunk rest)
    have "pipe_ok c y" using p gateway_reads by (simp add: pipes_ok_def)
    note d = data_plain(1) [OF this gateway_reads(6,2)]
    show ?thesis
      by (rule stack_gateway_step [OF inv])
        (use gateway_reads d pipes_data [OF p gateway_reads(6,2,4), of env] in \<open>simp_all add: gateway_step.backend_data\<close>)
  next
    case (server_works sv t task ts order sv' new)
    have st: "server_step cfg (st_server y) (set_tasks t (new @ ts) sv')"
      using server_works(2-5) by (auto intro: server_step.works)
    from stack_server [OF inv this] have "writes_good (set_tasks t (new @ ts) sv')" "frames_fit cfg (set_tasks t (new @ ts) sv')" by simp_all
    note m = pipes_server [OF p this l]
    show ?thesis unfolding server_works(1) by (rule stack_server_step [OF inv st]) (use m in simp_all)
  next
    case (server_accepts sv before c after fd)
    have "pipes_ok z" using p server_accepts(1,3) by (auto simp: pipes_ok_def pipe_ok_def)
    then show ?thesis by (intro stack_server_step [OF inv]) (use server_accepts in \<open>auto intro: server_step.accepts\<close>)
  next
    case (server_accepts_other sv fd)
    have "pipes_ok z" using p server_accepts_other(1) by (auto simp: pipes_ok_def pipe_ok_def)
    then show ?thesis by (intro stack_server_step [OF inv]) (use server_accepts_other in \<open>auto intro: server_step.accepts\<close>)
  next
    case (server_reads sv fd q c rest)
    have "pipes_ok z" using p server_reads(1) by (auto simp: pipes_ok_def pipe_ok_def)
    then show ?thesis by (intro stack_server_step [OF inv]) (use server_reads in \<open>auto intro: server_step.receives\<close>)
  next
    case (server_reads_other sv fd q)
    have "pipes_ok z" using p server_reads_other(1) by (auto simp: pipes_ok_def pipe_ok_def)
    then show ?thesis by (intro stack_server_step [OF inv]) (use server_reads_other in \<open>auto intro: server_step.receives\<close>)
  next
    case (server_refuses sv fd)
    have "pipes_ok z" using p server_refuses(1) by (auto simp: pipes_ok_def pipe_ok_def)
    then show ?thesis by (intro stack_server_step [OF inv]) (use server_refuses in \<open>auto intro: server_step.too_large [simplified]\<close>)
  next
    case (server_hangs_up sv fd)
    have "pipes_ok z" using p server_hangs_up(1) by (auto simp: pipes_ok_def pipe_ok_def)
    then show ?thesis by (intro stack_server_step [OF inv]) (use server_hangs_up in \<open>auto intro: server_step.ends\<close>)
  next
    case (server_fails sv t fd q ts)
    have "pipes_ok z" using p server_fails(1) by (auto simp: pipes_ok_def pipe_ok_def)
    then show ?thesis by (intro stack_server_step [OF inv]) (use server_fails in \<open>auto intro: server_step.write_fails\<close>)
  next
    case (server_stops sv)
    have "pipes_ok z" using p server_stops(1) by (auto simp: pipes_ok_def pipe_ok_def)
    then show ?thesis by (intro stack_server_step [OF inv]) (use server_stops in \<open>auto intro: server_step.shuts_down\<close>)
  qed
qed

interpretation stack: step_refinement "\<lambda>y. stack_init y \<and> server_limits cfg" "stack_step env cfg"
  "\<lambda>(w, sv). gateway_init w \<and> sv = new_Server" "apart_step env cfg" "\<lambda>y. (st_gateway y, st_server y)" "stack_inv cfg" for env cfg
proof
  show "stack_inv cfg y \<and> (case (st_gateway y, st_server y) of (w, sv) \<Rightarrow> gateway_init w \<and> sv = new_Server)"
    if "stack_init y \<and> server_limits cfg" for y
  proof -
    have "server_inv cfg new_Server \<and> writes_good new_Server" "frames_fit cfg new_Server"
      using server_writes.inv_init [of new_Server cfg] server_frames.inv_init [of new_Server cfg] that by (simp_all add: server_limits_def)
    then show ?thesis using that by (auto simp: stack_inv_def stack_init_def pipes_ok_def gateway_init_def)
  qed
  show "stack_inv cfg z \<and> (apart_step env cfg)\<^sup>*\<^sup>* (st_gateway y, st_server y) (st_gateway z, st_server z)"
    if "stack_inv cfg y" "stack_step env cfg y z" for y z
    using that by (rule stack_follow)
qed

lemma apart_runs: "(apart_step env cfg)\<^sup>*\<^sup>* s t \<Longrightarrow> (gateway_step env)\<^sup>*\<^sup>* (fst s) (fst t) \<and> (server_step cfg)\<^sup>*\<^sup>* (snd s) (snd t)"
  by (induction rule: rtranclp_induct) (auto simp: apart_step_def intro: rtranclp.rtrancl_into_rtrancl)

lemma stack_runs:
  assumes "stack_init y0" and "server_limits cfg" and "(stack_step env cfg)\<^sup>*\<^sup>* y0 y"
  shows "gateway_init (st_gateway y0) \<and> (gateway_step env)\<^sup>*\<^sup>* (st_gateway y0) (st_gateway y) \<and> (server_step cfg)\<^sup>*\<^sup>* new_Server (st_server y)"
    and "stack_inv cfg y"
  using stack.refines [of y0 cfg env y] apart_runs [of env cfg "(st_gateway y0, st_server y0)" "(st_gateway y, st_server y)"] assms
  by (simp_all add: stack_init_def)

subsection \<open>Properties\<close>

text \<open>C36: The gateway's assumption on its backend holds.  Every run of the gateway, the server and the
  connections between them, with any other clients of the server, is a run of the gateway's model
  and a run of the server's model: what holds of their reachable states holds of the whole.  At
  any moment, what the gateway has buffered of a connection and what is still on its way are
  whole frames, each a line that the server vouches for.\<close>

theorem stack_refines_models:
  assumes "stack_init y0" and "server_limits cfg" and "(stack_step env cfg)\<^sup>*\<^sup>* y0 y" and "c < w_nconn (st_gateway y)"
  shows "(gateway_step env)\<^sup>*\<^sup>* (st_gateway y0) (st_gateway y) \<and> (server_step cfg)\<^sup>*\<^sup>* new_Server (st_server y)
    \<and> (\<exists>ps. buffer (bc_decoder (w_conn (st_gateway y) c)) @ st_down y c = framed ps
          \<and> list_all (\<lambda>p. vouched (parseBackendLine (utf8_decode p))) ps)"
proof -
  have "pipe_ok c y" using stack_runs(2) [OF assms(1-3)] assms(4) by (simp add: stack_inv_def pipes_ok_def)
  then show ?thesis
    using stack_runs(1) [OF assms(1-3)] good_parses by (fastforce simp: pipe_ok_def conns_def list_all_iff)
qed

definition demo_stack :: Stack where
  "demo_stack = \<lparr>st_gateway = demo0, st_server = new_Server, st_peer = (\<lambda>_. None), st_backlog = [], st_down = (\<lambda>_. []), st_up = (\<lambda>_. [])\<rparr>"

definition demo_stack3 :: Stack where
  "demo_stack3 = gateway_moves demo3 (gateway_moves demo2 (gateway_moves demo1 demo_stack))"

lemma demo_stack_run: "stack_init demo_stack" "(stack_step demo_env demo_config)\<^sup>*\<^sup>* demo_stack demo_stack3" "st_gateway demo_stack3 = demo3"
proof -
  show "stack_init demo_stack" by (simp add: stack_init_def demo_stack_def demo_init)
  let ?y1 = "gateway_moves demo1 demo_stack" and ?y2 = "gateway_moves demo2 (gateway_moves demo1 demo_stack)"
  have "local_step demo_env demo0 demo1" unfolding demo1_def by (rule local_step.intros(1)) (simp add: demo0_def)
  then have "stack_step demo_env demo_config demo_stack ?y1" by (intro stack_step.gateway_acts) (simp add: demo_stack_def)
  moreover have "local_step demo_env demo1 demo2"
    unfolding demo2_def by (rule local_step.intros(2)) (simp_all add: demo1 new_Session_def)
  then have "stack_step demo_env demo_config ?y1 ?y2" by (intro stack_step.gateway_acts) simp
  moreover have "local_step demo_env demo2 demo3"
    using local_step.intros(4) [of demo2 "[]" "HashJob 0 amy (js ''password'')" "[]" demo_env] by (simp add: demo2 demo1 demo3_def)
  then have "stack_step demo_env demo_config ?y2 demo_stack3" unfolding demo_stack3_def by (intro stack_step.gateway_acts) simp
  ultimately show "(stack_step demo_env demo_config)\<^sup>*\<^sup>* demo_stack demo_stack3" by auto
  show "st_gateway demo_stack3 = demo3" by (simp add: demo_stack3_def)
qed

lemma demo_limits: "server_limits demo_config"
  by (simp add: server_limits_def demo_config_def)

theorem stack_refines_models_witness:
  "(gateway_step demo_env)\<^sup>*\<^sup>* demo0 demo3
    \<and> (\<exists>ps. buffer (bc_decoder (w_conn demo3 0)) @ st_down demo_stack3 0 = framed ps \<and> list_all (\<lambda>p. vouched (parseBackendLine (utf8_decode p))) ps)"
  using stack_refines_models [OF demo_stack_run(1) demo_limits demo_stack_run(2), of 0]
  by (simp add: demo_stack_run(3) demo3(4)) (simp add: demo_stack_def)

end
