(* ===== verification/BackendServerLines.thy ===== *)
theory BackendServerLines
  imports BackendServerWire
begin

section \<open>What the C++ server reads, as the gateway wrote it\<close>

text \<open>
  The gateway writes lines of UTF-16 text, the server splits bytes.  Here the server's reading
  of a frame is shown to be the reading that \<open>handle_line\<close> specifies for the text: the
  separators are ASCII, which UTF-8 keeps apart from all other characters.
\<close>

subsection \<open>UTF-8 and its ASCII characters\<close>

lemma enc_Cons_ascii: "u < 128 \<Longrightarrow> utf8_enc (u # us) = u # utf8_enc us"
  by (cases us) (simp_all add: utf8_bytes_def high_surrogate_def low_surrogate_def)

lemma enc_sep: "u < 128 \<Longrightarrow> utf8_enc (xs @ u # ys) = utf8_enc xs @ u # utf8_enc ys"
proof (induction xs rule: utf8_enc.induct)
  case (2 v)
  then show ?case by (simp add: enc_Cons_ascii) (simp add: low_surrogate_def)
qed (simp_all add: enc_Cons_ascii)

lemma bytes_small: "x \<in> set (utf8_bytes cp) \<Longrightarrow> x < 128 \<Longrightarrow> x = cp"
  and bytes_high: "128 \<le> cp \<Longrightarrow> utf8_bytes cp \<noteq> [] \<and> 128 \<le> hd (utf8_bytes cp) \<and> 128 \<le> last (utf8_bytes cp)"
  by (auto simp: utf8_bytes_def split: if_splits)

lemma bytes_high_ex: "128 \<le> cp \<Longrightarrow> \<exists>x \<in> set (utf8_bytes cp). 128 \<le> x"
  using bytes_high [of cp] hd_in_set [of "utf8_bytes cp"] by blast

lemma astral_range: "high_surrogate u \<Longrightarrow> low_surrogate v \<Longrightarrow> 65536 \<le> astral u v \<and> astral u v < 1114112"
  by (auto simp: astral_def high_surrogate_def low_surrogate_def)

lemma enc_small: "x \<in> set (utf8_enc us) \<Longrightarrow> x < 128 \<Longrightarrow> x \<in> set us"
proof (induction us rule: utf8_enc.induct)
  case (3 u v us)
  then show ?case using astral_range [of u v] by (auto split: if_splits dest: bytes_small)
qed (auto split: if_splits dest: bytes_small)

lemma enc_ends:
  "us \<noteq> [] \<Longrightarrow> utf8_enc us \<noteq> [] \<and> (128 \<le> hd us \<longrightarrow> 128 \<le> hd (utf8_enc us)) \<and> (128 \<le> last us \<longrightarrow> 128 \<le> last (utf8_enc us))"
proof (induction us rule: utf8_enc.induct)
  case (2 u)
  then show ?case using bytes_high [of u] by (auto simp: utf8_bytes_def)
next
  case (3 u v us)
  show ?case
  proof (cases "high_surrogate u \<and> low_surrogate v")
    case True
    then have "128 \<le> astral u v" using astral_range [of u v] by simp
    with True 3 show ?thesis using bytes_high [of "astral u v"] by (cases "us = []") auto
  next
    case False
    have "utf8_bytes u \<noteq> []" by (simp add: utf8_bytes_def)
    with False 3 show ?thesis using bytes_high [of u] by auto
  qed
qed simp

lemma enc_has_high: "u \<in> set us \<Longrightarrow> 128 \<le> u \<Longrightarrow> \<exists>x \<in> set (utf8_enc us). 128 \<le> x"
proof (induction us rule: utf8_enc.induct)
  case (2 v)
  then show ?case using bytes_high_ex [of v] by auto
next
  case (3 v w us)
  show ?case
  proof (cases "high_surrogate v \<and> low_surrogate w")
    case True
    then have "128 \<le> astral v w" using astral_range [of v w] by simp
    with True show ?thesis using bytes_high_ex [of "astral v w"] by auto
  next
    case False
    with 3 show ?thesis using bytes_high_ex [of v] by (auto simp: bex_Un)
  qed
qed simp

subsection \<open>The same facts on strings\<close>

lemma unat_16: "unat (u :: code_unit) < 65536"
  using unsigned_less [of u] by simp

lemma units_16: "\<forall>u \<in> set (map unat (s :: jsstr)). u < 65536"
  using unat_16 by auto

lemma ucast_small: "unat (u :: code_unit) < 128 \<Longrightarrow> word_of_nat (unat u) = (ucast u :: 8 word)"
  by (simp add: word_unat_eq_iff)

lemma encode_Nil [simp]: "utf8_encode [] = []"
  by (simp add: utf8_encode_def)

lemma encode_Cons: "unat u < 128 \<Longrightarrow> utf8_encode (u # s) = ucast u # utf8_encode s"
  by (simp add: utf8_encode_def enc_Cons_ascii)

lemma encode_sep: "unat u < 128 \<Longrightarrow> utf8_encode (s @ u # t) = utf8_encode s @ ucast u # utf8_encode t"
  by (simp add: utf8_encode_def enc_sep)

lemma encode_bytes:
  assumes "b \<in> set (utf8_encode s)" and "unat b < 128"
  shows "\<exists>u \<in> set s. unat u = unat b"
proof -
  obtain x where x: "x \<in> set (utf8_enc (map unat s))" "b = word_of_nat x" using assms(1) by (auto simp: utf8_encode_def)
  then have "x < 256" using utf8_enc_bytes [OF units_16] by blast
  then have "unat b = x" by (simp add: x(2) unat_of_nat)
  with enc_small [OF x(1)] assms(2) show ?thesis by auto
qed

lemma encode_nonempty [simp]: "utf8_encode s = [] \<longleftrightarrow> s = []"
  using enc_ends [of "map unat s"] by (cases "s = []") (simp_all add: utf8_encode_def)

lemma word_high: "x < 256 \<Longrightarrow> 128 \<le> x \<Longrightarrow> 128 \<le> (word_of_nat x :: 8 word)"
  by (simp add: word_le_nat_alt unat_of_nat)

lemma encode_hd:
  assumes "s \<noteq> []" and "128 \<le> unat (hd s)"
  shows "128 \<le> unat (hd (utf8_encode s))"
proof -
  have e: "utf8_enc (map unat s) \<noteq> []" "128 \<le> hd (utf8_enc (map unat s))"
    using enc_ends [of "map unat s"] assms by (simp_all add: hd_map)
  then have "hd (utf8_enc (map unat s)) < 256" using utf8_enc_bytes [OF units_16] hd_in_set by blast
  with e show ?thesis by (simp add: utf8_encode_def hd_map unat_of_nat)
qed

lemma encode_last:
  assumes "s \<noteq> []" and "128 \<le> unat (last s)"
  shows "128 \<le> unat (last (utf8_encode s))"
proof -
  have e: "utf8_enc (map unat s) \<noteq> []" "128 \<le> last (utf8_enc (map unat s))"
    using enc_ends [of "map unat s"] assms by (simp_all add: last_map)
  then have "last (utf8_enc (map unat s)) < 256" using utf8_enc_bytes [OF units_16] last_in_set by blast
  with e show ?thesis by (simp add: utf8_encode_def last_map unat_of_nat)
qed

lemma wf_small: "\<forall>u \<in> set us. u < 128 \<Longrightarrow> wf_utf16 us"
  by (induction us rule: wf_utf16.induct) (auto simp: high_surrogate_def low_surrogate_def)

lemma encode_ascii_eq:
  assumes "list_all (\<lambda>c. (of_char c :: nat) < 128) x"
  shows "utf8_encode s = asc x \<longleftrightarrow> s = js x"
proof
  assume eq: "utf8_encode s = asc x"
  show "s = js x"
  proof (cases "\<forall>u \<in> set s. unat u < 128")
    case True
    then have "wf_str s" using wf_small [of "map unat s"] by (simp add: wf_str_def)
    then have "s = utf8_decode (asc x)" using utf8_roundtrip [of s] eq by simp
    then show ?thesis using decode_asc_end [OF assms] by simp
  next
    case False
    then obtain v where "v \<in> set s" "\<not> unat v < 128" by blast
    then have "unat v \<in> set (map unat s)" "128 \<le> unat v" by simp_all
    from enc_has_high [OF this] obtain y where y: "y \<in> set (utf8_enc (map unat s))" "128 \<le> y" by blast
    then have "word_of_nat y \<in> set (asc x)" "128 \<le> (word_of_nat y :: 8 word)"
      using eq utf8_enc_bytes [OF units_16] by (auto simp: utf8_encode_def intro!: word_high simp flip: eq)
    with assms show ?thesis using ascii_asc [of x] by (auto simp: ascii_def)
  qed
qed (use assms in \<open>simp add: utf8_js asc_def list_all_iff\<close>)

subsection \<open>Splitting and stripping\<close>

lemma unat_SP: "unat SP = 32"
  by (simp add: SP_def unit_def)

lemma ucast_SP: "(ucast SP :: 8 word) = BSP"
  by (simp add: SP_def unit_def BSP_def)

lemma space_encoded: "BSP \<in> set (utf8_encode s) \<Longrightarrow> SP \<in> set s"
proof -
  assume "BSP \<in> set (utf8_encode s)"
  then obtain u where "u \<in> set s" "unat u = 32" using encode_bytes [of BSP s] by (auto simp: BSP_def)
  then show ?thesis using unat_SP by (metis word_unat_eq_iff)
qed

lemma split_first_word: "BSP \<notin> set a \<Longrightarrow> split_first (a @ BSP # b) = (a, b)"
  by (auto simp: split_first_def takeWhile_append dropWhile_append)

lemma split_encoded: "split_first (utf8_encode s) = map_prod utf8_encode utf8_encode (splitFirst s)"
proof (cases "SP \<in> set s")
  case True
  then obtain a b where s: "s = a @ SP # b" "SP \<notin> set a" using split_list_first by fastforce
  then have "utf8_encode s = utf8_encode a @ BSP # utf8_encode b" by (simp add: encode_sep unat_SP ucast_SP)
  moreover have "BSP \<notin> set (utf8_encode a)" using s(2) space_encoded by blast
  ultimately show ?thesis using s by (simp add: split_first_word splitFirst_word)
next
  case False
  then have "BSP \<notin> set (utf8_encode s)" using space_encoded by blast
  then have "takeWhile (\<lambda>b. b \<noteq> BSP) (utf8_encode s) = utf8_encode s" "dropWhile (\<lambda>b. b \<noteq> BSP) (utf8_encode s) = []"
    by (auto simp: takeWhile_eq_all_conv dropWhile_eq_Nil_conv)
  then show ?thesis by (simp only: split_first_def splitFirst_single [OF False] list.sel map_prod_simp encode_Nil)
qed

lemma eol_unit: "eol u \<Longrightarrow> unat u < 128 \<and> eol_byte (ucast u)"
  by (auto simp: eol_def eol_byte_def)

lemma encode_eols: "list_all eol e \<Longrightarrow> utf8_encode (t @ e) = utf8_encode t @ map ucast e"
proof (induction e rule: rev_induct)
  case (snoc u e)
  then show ?case using encode_sep [of u "t @ e" "[]"] eol_unit [of u] by simp
qed simp

lemma strip_line_eols: "list_all eol_byte e \<Longrightarrow> strip_line (t @ e) = strip_line t"
  using dropWhile_append2 [of "rev e" eol_byte "rev t"] by (simp add: strip_line_def list_all_iff)

lemma strip_line_id: "t = [] \<or> \<not> eol_byte (last t) \<Longrightarrow> strip_line t = t"
  by (cases t rule: rev_cases) (auto simp: strip_line_def)

lemma strip_split: "\<exists>e. s = strip_eol s @ e \<and> list_all eol e \<and> (strip_eol s = [] \<or> \<not> eol (last (strip_eol s)))"
proof -
  have "s = strip_eol s @ rev (takeWhile eol (rev s))"
    unfolding strip_eol_def by (metis rev_append rev_rev_ident takeWhile_dropWhile_id)
  moreover have "list_all eol (rev (takeWhile eol (rev s)))"
    by (auto simp: list_all_iff dest: set_takeWhileD)
  moreover have "strip_eol s = [] \<or> \<not> eol (last (strip_eol s))"
    using hd_dropWhile [of eol "rev s"] by (auto simp: strip_eol_def last_rev)
  ultimately show ?thesis by blast
qed

lemma last_not_eol:
  assumes "t \<noteq> []" and "\<not> eol (last t)"
  shows "\<not> eol_byte (last (utf8_encode t))"
proof (cases "unat (last t) < 128")
  case True
  have "utf8_encode (butlast t @ [last t]) = utf8_encode (butlast t) @ [ucast (last t)]"
    using encode_sep [OF True, of "butlast t" "[]"] by simp
  then have "last (utf8_encode t) = ucast (last t)" using assms(1) by simp
  moreover have "unat (ucast (last t) :: 8 word) = unat (last t)" using True by (simp add: unsigned_ucast_eq take_bit_nat_eq_self)
  ultimately show ?thesis using assms(2) by (auto simp: eol_def eol_byte_def word_unat_eq_iff)
next
  case False
  then have "128 \<le> unat (last (utf8_encode t))" using encode_last [OF assms(1)] by simp
  then show ?thesis by (auto simp: eol_byte_def)
qed

lemma strip_encoded: "strip_line (utf8_encode s) = utf8_encode (strip_eol s)"
proof -
  obtain e where e: "s = strip_eol s @ e" "list_all eol e" "strip_eol s = [] \<or> \<not> eol (last (strip_eol s))"
    using strip_split by blast
  have "list_all eol_byte (map ucast e)" using e(2) by (auto simp: list_all_iff dest: eol_unit)
  then have "strip_line (utf8_encode (strip_eol s @ e)) = strip_line (utf8_encode (strip_eol s))"
    by (simp add: encode_eols [OF e(2)] strip_line_eols)
  also have "\<dots> = utf8_encode (strip_eol s)"
    using e(3) last_not_eol by (intro strip_line_id) auto
  finally show ?thesis using e(1) by simp
qed

lemma hd_slash: "s \<noteq> [] \<Longrightarrow> hd (utf8_encode s) = 47 \<longleftrightarrow> hd s = unit (CHR ''/'')"
proof (cases s)
  case (Cons u t)
  show ?thesis
  proof (cases "unat u < 128")
    case True
    then have "unat (ucast u :: 8 word) = unat u" by (simp add: unsigned_ucast_eq take_bit_nat_eq_self)
    with True Cons show ?thesis by (simp add: encode_Cons word_unat_eq_iff unit_def)
  next
    case False
    with Cons encode_hd [of s] show ?thesis by (auto simp: unit_def)
  qed
qed simp

subsection \<open>The refinement\<close>

text \<open>What the server does with a line, given how the specification reads it.\<close>

fun obey :: "nat \<Rightarrow> backend_command \<Rightarrow> Server \<Rightarrow> Server \<times> Task list \<times> bool" where
  "obey fd CmdBlank sv = (sv, [], True)"
| "obey fd (CmdNick args) sv = (let (sv', ts) = handle_nick fd (utf8_encode args) sv in (sv', ts, True))"
| "obey fd (CmdMsg args) sv = (let (sv', ts) = handle_msg fd (utf8_encode args) sv in (sv', ts, True))"
| "obey fd CmdList sv = (let (sv', ts) = handle_list fd sv in (sv', ts, True))"
| "obey fd CmdExit sv = (sv, [], False)"
| "obey fd (CmdBad cmd) sv = (sv, send_error fd ''BAD_CMD'' (asc ''Unknown command '' @ [39] @ utf8_encode cmd @ [39]), True)"
| "obey fd (CmdChat text) sv = (sv, (case find_client fd sv of None \<Rightarrow> []
     | Some rec \<Rightarrow> [Broadcast (asc ''MSG '' @ cr_nickname rec @ asc '' '' @ utf8_encode text) (Some fd)]), True)"

lemma serve_line_obey: "serve_line fd (utf8_encode s) sv = obey fd (handle_line s) sv"
proof (cases "strip_eol s")
  case Nil
  then show ?thesis by (simp add: serve_line_def handle_line_def strip_encoded Let_def)
next
  case (Cons u t)
  obtain cmd rest where c: "splitFirst (u # t) = (cmd, rest)" by (cases "splitFirst (u # t)")
  have cmds: "utf8_encode cmd = asc ''/nick'' \<longleftrightarrow> cmd = js ''/nick''" "utf8_encode cmd = asc ''/msg'' \<longleftrightarrow> cmd = js ''/msg''"
    "utf8_encode cmd = asc ''/list'' \<longleftrightarrow> cmd = js ''/list''" "utf8_encode cmd = asc ''/exit'' \<longleftrightarrow> cmd = js ''/exit''"
    by (rule encode_ascii_eq; simp)+
  have h: "hd (utf8_encode (u # t)) = 47 \<longleftrightarrow> u = unit (CHR ''/'')" using hd_slash [of "u # t"] by simp
  have n: "utf8_encode (u # t) \<noteq> []" by simp
  show ?thesis
  proof (cases "u = unit (CHR ''/'')")
    case True
    have sv: "serve_line fd (utf8_encode s) sv =
        (if cmd = js ''/nick'' then (let (sv', ts) = handle_nick fd (utf8_encode rest) sv in (sv', ts, True))
         else if cmd = js ''/msg'' then (let (sv', ts) = handle_msg fd (utf8_encode rest) sv in (sv', ts, True))
         else if cmd = js ''/list'' then (let (sv', ts) = handle_list fd sv in (sv', ts, True))
         else if cmd = js ''/exit'' then (sv, [], False)
         else (sv, send_error fd ''BAD_CMD'' (asc ''Unknown command '' @ [39] @ utf8_encode cmd @ [39]), True))"
      using h True unfolding serve_line_def strip_encoded Cons split_encoded c Let_def map_prod_simp prod.case cmds by simp
    have "handle_line s = (if cmd = js ''/nick'' then CmdNick rest else if cmd = js ''/msg'' then CmdMsg rest
         else if cmd = js ''/list'' then CmdList else if cmd = js ''/exit'' then CmdExit else CmdBad cmd)"
      using True c by (simp add: handle_line_def Cons)
    with sv show ?thesis by (simp only: obey.simps split: if_split) simp
  next
    case False
    with h n show ?thesis
      by (simp add: serve_line_def handle_line_def strip_encoded Cons Let_def split: option.split)
  qed
qed

text \<open>C27: The server reads the bytes of a line as the specification reads its text, for every text,
  with characters outside ASCII and lone surrogates included: the handler it runs, the
  arguments it passes and the lines it ignores are those of \<open>handle_line\<close>.\<close>

theorem server_reads_lines: "serve_line fd (utf8_encode s) sv = obey fd (handle_line s) sv"
  by (rule serve_line_obey)

end
