(* ===== verification/ChatState.thy ===== *)
theory ChatState
  imports MessageStore
begin

section \<open>The browser's chat state (frontend/context/chatState.ts, frontend/types/chat.ts)\<close>

text \<open>
  The pure reducer of the frontend.  A record used as a dictionary is an association list in
  insertion order (ids are not integers, so JavaScript keeps that order); a \<open>Date\<close> is
  represented by the text it is made from.  \<open>createId\<close> and \<open>new Date()\<close>, which the reducer
  calls for an error message, are the argument \<open>fresh\<close> (an id and a time).
\<close>

subsection \<open>types/chat.ts\<close>

datatype ChatMessageKind = CChat | CSystem | CError

record User =
  user_id :: jsstr
  user_nickname :: jsstr
  user_presence :: Presence

record Message =
  msg_id :: jsstr
  msg_kind :: ChatMessageKind
  msg_senderId :: "jsstr option"
  msg_sender :: "jsstr option"
  msg_content :: jsstr
  msg_timestamp :: jsstr
  msg_isOwn :: bool

record Conversation =
  conv_id :: jsstr
  conv_type :: ConversationKind
  conv_title :: jsstr
  conv_peerId :: "jsstr option"
  conv_memberIds :: "jsstr list option"
  conv_messages :: "Message list"
  conv_unreadCount :: nat

definition chat_directConversationId :: "jsstr \<Rightarrow> jsstr \<Rightarrow> jsstr" where
  "chat_directConversationId a b = js ''direct:'' @ join (js '':'') (sort [a, b])"

lemma chat_directConversationId_gateway: "chat_directConversationId = directConversationId"
  by (simp add: fun_eq_iff chat_directConversationId_def directConversationId_def)

subsection \<open>State and actions\<close>

datatype ConnectionStatus = Idle | StConnecting | Connected | Reconnecting | Disconnected | StFailed

record ChatState =
  connectionStatus :: ConnectionStatus
  gatewayUrl :: jsstr
  userId :: "jsstr option"
  nick :: jsstr
  presence :: Presence
  users :: "(jsstr \<times> User) list"
  conversations :: "(jsstr \<times> Conversation) list"
  activeConversationId :: jsstr
  sidebarOpen :: bool
  nicknameModalOpen :: bool
  newGroupModalOpen :: bool
  pendingGroupCreation :: bool
  authenticating :: bool
  authError :: "jsstr option"
  lastError :: "jsstr option"
  hasConnectedOnce :: bool

datatype ChatAction =
    SET_STATUS ConnectionStatus
  | READY jsstr jsstr "UserSummary list" "ConversationSummary list" "MessageSummary list"
  | USER_UPDATE UserSummary
  | USER_OFFLINE jsstr
  | CONVERSATION_CREATED ConversationSummary
  | MESSAGE_RECEIVED MessageSummary
  | ERROR_MESSAGE jsstr jsstr "jsstr option"
  | SET_ACTIVE_CONVERSATION jsstr
  | SET_SIDEBAR_OPEN bool
  | SET_NICKNAME_MODAL bool
  | SET_NEW_GROUP_MODAL bool
  | MARK_PENDING_GROUP_CREATION
  | SET_ERROR "jsstr option"
  | SET_AUTHENTICATING bool
  | AUTH_ERROR jsstr
  | LOGGED_OUT

definition createPublicConversation :: "jsstr list \<Rightarrow> Conversation" where
  "createPublicConversation memberIds =
     \<lparr>conv_id = PUBLIC_CONVERSATION_ID, conv_type = KPublic, conv_title = js ''Public Chat'', conv_peerId = None,
      conv_memberIds = Some memberIds, conv_messages = [], conv_unreadCount = 0\<rparr>"

definition conversationFromSummary :: "ConversationSummary \<Rightarrow> jsstr \<Rightarrow> Conversation" where
  "conversationFromSummary summary selfId =
     (case cs_kind summary of
        KDirect \<Rightarrow> \<lparr>conv_id = cs_id summary, conv_type = KDirect, conv_title = cs_title summary,
            conv_peerId = find (\<lambda>i. i \<noteq> selfId) (cs_memberIds summary), conv_memberIds = None,
            conv_messages = [], conv_unreadCount = 0\<rparr>
      | KGroup \<Rightarrow> \<lparr>conv_id = cs_id summary, conv_type = KGroup, conv_title = cs_title summary,
            conv_peerId = None, conv_memberIds = Some (cs_memberIds summary),
            conv_messages = [], conv_unreadCount = 0\<rparr>
      | KPublic \<Rightarrow> createPublicConversation (cs_memberIds summary))"

fun chat_kind :: "MessageKind \<Rightarrow> ChatMessageKind" where
  "chat_kind Chat = CChat"
| "chat_kind System = CSystem"

definition messageFromSummary :: "MessageSummary \<Rightarrow> jsstr \<Rightarrow> Message" where
  "messageFromSummary m selfId =
     \<lparr>msg_id = ms_id m, msg_kind = chat_kind (ms_kind m), msg_senderId = ms_senderId m,
      msg_sender = ms_senderUsername m, msg_content = ms_text m, msg_timestamp = ms_timestamp m,
      msg_isOwn = (ms_senderId m = Some selfId)\<rparr>"

definition user_of :: "UserSummary \<Rightarrow> User" where
  "user_of u = \<lparr>user_id = us_id u, user_nickname = us_username u, user_presence = us_presence u\<rparr>"

subsection \<open>The reducer\<close>

definition add_message :: "Message \<Rightarrow> Conversation \<Rightarrow> Conversation" where
  "add_message m c = c\<lparr>conv_messages := conv_messages c @ [m]\<rparr>"

text \<open>The loops of the READY case: users, conversations, messages.\<close>

definition ready_users :: "UserSummary list \<Rightarrow> (jsstr \<times> User) list" where
  "ready_users us = fold (\<lambda>u m. AList.update (us_id u) (user_of u) m) us []"

definition ready_conversations :: "jsstr \<Rightarrow> UserSummary list \<Rightarrow> ConversationSummary list \<Rightarrow> (jsstr \<times> Conversation) list" where
  "ready_conversations selfId us cs =
     fold (\<lambda>c m. if cs_id c = PUBLIC_CONVERSATION_ID then m
                 else AList.update (cs_id c) (conversationFromSummary c selfId) m)
       cs [(PUBLIC_CONVERSATION_ID, createPublicConversation (map us_id us))]"

definition ready_message :: "jsstr \<Rightarrow> MessageSummary \<Rightarrow> (jsstr \<times> Conversation) list \<Rightarrow> (jsstr \<times> Conversation) list" where
  "ready_message selfId m convs =
     (case map_of convs (ms_conversationId m) of
        None \<Rightarrow> convs
      | Some conv \<Rightarrow> AList.update (ms_conversationId m) (add_message (messageFromSummary m selfId) conv) convs)"

definition reduce_READY :: "jsstr \<Rightarrow> jsstr \<Rightarrow> UserSummary list \<Rightarrow> ConversationSummary list \<Rightarrow> MessageSummary list \<Rightarrow> ChatState \<Rightarrow> ChatState" where
  "reduce_READY selfId username us cs ms state =
     state\<lparr>userId := Some selfId, nick := username, presence := Online, users := ready_users us,
           conversations := fold (ready_message selfId) ms (ready_conversations selfId us cs),
           activeConversationId := PUBLIC_CONVERSATION_ID, authenticating := False, authError := None,
           hasConnectedOnce := True\<rparr>"

definition map_public :: "(jsstr list \<Rightarrow> jsstr list) \<Rightarrow> (jsstr \<times> Conversation) list \<Rightarrow> (jsstr \<times> Conversation) list" where
  "map_public f convs =
     (case map_of convs PUBLIC_CONVERSATION_ID of
        None \<Rightarrow> convs
      | Some p \<Rightarrow> AList.update PUBLIC_CONVERSATION_ID
          (p\<lparr>conv_memberIds := Some (f (case conv_memberIds p of None \<Rightarrow> [] | Some ids \<Rightarrow> ids))\<rparr>) convs)"

definition reduce_USER_UPDATE :: "UserSummary \<Rightarrow> ChatState \<Rightarrow> ChatState" where
  "reduce_USER_UPDATE u state =
     (let isSelf = (userId state = Some (us_id u)) in
      state\<lparr>users := AList.update (us_id u) (user_of u) (users state),
            nick := (if isSelf then us_username u else nick state),
            presence := (if isSelf then us_presence u else presence state),
            conversations := map_public (\<lambda>ids. if us_id u \<in> set ids then ids else ids @ [us_id u]) (conversations state)\<rparr>)"

definition reduce_USER_OFFLINE :: "jsstr \<Rightarrow> ChatState \<Rightarrow> ChatState" where
  "reduce_USER_OFFLINE i state =
     state\<lparr>users := AList.delete i (users state),
           conversations := map_public (filter (\<lambda>j. j \<noteq> i)) (conversations state)\<rparr>"

text \<open>\<open>if (!state.userId)\<close>: the empty id counts as no id.\<close>

definition reduce_CONVERSATION_CREATED :: "ConversationSummary \<Rightarrow> ChatState \<Rightarrow> ChatState" where
  "reduce_CONVERSATION_CREATED c state =
     (case userId state of
        None \<Rightarrow> state
      | Some me \<Rightarrow>
          if me = [] then state
          else
            (let existing = map_of (conversations state) (cs_id c);
                 incoming = conversationFromSummary c me;
                 merged = (case existing of None \<Rightarrow> incoming
                   | Some e \<Rightarrow> incoming\<lparr>conv_messages := conv_messages e, conv_unreadCount := conv_unreadCount e\<rparr>);
                 isNewGroupIJustCreated = (pendingGroupCreation state \<and> cs_kind c = KGroup
                    \<and> me \<in> set (cs_memberIds c) \<and> existing = None)
             in state\<lparr>conversations := AList.update (conv_id merged) merged (conversations state),
                      activeConversationId := (if isNewGroupIJustCreated then conv_id merged else activeConversationId state),
                      pendingGroupCreation := (if isNewGroupIJustCreated then False else pendingGroupCreation state),
                      newGroupModalOpen := (if isNewGroupIJustCreated then False else newGroupModalOpen state)\<rparr>))"

definition conversation_for :: "MessageSummary \<Rightarrow> ChatState \<Rightarrow> Conversation" where
  "conversation_for m state =
     (case map_of (conversations state) (ms_conversationId m) of
        Some c \<Rightarrow> c
      | None \<Rightarrow> if ms_conversationId m = PUBLIC_CONVERSATION_ID then createPublicConversation []
                else \<lparr>conv_id = ms_conversationId m, conv_type = KDirect,
                      conv_title = (case ms_senderUsername m of None \<Rightarrow> js ''Unknown'' | Some n \<Rightarrow> n),
                      conv_peerId = None, conv_memberIds = None, conv_messages = [], conv_unreadCount = 0\<rparr>)"

definition reduce_MESSAGE_RECEIVED :: "MessageSummary \<Rightarrow> ChatState \<Rightarrow> ChatState" where
  "reduce_MESSAGE_RECEIVED m state =
     (let conversation = conversation_for m state;
          message = messageFromSummary m (case userId state of None \<Rightarrow> [] | Some i \<Rightarrow> i);
          isActive = (activeConversationId state = conv_id conversation)
      in state\<lparr>conversations := AList.update (conv_id conversation)
            (conversation\<lparr>conv_messages := conv_messages conversation @ [message],
                          conv_unreadCount := (if isActive then 0 else conv_unreadCount conversation + 1)\<rparr>)
            (conversations state)\<rparr>)"

definition reduce_ERROR_MESSAGE :: "jsstr \<times> jsstr \<Rightarrow> jsstr \<Rightarrow> jsstr option \<Rightarrow> ChatState \<Rightarrow> ChatState" where
  "reduce_ERROR_MESSAGE fresh txt conversation state =
     (let cid = (case conversation of None \<Rightarrow> activeConversationId state | Some i \<Rightarrow> i);
          message = \<lparr>msg_id = fst fresh, msg_kind = CError, msg_senderId = None, msg_sender = None,
                     msg_content = txt, msg_timestamp = snd fresh, msg_isOwn = False\<rparr>
      in case map_of (conversations state) cid of
           None \<Rightarrow> state\<lparr>lastError := Some txt\<rparr>
         | Some c \<Rightarrow> state\<lparr>lastError := Some txt,
                            conversations := AList.update cid (add_message message c) (conversations state)\<rparr>)"

definition reduce_SET_ACTIVE :: "jsstr \<Rightarrow> ChatState \<Rightarrow> ChatState" where
  "reduce_SET_ACTIVE i state =
     (case map_of (conversations state) i of
        None \<Rightarrow> state
      | Some c \<Rightarrow> state\<lparr>activeConversationId := i,
                         conversations := AList.update i (c\<lparr>conv_unreadCount := 0\<rparr>) (conversations state),
                         sidebarOpen := False\<rparr>)"

definition reduce_LOGGED_OUT :: "ChatState \<Rightarrow> ChatState" where
  "reduce_LOGGED_OUT state =
     state\<lparr>userId := None, nick := [], presence := Online, users := [],
           conversations := [(PUBLIC_CONVERSATION_ID, createPublicConversation [])],
           activeConversationId := PUBLIC_CONVERSATION_ID, authenticating := False, lastError := None\<rparr>"

fun chatReducer :: "jsstr \<times> jsstr \<Rightarrow> ChatState \<Rightarrow> ChatAction \<Rightarrow> ChatState" where
  "chatReducer fresh state (SET_STATUS s) = state\<lparr>connectionStatus := s\<rparr>"
| "chatReducer fresh state (READY i n us cs ms) = reduce_READY i n us cs ms state"
| "chatReducer fresh state (USER_UPDATE u) = reduce_USER_UPDATE u state"
| "chatReducer fresh state (USER_OFFLINE i) = reduce_USER_OFFLINE i state"
| "chatReducer fresh state (CONVERSATION_CREATED c) = reduce_CONVERSATION_CREATED c state"
| "chatReducer fresh state (MESSAGE_RECEIVED m) = reduce_MESSAGE_RECEIVED m state"
| "chatReducer fresh state (ERROR_MESSAGE code txt cid) = reduce_ERROR_MESSAGE fresh txt cid state"
| "chatReducer fresh state (SET_ACTIVE_CONVERSATION i) = reduce_SET_ACTIVE i state"
| "chatReducer fresh state (SET_SIDEBAR_OPEN b) = state\<lparr>sidebarOpen := b\<rparr>"
| "chatReducer fresh state (SET_NICKNAME_MODAL b) = state\<lparr>nicknameModalOpen := b\<rparr>"
| "chatReducer fresh state (SET_NEW_GROUP_MODAL b) = state\<lparr>newGroupModalOpen := b\<rparr>"
| "chatReducer fresh state MARK_PENDING_GROUP_CREATION = state\<lparr>pendingGroupCreation := True\<rparr>"
| "chatReducer fresh state (SET_ERROR e) = state\<lparr>lastError := e\<rparr>"
| "chatReducer fresh state (SET_AUTHENTICATING b) =
     state\<lparr>authenticating := b, authError := (if b then None else authError state)\<rparr>"
| "chatReducer fresh state (AUTH_ERROR e) = state\<lparr>authenticating := False, authError := Some e\<rparr>"
| "chatReducer fresh state LOGGED_OUT = reduce_LOGGED_OUT state"

definition createInitialState :: "jsstr \<Rightarrow> ChatState" where
  "createInitialState url =
     \<lparr>connectionStatus = Idle, gatewayUrl = url, userId = None, nick = [], presence = Online, users = [],
      conversations = [(PUBLIC_CONVERSATION_ID, createPublicConversation [])],
      activeConversationId = PUBLIC_CONVERSATION_ID, sidebarOpen = False, nicknameModalOpen = False,
      newGroupModalOpen = False, pendingGroupCreation = False, authenticating = False, authError = None,
      lastError = None, hasConnectedOnce = False\<rparr>"

subsection \<open>The invariant of the state\<close>

text \<open>Conversations and users are stored under their ids, the public conversation exists and its
  members are the users, and the active conversation exists and has nothing unread.\<close>

definition chat_inv :: "ChatState \<Rightarrow> bool" where
  "chat_inv s \<longleftrightarrow> (\<forall>k c. map_of (conversations s) k = Some c \<longrightarrow> conv_id c = k)
     \<and> (\<forall>k u. map_of (users s) k = Some u \<longrightarrow> user_id u = k)
     \<and> (\<exists>p ids. map_of (conversations s) PUBLIC_CONVERSATION_ID = Some p \<and> conv_memberIds p = Some ids
              \<and> set ids = dom (map_of (users s)))
     \<and> (\<exists>c. map_of (conversations s) (activeConversationId s) = Some c \<and> conv_unreadCount c = 0)"

text \<open>What the gateway announces: new conversations are direct or group conversations.\<close>

fun action_ok :: "ChatAction \<Rightarrow> bool" where
  "action_ok (CONVERSATION_CREATED c) \<longleftrightarrow> cs_kind c \<noteq> KPublic \<and> cs_id c \<noteq> PUBLIC_CONVERSATION_ID"
| "action_ok (READY _ _ _ cs _) \<longleftrightarrow> (\<forall>c \<in> set cs. cs_id c \<noteq> PUBLIC_CONVERSATION_ID \<longrightarrow> cs_kind c \<noteq> KPublic)"
| "action_ok _ \<longleftrightarrow> True"

lemma from_summary_fields: "cs_kind c \<noteq> KPublic \<Longrightarrow> conv_id (conversationFromSummary c me) = cs_id c"
  "conv_messages (conversationFromSummary c me) = []" "conv_unreadCount (conversationFromSummary c me) = 0"
  by (cases "cs_kind c"; simp add: conversationFromSummary_def createPublicConversation_def)+

lemma public_fields [simp]: "conv_id (createPublicConversation ids) = PUBLIC_CONVERSATION_ID"
  "conv_memberIds (createPublicConversation ids) = Some ids" "conv_messages (createPublicConversation ids) = []"
  "conv_unreadCount (createPublicConversation ids) = 0"
  by (simp_all add: createPublicConversation_def)

lemma add_message_fields [simp]: "conv_id (add_message m c) = conv_id c" "conv_memberIds (add_message m c) = conv_memberIds c"
  "conv_messages (add_message m c) = conv_messages c @ [m]" "conv_unreadCount (add_message m c) = conv_unreadCount c"
  "conv_type (add_message m c) = conv_type c"
  by (simp_all add: add_message_def)

lemma ready_users_get: "map_of (ready_users us) k = map_option user_of (find (\<lambda>u. us_id u = k) (rev us))"
proof (induction us rule: rev_induct)
  case (snoc u us)
  then show ?case by (simp add: ready_users_def alist.get_put)
qed (simp add: ready_users_def)

lemma ready_conversations_get:
  "map_of (ready_conversations me us cs) k =
     (if k = PUBLIC_CONVERSATION_ID then Some (createPublicConversation (map us_id us))
      else map_option (\<lambda>c. conversationFromSummary c me) (find (\<lambda>c. cs_id c = k) (rev cs)))"
proof (induction cs rule: rev_induct)
  case (snoc c cs)
  then show ?case by (auto simp: ready_conversations_def alist.get_put)
qed (simp add: ready_conversations_def)

lemma ready_message_get:
  "map_of (ready_message me m convs) k =
     (if k = ms_conversationId m then map_option (add_message (messageFromSummary m me)) (map_of convs k)
      else map_of convs k)"
  by (auto simp: ready_message_def alist.get_put split: option.split)

lemma ready_messages_get:
  "map_of (fold (ready_message me) ms convs) k =
     map_option (fold (\<lambda>m. add_message (messageFromSummary m me)) (filter (\<lambda>m. ms_conversationId m = k) ms)) (map_of convs k)"
proof (induction ms arbitrary: convs)
  case (Cons m ms)
  then show ?case by (simp add: ready_message_get option.map_comp comp_def)
qed (simp add: option.map_id option.map_ident)

lemma add_messages_fields:
  "conv_id (fold (\<lambda>m. add_message (f m)) ms c) = conv_id c"
  "conv_memberIds (fold (\<lambda>m. add_message (f m)) ms c) = conv_memberIds c"
  "conv_messages (fold (\<lambda>m. add_message (f m)) ms c) = conv_messages c @ map f ms"
  "conv_unreadCount (fold (\<lambda>m. add_message (f m)) ms c) = conv_unreadCount c"
  by (induction ms arbitrary: c) simp_all

lemma map_public_get:
  "map_of (map_public f convs) k =
     (if k = PUBLIC_CONVERSATION_ID
      then map_option (\<lambda>p. p\<lparr>conv_memberIds := Some (f (case conv_memberIds p of None \<Rightarrow> [] | Some ids \<Rightarrow> ids))\<rparr>) (map_of convs k)
      else map_of convs k)"
  by (auto simp: map_public_def alist.get_put split: option.split)

lemma ready_users_dom: "dom (map_of (ready_users us)) = set (map us_id us)"
proof (induction us rule: rev_induct)
  case (snoc u us)
  have "ready_users (us @ [u]) = AList.update (us_id u) (user_of u) (ready_users us)"
    by (simp add: ready_users_def)
  then show ?case by (simp only: alist.get_put dom_fun_upd snoc.IH) simp
qed (simp add: ready_users_def)

lemma ready_users_id: "map_of (ready_users us) k = Some u \<Longrightarrow> user_id u = k"
  by (auto simp: ready_users_get user_of_def dest!: find_Some_set)

lemma ready_conversation_id:
  assumes "action_ok (READY me n us cs ms)" and "map_of (ready_conversations me us cs) k = Some c"
  shows "conv_id c = k \<and> conv_messages c = [] \<and> conv_unreadCount c = 0"
proof (cases "k = PUBLIC_CONVERSATION_ID")
  case True
  with assms(2) show ?thesis by (auto simp: ready_conversations_get)
next
  case False
  with assms(2) obtain d where "find (\<lambda>c. cs_id c = k) (rev cs) = Some d" and c: "c = conversationFromSummary d me"
    by (auto simp: ready_conversations_get)
  then have d: "d \<in> set cs" "cs_id d = k" using find_Some_set by fastforce+
  with assms(1) False have "cs_kind d \<noteq> KPublic" by auto
  then show ?thesis by (simp add: c from_summary_fields d)
qed

lemma chat_inv_READY:
  assumes "action_ok (READY me n us cs ms)"
  shows "chat_inv (reduce_READY me n us cs ms s)"
proof -
  let ?s = "reduce_READY me n us cs ms s"
  define conv where "conv k = fold (\<lambda>m. add_message (messageFromSummary m me)) (filter (\<lambda>m. ms_conversationId m = k) ms)" for k
  have get: "map_of (conversations ?s) k = map_option (conv k) (map_of (ready_conversations me us cs) k)" for k
    by (simp add: reduce_READY_def ready_messages_get conv_def)
  have f: "conv_id (conv k c) = conv_id c" "conv_memberIds (conv k c) = conv_memberIds c" "conv_unreadCount (conv k c) = conv_unreadCount c" for k c
    by (simp_all add: conv_def add_messages_fields)
  have pub: "map_of (conversations ?s) PUBLIC_CONVERSATION_ID
      = Some (conv PUBLIC_CONVERSATION_ID (createPublicConversation (map us_id us)))"
    by (simp add: get ready_conversations_get)
  have "conv_id c = k" if "map_of (conversations ?s) k = Some c" for k c
    using that ready_conversation_id [OF assms] by (auto simp: get f)
  moreover have "users ?s = ready_users us" "activeConversationId ?s = PUBLIC_CONVERSATION_ID"
    by (simp_all add: reduce_READY_def)
  ultimately show ?thesis
    unfolding chat_inv_def using ready_users_id by (simp add: pub f ready_users_dom)
qed

lemma chat_inv_public:
  assumes "chat_inv s" and c: "conversations s' = map_public f (conversations s)"
    and a: "activeConversationId s' = activeConversationId s"
    and u: "\<And>k u. map_of (users s') k = Some u \<Longrightarrow> user_id u = k"
    and f: "\<And>ids. set ids = dom (map_of (users s)) \<Longrightarrow> set (f ids) = dom (map_of (users s'))"
  shows "chat_inv s'"
proof -
  obtain p ids ac where p: "map_of (conversations s) PUBLIC_CONVERSATION_ID = Some p" "conv_memberIds p = Some ids"
      "set ids = dom (map_of (users s))"
    and ac: "map_of (conversations s) (activeConversationId s) = Some ac" "conv_unreadCount ac = 0"
    and k: "\<And>k c. map_of (conversations s) k = Some c \<Longrightarrow> conv_id c = k"
    using assms(1) unfolding chat_inv_def by blast
  have get: "map_of (conversations s') k =
      (if k = PUBLIC_CONVERSATION_ID then Some (p\<lparr>conv_memberIds := Some (f ids)\<rparr>) else map_of (conversations s) k)" for k
    by (simp add: c map_public_get p)
  show ?thesis
    unfolding chat_inv_def get a
    using k u p ac f [OF p(3)] by (auto split: if_splits)
qed

text \<open>Replacing one conversation, whose id is its key, with the public members unchanged.\<close>

lemma chat_inv_put:
  assumes "chat_inv s" and c: "conversations s' = AList.update k c (conversations s)" and "users s' = users s"
    and "conv_id c = k"
    and pub: "\<And>p. k = PUBLIC_CONVERSATION_ID \<Longrightarrow> map_of (conversations s) PUBLIC_CONVERSATION_ID = Some p \<Longrightarrow> conv_memberIds c = conv_memberIds p"
    and act: "activeConversationId s' = k \<and> conv_unreadCount c = 0 \<or>
      activeConversationId s' = activeConversationId s \<and>
        (activeConversationId s = k \<longrightarrow> conv_unreadCount c = 0)"
  shows "chat_inv s'"
proof -
  obtain p ids ac where p: "map_of (conversations s) PUBLIC_CONVERSATION_ID = Some p" "conv_memberIds p = Some ids"
      "set ids = dom (map_of (users s))"
    and ac: "map_of (conversations s) (activeConversationId s) = Some ac" "conv_unreadCount ac = 0"
    and k: "\<And>k c. map_of (conversations s) k = Some c \<Longrightarrow> conv_id c = k"
    and u: "\<And>k u. map_of (users s) k = Some u \<Longrightarrow> user_id u = k"
    using assms(1) unfolding chat_inv_def by blast
  have get: "map_of (conversations s') i = (if i = k then Some c else map_of (conversations s) i)" for i
    by (simp add: c alist.get_put)
  show ?thesis
    unfolding chat_inv_def get assms(3)
    using k u p ac act assms(4) pub [OF _ p(1)] by (auto split: if_splits)
qed

lemma chat_inv_step:
  assumes "chat_inv s" and "action_ok a"
  shows "chat_inv (chatReducer fresh s a)"
proof (cases a)
  case (READY i n us cs ms)
  with assms(2) show ?thesis by (simp add: chat_inv_READY)
next
  case (USER_UPDATE u)
  have "map_of (users s) k = Some v \<Longrightarrow> user_id v = k" for k v using assms(1) by (simp add: chat_inv_def)
  then show ?thesis
    unfolding USER_UPDATE chatReducer.simps
    by (intro chat_inv_public [OF assms(1)])
      (auto simp: reduce_USER_UPDATE_def Let_def alist.get_put user_of_def split: if_splits)
next
  case (USER_OFFLINE i)
  have "map_of (users s) k = Some v \<Longrightarrow> user_id v = k" for k v using assms(1) by (simp add: chat_inv_def)
  then show ?thesis
    unfolding USER_OFFLINE chatReducer.simps
    by (intro chat_inv_public [OF assms(1)])
      (auto simp: reduce_USER_OFFLINE_def alist.get_remove split: if_splits)
next
  case (CONVERSATION_CREATED c)
  show ?thesis
  proof (cases "userId s = None \<or> userId s = Some []")
    case True
    with assms(1) show ?thesis by (auto simp: CONVERSATION_CREATED reduce_CONVERSATION_CREATED_def)
  next
    case False
    then obtain me where me: "userId s = Some me" "me \<noteq> []" by (cases "userId s") auto
    have c: "cs_kind c \<noteq> KPublic" "cs_id c \<noteq> PUBLIC_CONVERSATION_ID"
      using assms(2) by (simp_all add: CONVERSATION_CREATED)
    let ?new = "conversationFromSummary c me"
    define merged where "merged = (case map_of (conversations s) (cs_id c) of None \<Rightarrow> ?new
       | Some e \<Rightarrow> ?new\<lparr>conv_messages := conv_messages e, conv_unreadCount := conv_unreadCount e\<rparr>)"
    have i: "conv_id merged = cs_id c" using c by (simp add: merged_def from_summary_fields split: option.split)
    have u: "activeConversationId s = cs_id c \<longrightarrow> conv_unreadCount merged = 0"
      "map_of (conversations s) (cs_id c) = None \<longrightarrow> conv_unreadCount merged = 0"
      using assms(1) by (auto simp: chat_inv_def merged_def from_summary_fields)
    let ?s = "chatReducer fresh s a"
    have k: "conversations ?s = AList.update (cs_id c) merged (conversations s)" and o: "users ?s = users s"
      "activeConversationId ?s = (if pendingGroupCreation s \<and> cs_kind c = KGroup \<and> me \<in> set (cs_memberIds c)
         \<and> map_of (conversations s) (cs_id c) = None then cs_id c else activeConversationId s)"
      unfolding CONVERSATION_CREATED chatReducer.simps reduce_CONVERSATION_CREATED_def
      by (simp_all add: me Let_def merged_def [symmetric] i from_summary_fields(1) [OF c(1)])
    from o u c show ?thesis by (intro chat_inv_put [OF assms(1) k _ i]) simp_all
  qed
next
  case (MESSAGE_RECEIVED m)
  have i: "conv_id (conversation_for m s) = ms_conversationId m"
    using assms(1) by (simp add: conversation_for_def chat_inv_def split: option.split)
  let ?c = "(conversation_for m s)\<lparr>conv_messages := conv_messages (conversation_for m s)
      @ [messageFromSummary m (case userId s of None \<Rightarrow> [] | Some i \<Rightarrow> i)],
      conv_unreadCount := (if activeConversationId s = ms_conversationId m then 0 else conv_unreadCount (conversation_for m s) + 1)\<rparr>"
  have k: "conversations (chatReducer fresh s a) = AList.update (ms_conversationId m) ?c (conversations s)"
    and o: "users (chatReducer fresh s a) = users s" "activeConversationId (chatReducer fresh s a) = activeConversationId s"
    by (simp_all add: MESSAGE_RECEIVED reduce_MESSAGE_RECEIVED_def Let_def i)
  from o show ?thesis
    by (intro chat_inv_put [OF assms(1) k]) (simp_all add: i, simp add: conversation_for_def)
next
  case (ERROR_MESSAGE c t i)
  let ?k = "case i of None \<Rightarrow> activeConversationId s | Some i \<Rightarrow> i"
  show ?thesis
  proof (cases "map_of (conversations s) ?k")
    case None
    with assms(1) show ?thesis by (simp add: ERROR_MESSAGE reduce_ERROR_MESSAGE_def Let_def chat_inv_def)
  next
    case (Some v)
    have v: "conv_id v = ?k" "activeConversationId s = ?k \<longrightarrow> conv_unreadCount v = 0"
      using assms(1) Some by (auto simp: chat_inv_def)
    define e where "e = \<lparr>msg_id = fst fresh, msg_kind = CError, msg_senderId = None, msg_sender = None,
                     msg_content = t, msg_timestamp = snd fresh, msg_isOwn = False\<rparr>"
    have k: "conversations (chatReducer fresh s a) = AList.update ?k (add_message e v) (conversations s)"
      and o: "users (chatReducer fresh s a) = users s" "activeConversationId (chatReducer fresh s a) = activeConversationId s"
      by (simp_all add: ERROR_MESSAGE reduce_ERROR_MESSAGE_def Let_def Some e_def)
    from o v Some show ?thesis by (intro chat_inv_put [OF assms(1) k]) simp_all
  qed
next
  case (SET_ACTIVE_CONVERSATION i)
  show ?thesis
  proof (cases "map_of (conversations s) i")
    case None
    with assms(1) show ?thesis by (simp add: SET_ACTIVE_CONVERSATION reduce_SET_ACTIVE_def)
  next
    case (Some v)
    have v: "conv_id v = i" using assms(1) Some by (simp add: chat_inv_def)
    have k: "conversations (chatReducer fresh s a) = AList.update i (v\<lparr>conv_unreadCount := 0\<rparr>) (conversations s)"
      and o: "users (chatReducer fresh s a) = users s" "activeConversationId (chatReducer fresh s a) = i"
      by (simp_all add: SET_ACTIVE_CONVERSATION reduce_SET_ACTIVE_def Some)
    from o v Some show ?thesis by (intro chat_inv_put [OF assms(1) k]) simp_all
  qed
next
  case LOGGED_OUT
  then show ?thesis by (auto simp: chat_inv_def reduce_LOGGED_OUT_def)
qed (insert assms(1), simp_all add: chat_inv_def)

subsection \<open>Properties\<close>

definition chat_step :: "ChatState \<Rightarrow> ChatState \<Rightarrow> bool" where
  "chat_step s t \<longleftrightarrow> (\<exists>fresh a. action_ok a \<and> t = chatReducer fresh s a)"

lemma initial_inv: "chat_inv (createInitialState url)"
  by (auto simp: chat_inv_def createInitialState_def)

interpretation chat: invariant_system "\<lambda>s. \<exists>url. s = createInitialState url" chat_step chat_inv
  by unfold_locales (auto simp: initial_inv chat_step_def intro: chat_inv_step)

text \<open>C13: The view is consistent.  Whatever sequence of actions is dispatched, provided that no
  conversation but the public one is announced as public and that \<open>CONVERSATION_CREATED\<close> announces
  no public one (\<open>action_ok\<close>: the gateway announces no others), every conversation is stored under
  its own id, the public conversation exists and lists exactly the users known to be online, and
  the selected conversation exists and has no unread count.\<close>

theorem chat_state_consistent:
  assumes "chat_step\<^sup>*\<^sup>* (createInitialState url) s"
  shows "(\<forall>k c. map_of (conversations s) k = Some c \<longrightarrow> conv_id c = k)
    \<and> (\<exists>p ids. map_of (conversations s) PUBLIC_CONVERSATION_ID = Some p \<and> conv_memberIds p = Some ids
          \<and> set ids = fst ` set (users s))
    \<and> (\<exists>c. map_of (conversations s) (activeConversationId s) = Some c \<and> conv_unreadCount c = 0)"
proof -
  have "chat_inv s" using chat.inv_reachable [OF _ assms] by blast
  then show ?thesis by (simp add: chat_inv_def dom_map_of_conv_image_fst)
qed

theorem chat_state_consistent_witness:
  "\<exists>c. map_of (conversations (chatReducer ([], []) (createInitialState []) (USER_OFFLINE []))) PUBLIC_CONVERSATION_ID = Some c"
proof -
  have "chat_step (createInitialState []) (chatReducer ([], []) (createInitialState []) (USER_OFFLINE []))"
    unfolding chat_step_def by (intro exI conjI [rotated], rule refl) simp
  from chat_state_consistent [OF r_into_rtranclp [where r = chat_step, OF this]] show ?thesis by blast
qed

definition receive_all :: "jsstr \<times> jsstr \<Rightarrow> MessageSummary list \<Rightarrow> ChatState \<Rightarrow> ChatState" where
  "receive_all fresh ms s = fold (\<lambda>m s. chatReducer fresh s (MESSAGE_RECEIVED m)) ms s"

lemma receive_one:
  assumes "chat_inv s" and "map_of (conversations s) k = Some c"
  shows "\<exists>c'. map_of (conversations (reduce_MESSAGE_RECEIVED m s)) k = Some c' \<and>
    (if ms_conversationId m = k
     then conv_messages c' = conv_messages c @ [messageFromSummary m (case userId s of None \<Rightarrow> [] | Some i \<Rightarrow> i)]
       \<and> conv_unreadCount c' = (if activeConversationId s = k then 0 else conv_unreadCount c + 1)
     else c' = c)"
proof -
  have i: "conv_id (conversation_for m s) = ms_conversationId m"
    using assms(1) by (simp add: conversation_for_def chat_inv_def split: option.split)
  moreover have "ms_conversationId m = k \<Longrightarrow> conversation_for m s = c"
    using assms(2) by (simp add: conversation_for_def)
  ultimately show ?thesis
    using assms(2) by (auto simp: reduce_MESSAGE_RECEIVED_def Let_def alist.get_put)
qed

text \<open>C31: Every message is shown once.  Receiving a sequence of messages appends to a
  conversation exactly the messages addressed to it, in order, and its unread count grows by
  their number, or is zero if the conversation is the selected one.\<close>

theorem messages_shown_once:
  assumes "chat_inv s" and "map_of (conversations s) k = Some c"
    and "mine = filter (\<lambda>m. ms_conversationId m = k) ms" and "me = (case userId s of None \<Rightarrow> [] | Some i \<Rightarrow> i)"
  shows "\<exists>c'. map_of (conversations (receive_all fresh ms s)) k = Some c'
    \<and> conv_messages c' = conv_messages c @ map (\<lambda>m. messageFromSummary m me) mine
    \<and> (activeConversationId s \<noteq> k \<longrightarrow> conv_unreadCount c' = conv_unreadCount c + length mine)
    \<and> (activeConversationId s = k \<longrightarrow> conv_unreadCount c' = 0)"
  using assms
proof (induction ms arbitrary: s c mine)
  case Nil
  then show ?case by (auto simp: receive_all_def chat_inv_def)
next
  case (Cons m ms)
  let ?s = "reduce_MESSAGE_RECEIVED m s"
  have inv: "chat_inv ?s" using chat_inv_step [OF Cons.prems(1), of "MESSAGE_RECEIVED m" fresh] by simp
  have f: "userId ?s = userId s" "activeConversationId ?s = activeConversationId s"
    by (simp_all add: reduce_MESSAGE_RECEIVED_def Let_def)
  from receive_one [OF Cons.prems(1,2), of m] obtain d where d: "map_of (conversations ?s) k = Some d"
    and d': "if ms_conversationId m = k
     then conv_messages d = conv_messages c @ [messageFromSummary m me]
       \<and> conv_unreadCount d = (if activeConversationId s = k then 0 else conv_unreadCount c + 1)
     else d = c"
    using Cons.prems(4) by auto
  from Cons.IH [OF inv d refl] Cons.prems(4) f obtain e where e: "map_of (conversations (receive_all fresh ms ?s)) k = Some e"
    "conv_messages e = conv_messages d @ map (\<lambda>m. messageFromSummary m me) (filter (\<lambda>m. ms_conversationId m = k) ms)"
    "activeConversationId s \<noteq> k \<longrightarrow> conv_unreadCount e = conv_unreadCount d + length (filter (\<lambda>m. ms_conversationId m = k) ms)"
    "activeConversationId s = k \<longrightarrow> conv_unreadCount e = 0"
    by auto
  have "receive_all fresh (m # ms) s = receive_all fresh ms ?s" by (simp add: receive_all_def)
  then show ?case using e d' by (intro exI [of _ e]) (auto simp: Cons.prems(3) split: if_splits)
qed

theorem messages_shown_once_witness:
  "\<exists>c'. map_of (conversations (receive_all ([], []) [\<lparr>ms_id = js ''m'', ms_conversationId = PUBLIC_CONVERSATION_ID, ms_kind = Chat,
        ms_senderId = None, ms_senderUsername = None, ms_text = js ''hi'', ms_timestamp = js ''t''\<rparr>] (createInitialState [])))
      PUBLIC_CONVERSATION_ID = Some c' \<and> map msg_content (conv_messages c') = [js ''hi''] \<and> conv_unreadCount c' = 0"
proof -
  have g: "map_of (conversations (createInitialState [])) PUBLIC_CONVERSATION_ID = Some (createPublicConversation [])"
    "activeConversationId (createInitialState []) = PUBLIC_CONVERSATION_ID"
    by (simp_all add: createInitialState_def)
  from messages_shown_once [OF initial_inv g(1) refl refl, of "([], [])" "[\<lparr>ms_id = js ''m'', ms_conversationId = PUBLIC_CONVERSATION_ID, ms_kind = Chat,
        ms_senderId = None, ms_senderUsername = None, ms_text = js ''hi'', ms_timestamp = js ''t''\<rparr>]"] g(2)
  show ?thesis by (auto simp: messageFromSummary_def)
qed

lemma visible_conversation:
  assumes "conv_inv db" and "u \<in> members_of db k" and "k \<noteq> PUBLIC_CONVERSATION_ID"
  shows "\<exists>s \<in> set (conversationsFor db u). cs_id s = k"
proof -
  have "k \<in> conv_ids db" using assms(1,2) no_members by (auto simp: conv_inv_def)
  then obtain c where c: "c \<in> set (t_conversations db)" "c_id c = k" by (auto simp: conv_ids_def)
  have "kinds_ok db" using assms(1) by (simp add: conv_inv_def)
  from bspec [OF this [unfolded kinds_ok_def] c(1)] have "c_kind c \<noteq> KPublic"
    using c(2) assms(3) by (cases "c_kind c") auto
  with c assms(2) have "k \<in> cs_id ` set (conversationsFor db u)"
    unfolding conversationsFor_ids by blast
  then show ?thesis by blast
qed

lemma conversationsFor_kind: "s \<in> set (conversationsFor db u) \<Longrightarrow> cs_kind s \<noteq> KPublic \<and> u \<in> members_of db (cs_id s)"
  by (auto simp: conversationsFor_elem)

text \<open>C30: Logging in restores everything.  After the ready message that the gateway builds from
  its tables, in whatever order SQLite returns messages of the same time, the browser shows exactly
  the public conversation and the conversations of which the account is a member, each with all
  messages that the table has of it, each as often as it is stored, and no others, in order of
  time and, for equal times, in the order of the ready message; no message of the history is dropped.\<close>

theorem login_restores_history:
  assumes "conv_inv db" and "s' = chatReducer fresh s
      (READY i name us (publicConversation online # conversationsFor db i) (historyForUser ties db i))"
  shows "(\<forall>k. map_of (conversations s') k \<noteq> None \<longleftrightarrow> k = PUBLIC_CONVERSATION_ID \<or> i \<in> members_of db k)
    \<and> (\<forall>k c. map_of (conversations s') k = Some c \<longrightarrow> conv_messages c =
        map (\<lambda>m. messageFromSummary m i) (filter (\<lambda>m. ms_conversationId m = k) (historyForUser ties db i)))
    \<and> (\<forall>k c. map_of (conversations s') k = Some c \<longrightarrow>
        mset (conv_messages c) = image_mset (\<lambda>m. messageFromSummary (toSummary m) i) (filter_mset (\<lambda>m. m_conversation_id m = k) (mset (t_messages db)))
        \<and> sorted (map msg_timestamp (conv_messages c)))
    \<and> (\<forall>m \<in> set (historyForUser ties db i). map_of (conversations s') (ms_conversationId m) \<noteq> None)"
proof -
  let ?cs = "publicConversation online # conversationsFor db i" and ?ms = "historyForUser ties db i"
  have get: "map_of (conversations s') k = map_option (fold (\<lambda>m. add_message (messageFromSummary m i))
      (filter (\<lambda>m. ms_conversationId m = k) ?ms)) (map_of (ready_conversations i us ?cs) k)" for k
    by (simp add: assms(2) reduce_READY_def ready_messages_get)
  have ok: "action_ok (READY i name us ?cs ?ms)"
    using conversationsFor_kind by (auto simp: publicConversation_def)
  have dom: "map_of (ready_conversations i us ?cs) k \<noteq> None \<longleftrightarrow> k = PUBLIC_CONVERSATION_ID \<or> i \<in> members_of db k" for k
  proof (cases "k = PUBLIC_CONVERSATION_ID")
    case False
    have "find (\<lambda>c. cs_id c = k) (rev ?cs) = None \<longleftrightarrow> (\<forall>c \<in> set (conversationsFor db i). cs_id c \<noteq> k)"
      using False by (subst find_None_all) (auto simp: publicConversation_def)
    then have "find (\<lambda>c. cs_id c = k) (rev ?cs) \<noteq> None \<longleftrightarrow> (\<exists>c \<in> set (conversationsFor db i). cs_id c = k)"
      by (metis (no_types, lifting))
    also have "\<dots> \<longleftrightarrow> i \<in> members_of db k"
      using visible_conversation [OF assms(1) _ False] conversationsFor_kind by blast
    finally show ?thesis using False by (simp add: ready_conversations_get del: rev.simps)
  qed (simp add: ready_conversations_get)
  have d: "map_of (conversations s') k \<noteq> None \<longleftrightarrow> k = PUBLIC_CONVERSATION_ID \<or> i \<in> members_of db k" for k
    using dom [of k] by (simp add: get)
  have "conv_messages c = map (\<lambda>m. messageFromSummary m i) (filter (\<lambda>m. ms_conversationId m = k) ?ms)"
    if "map_of (conversations s') k = Some c" for k c
    using that ready_conversation_id [OF ok] by (auto simp: get add_messages_fields)
  note messages = this
  have "mset (conv_messages c) = image_mset (\<lambda>m. messageFromSummary (toSummary m) i) (filter_mset (\<lambda>m. m_conversation_id m = k) (mset (t_messages db)))"
    if c: "map_of (conversations s') k = Some c" for k c
  proof -
    have "k = PUBLIC_CONVERSATION_ID \<or> i \<in> members_of db k" using d [of k] c by simp
    then have "(\<lambda>m. visible_to db i m \<and> ms_conversationId (toSummary m) = k) = (\<lambda>m. m_conversation_id m = k)"
      by (auto simp: fun_eq_iff toSummary_def visible_members)
    then show ?thesis
      by (simp add: messages [OF c] history_mset filter_mset_image_mset filter_filter_mset multiset.map_comp comp_def)
  qed
  moreover have "sorted (map msg_timestamp (conv_messages c))" if c: "map_of (conversations s') k = Some c" for k c
  proof -
    have "map msg_timestamp (conv_messages c) = map ms_timestamp (filter (\<lambda>m. ms_conversationId m = k) ?ms)"
      by (simp add: messages [OF c] messageFromSummary_def)
    then show ?thesis using sorted_filter [OF history_sorted] by simp
  qed
  moreover have "map_of (conversations s') (ms_conversationId m) \<noteq> None" if "m \<in> set ?ms" for m
  proof -
    have "ms_conversationId m = PUBLIC_CONVERSATION_ID \<or> i \<in> members_of db (ms_conversationId m)"
      using that by (auto simp: history_set visible_to_def toSummary_def members_of_def PUBLIC_CONVERSATION_ID_def)
    then show ?thesis using d by blast
  qed
  ultimately show ?thesis using d messages by blast
qed

theorem login_restores_history_witness:
  "\<exists>db c. length (t_messages db) = 1 \<and> map_of (conversations (chatReducer ([], []) (createInitialState [])
      (READY (js ''me'') (js ''amy'') [] (publicConversation [] # conversationsFor db (js ''me'')) (historyForUser (\<lambda>_ _ _. 0) db (js ''me'')))))
      PUBLIC_CONVERSATION_ID = Some c \<and> map msg_content (conv_messages c) = [js ''hi'']"
proof -
  let ?d0 = "openDatabase (js ''t'') None"
  let ?m = "\<lparr>d_id = Some (js ''m''), d_conversationId = PUBLIC_CONVERSATION_ID, d_kind = Chat, d_senderId = None,
      d_senderUsername = None, d_text = js ''hi'', d_timestamp = Some (js ''t'')\<rparr>"
  have i0: "conv_inv ?d0"
    using openDatabase_new_inv
    by (simp add: conv_inv_def kinds_ok_def openDatabase_def insert_or_ignore_conversation_def empty_tables_def)
  have t0: "t_messages ?d0 = []"
    by (simp add: openDatabase_def insert_or_ignore_conversation_def empty_tables_def)
  have "append [] [] ?m ?d0 = Inr (?d0\<lparr>t_messages := [message_row [] [] ?m]\<rparr>, toSummary (message_row [] [] ?m))"
    by (simp add: append_def insert_message_def Let_def t0)
  then obtain db sm where a: "append [] [] ?m ?d0 = Inr (db, sm)" "t_messages db = [message_row [] [] ?m]"
    by auto
  have "PUBLIC_CONVERSATION_ID \<in> conv_ids ?d0"
    by (simp add: openDatabase_def empty_tables_def conv_ids_def insert_or_ignore_conversation_def PUBLIC_CONVERSATION_ID_def)
  then have inv: "conv_inv db" using append_conv_inv [OF i0 _ a(1)] by simp
  have h: "historyForUser (\<lambda>_ _ _. 0) db (js ''me'') = [toSummary (message_row [] [] ?m)]"
    by (simp add: historyForUser_def a(2) visible_to_def message_row_def PUBLIC_CONVERSATION_ID_def)
  note r = login_restores_history [OF inv refl, where i = "js ''me''" and fresh = "([], [])" and s = "createInitialState []"
      and name = "js ''amy''" and us = "[]" and online = "[]" and ties = "\<lambda>_ _ _. 0"]
  obtain c where c: "map_of (conversations (chatReducer ([], []) (createInitialState [])
      (READY (js ''me'') (js ''amy'') [] (publicConversation [] # conversationsFor db (js ''me'')) (historyForUser (\<lambda>_ _ _. 0) db (js ''me'')))))
      PUBLIC_CONVERSATION_ID = Some c"
    using conjunct1 [OF r] by blast
  have "conv_messages c = map (\<lambda>m. messageFromSummary m (js ''me''))
      (filter (\<lambda>m. ms_conversationId m = PUBLIC_CONVERSATION_ID) (historyForUser (\<lambda>_ _ _. 0) db (js ''me'')))"
    using r c by blast
  then have "map msg_content (conv_messages c) = [js ''hi'']"
    by (simp add: h toSummary_def message_row_def messageFromSummary_def)
  with c a(2) show ?thesis by (intro exI [of _ db] exI [of _ c]) simp
qed

text \<open>A refused group creation is not forgotten.  After the creation of a group has been
  refused with an error, the next group that anybody else creates with this user in it takes
  over the selection and closes the dialog, as if it were the user's own.\<close>

theorem refused_group_hijacks_selection:
  assumes "userId s = Some me" and "me \<noteq> []" and "cs_kind g = KGroup" and "me \<in> set (cs_memberIds g)"
    and "map_of (conversations s) (cs_id g) = None" and "activeConversationId s \<noteq> cs_id g"
    and "s1 = chatReducer f1 s MARK_PENDING_GROUP_CREATION"
    and "s2 = chatReducer f2 s1 (ERROR_MESSAGE (js ''UNKNOWN_MEMBER'') txt None)"
    and "s3 = chatReducer f3 s2 (CONVERSATION_CREATED g)"
  shows "activeConversationId s3 = cs_id g \<and> \<not> newGroupModalOpen s3"
proof -
  have "userId s2 = Some me" "pendingGroupCreation s2"
    by (simp_all add: assms(1,7,8) reduce_ERROR_MESSAGE_def Let_def split: option.split)
  moreover have "map_of (conversations s2) (cs_id g) = None"
    using assms(5,6) by (simp add: assms(7,8) reduce_ERROR_MESSAGE_def Let_def alist.get_put split: option.split)
  ultimately show ?thesis
    using assms(2-4) by (simp add: assms(9) reduce_CONVERSATION_CREATED_def Let_def from_summary_fields)
qed

theorem refused_group_hijacks_selection_witness:
  "activeConversationId (foldl (chatReducer ([], [])) ((createInitialState [])\<lparr>userId := Some (js ''me''), newGroupModalOpen := True\<rparr>)
     [MARK_PENDING_GROUP_CREATION, ERROR_MESSAGE (js ''UNKNOWN_MEMBER'') [] None,
      CONVERSATION_CREATED \<lparr>cs_id = js ''group:1'', cs_kind = KGroup, cs_title = js ''team'', cs_memberIds = [js ''me'', js ''bob'']\<rparr>])
   = js ''group:1''"
proof -
  let ?g = "\<lparr>cs_id = js ''group:1'', cs_kind = KGroup, cs_title = js ''team'', cs_memberIds = [js ''me'', js ''bob'']\<rparr>"
  let ?s = "(createInitialState [])\<lparr>userId := Some (js ''me''), newGroupModalOpen := True\<rparr>"
  have e: "userId ?s = Some (js ''me'')" "js ''me'' \<noteq> []" "cs_kind ?g = KGroup" "js ''me'' \<in> set (cs_memberIds ?g)"
    "map_of (conversations ?s) (cs_id ?g) = None" "activeConversationId ?s \<noteq> cs_id ?g"
    by (simp_all add: createInitialState_def PUBLIC_CONVERSATION_ID_def js_def)
  from refused_group_hijacks_selection [OF e refl refl refl, of "([], [])" "([], [])" "([], [])" "[]"]
  show ?thesis by (simp del: chatReducer.simps)
qed

end
