(* ===== verification/JsonText.thy ===== *)
theory JsonText
  imports ClientProtocol "HOL-Library.Monad_Syntax"
begin

section \<open>JSON text: JSON.stringify and JSON.parse\<close>

text \<open>
  The two functions of the language through which both ends of the browser protocol talk:
  \<open>encodeOutbound\<close> and \<open>parseInbound\<close> (frontend/types/protocol.ts) and
  \<open>encodeServerMessage\<close> and \<open>onClientRaw\<close> (gateway/src).  \<open>stringify\<close> is
  \<open>JSON.stringify\<close> on the values of this program, escaping lone surrogates as it does;
  \<open>json_parse\<close> is \<open>JSON.parse\<close> with the whole grammar, \<open>None\<close> for a SyntaxError.
  Its argument \<open>num\<close> is the text \<open>String(n)\<close> of the number that a numeral denotes
  (see \<open>json\<close>).  The nesting is bounded by the fuel, which the length of the text gives.
\<close>

subsection \<open>Writing\<close>

definition QUOTE :: code_unit where "QUOTE = unit (CHR 0x22)"
definition BACKSLASH :: code_unit where "BACKSLASH = unit (CHR 0x5C)"

definition short_escapes :: "(code_unit \<times> code_unit) list" where
  "short_escapes = [(8, unit (CHR ''b'')), (9, unit (CHR ''t'')), (10, unit (CHR ''n'')), (12, unit (CHR ''f'')),
     (13, unit (CHR ''r'')), (34, 34), (92, 92)]"

definition unicode_escape :: "code_unit \<Rightarrow> jsstr" where
  "unicode_escape u = (let n = unat u in
     [BACKSLASH, unit (CHR ''u''), hex_digit (n div 4096), hex_digit (n div 256 mod 16), hex_digit (n div 16 mod 16), hex_digit (n mod 16)])"

definition surrogate :: "code_unit \<Rightarrow> bool" where
  "surrogate u \<longleftrightarrow> high_surrogate (unat u) \<or> low_surrogate (unat u)"

definition json_escape :: "code_unit \<Rightarrow> jsstr" where
  "json_escape u = (case map_of short_escapes u of
       Some e \<Rightarrow> [BACKSLASH, e]
     | None \<Rightarrow> if unat u < 32 \<or> surrogate u then unicode_escape u else [u])"

fun quote_units :: "jsstr \<Rightarrow> jsstr" where
  "quote_units [] = []"
| "quote_units [u] = json_escape u"
| "quote_units (u # v # us) =
     (if high_surrogate (unat u) \<and> low_surrogate (unat v) then u # v # quote_units us
      else json_escape u @ quote_units (v # us))"

definition json_quote :: "jsstr \<Rightarrow> jsstr" where
  "json_quote s = QUOTE # quote_units s @ [QUOTE]"

fun stringify :: "json \<Rightarrow> jsstr" where
  "stringify JNull = js ''null''"
| "stringify (JBool b) = (if b then js ''true'' else js ''false'')"
| "stringify (JNum n) = n"
| "stringify (JStr s) = json_quote s"
| "stringify (JArr vs) = js ''['' @ join (js '','') (map stringify vs) @ js '']''"
| "stringify (JObj kvs) = js ''{'' @ join (js '','') (map (\<lambda>kv. json_quote (fst kv) @ js '':'' @ stringify (snd kv)) kvs) @ js ''}''"

subsection \<open>Reading\<close>

definition json_space :: "code_unit \<Rightarrow> bool" where
  "json_space u \<longleftrightarrow> u \<in> {32, 9, 10, 13}"

definition skip :: "jsstr \<Rightarrow> jsstr" where
  "skip s = dropWhile json_space s"

text \<open>White space and then this character: what follows it.\<close>

definition expect :: "code_unit \<Rightarrow> jsstr \<Rightarrow> jsstr option" where
  "expect c s = (case skip s of [] \<Rightarrow> None | d # r \<Rightarrow> if d = c then Some r else None)"

definition hex4 :: "code_unit \<Rightarrow> code_unit \<Rightarrow> code_unit \<Rightarrow> code_unit \<Rightarrow> code_unit option" where
  "hex4 a b c d = do { w \<leftarrow> hex_val a; x \<leftarrow> hex_val b; y \<leftarrow> hex_val c; z \<leftarrow> hex_val d;
     Some (word_of_nat (4096 * w + 256 * x + 16 * y + z)) }"

definition unescape :: "code_unit \<Rightarrow> code_unit option" where
  "unescape e = map_of ((47, 47) # map (\<lambda>(u, e). (e, u)) short_escapes) e"

text \<open>The rest of a string after its opening quote.\<close>

fun parse_chars :: "jsstr \<Rightarrow> (jsstr \<times> jsstr) option" where
  "parse_chars [] = None"
| "parse_chars (c # r) =
     (if c = QUOTE then Some ([], r)
      else if unat c < 32 then None
      else if c = BACKSLASH then
        (case r of
           [] \<Rightarrow> None
         | e # r1 \<Rightarrow>
             if e = unit (CHR ''u'') then
               (case r1 of
                  h1 # h2 # h3 # h4 # r2 \<Rightarrow>
                    do { u \<leftarrow> hex4 h1 h2 h3 h4; (s, r3) \<leftarrow> parse_chars r2; Some (u # s, r3) }
                | _ \<Rightarrow> None)
             else do { u \<leftarrow> unescape e; (s, r3) \<leftarrow> parse_chars r1; Some (u # s, r3) })
      else do { (s, r3) \<leftarrow> parse_chars r; Some (c # s, r3) })"

definition digits1 :: "jsstr \<Rightarrow> (jsstr \<times> jsstr) option" where
  "digits1 s = (let ds = takeWhile is_digit s in if ds = [] then None else Some (ds, dropWhile is_digit s))"

text \<open>The parts of a numeral: sign, integer, fraction, exponent.\<close>

definition lex_sign :: "code_unit set \<Rightarrow> jsstr \<Rightarrow> jsstr \<times> jsstr" where
  "lex_sign signs s = (case s of c # r \<Rightarrow> if c \<in> signs then ([c], r) else ([], s) | [] \<Rightarrow> ([], s))"

definition lex_int :: "jsstr \<Rightarrow> (jsstr \<times> jsstr) option" where
  "lex_int s = (case s of c # r \<Rightarrow> if c = unit (CHR ''0'') then Some ([c], r) else digits1 s | [] \<Rightarrow> None)"

definition lex_frac :: "jsstr \<Rightarrow> (jsstr \<times> jsstr) option" where
  "lex_frac s = (case s of
       c # r \<Rightarrow> if c = unit (CHR ''.'') then do { (ds, r1) \<leftarrow> digits1 r; Some (c # ds, r1) } else Some ([], s)
     | [] \<Rightarrow> Some ([], s))"

definition lex_exp :: "jsstr \<Rightarrow> (jsstr \<times> jsstr) option" where
  "lex_exp s = (case s of
       c # r \<Rightarrow> if c \<in> {unit (CHR ''e''), unit (CHR ''E'')}
         then (let (sg, r1) = lex_sign {unit (CHR ''+''), unit (CHR ''-'')} r in do { (ds, r2) \<leftarrow> digits1 r1; Some (c # sg @ ds, r2) })
         else Some ([], s)
     | [] \<Rightarrow> Some ([], s))"

definition lex_number :: "jsstr \<Rightarrow> (jsstr \<times> jsstr) option" where
  "lex_number s = (let (sg, s0) = lex_sign {unit (CHR ''-'')} s in
     do { (i, s1) \<leftarrow> lex_int s0; (f, s2) \<leftarrow> lex_frac s1; (e, s3) \<leftarrow> lex_exp s2; Some (sg @ i @ f @ e, s3) })"

definition json_words :: "(jsstr \<times> json) list" where
  "json_words = [(js ''null'', JNull), (js ''true'', JBool True), (js ''false'', JBool False)]"

definition parse_atom :: "(jsstr \<Rightarrow> jsstr) \<Rightarrow> jsstr \<Rightarrow> (json \<times> jsstr) option" where
  "parse_atom num s = (case find (\<lambda>(w, v). take (length w) s = w) json_words of
       Some (w, v) \<Rightarrow> Some (v, drop (length w) s)
     | None \<Rightarrow> do { (n, r) \<leftarrow> lex_number s; Some (JNum (num n), r) })"

text \<open>A key that occurs again overwrites the earlier value.\<close>

definition object_of :: "(jsstr \<times> json) list \<Rightarrow> json" where
  "object_of kvs = JObj (fold (\<lambda>(k, v) m. AList.update k v m) kvs [])"

fun parse_value :: "(jsstr \<Rightarrow> jsstr) \<Rightarrow> nat \<Rightarrow> jsstr \<Rightarrow> (json \<times> jsstr) option"
  and parse_elements :: "(jsstr \<Rightarrow> jsstr) \<Rightarrow> nat \<Rightarrow> jsstr \<Rightarrow> (json list \<times> jsstr) option"
  and parse_members :: "(jsstr \<Rightarrow> jsstr) \<Rightarrow> nat \<Rightarrow> jsstr \<Rightarrow> ((jsstr \<times> json) list \<times> jsstr) option" where
  "parse_value num 0 s = None"
| "parse_value num (Suc n) s =
     (case expect (unit (CHR ''{'')) s of
        Some r \<Rightarrow> (case expect (unit (CHR ''}'')) r of
             Some r1 \<Rightarrow> Some (JObj [], r1)
           | None \<Rightarrow> do { (kvs, r1) \<leftarrow> parse_members num n r; Some (object_of kvs, r1) })
      | None \<Rightarrow> (case expect (unit (CHR ''['')) s of
        Some r \<Rightarrow> (case expect (unit (CHR '']'')) r of
             Some r1 \<Rightarrow> Some (JArr [], r1)
           | None \<Rightarrow> do { (vs, r1) \<leftarrow> parse_elements num n r; Some (JArr vs, r1) })
      | None \<Rightarrow> (case expect QUOTE s of
        Some r \<Rightarrow> do { (t, r1) \<leftarrow> parse_chars r; Some (JStr t, r1) }
      | None \<Rightarrow> parse_atom num (skip s))))"
| "parse_elements num 0 s = None"
| "parse_elements num (Suc n) s =
     do { (v, r) \<leftarrow> parse_value num n s;
          case expect (unit (CHR '','')) r of
            Some r1 \<Rightarrow> do { (vs, r2) \<leftarrow> parse_elements num n r1; Some (v # vs, r2) }
          | None \<Rightarrow> do { r1 \<leftarrow> expect (unit (CHR '']'')) r; Some ([v], r1) } }"
| "parse_members num 0 s = None"
| "parse_members num (Suc n) s =
     do { r0 \<leftarrow> expect QUOTE s;
          (k, r1) \<leftarrow> parse_chars r0;
          r2 \<leftarrow> expect (unit (CHR '':'')) r1;
          (v, r) \<leftarrow> parse_value num n r2;
          case expect (unit (CHR '','')) r of
            Some r3 \<Rightarrow> do { (kvs, r4) \<leftarrow> parse_members num n r3; Some ((k, v) # kvs, r4) }
          | None \<Rightarrow> do { r3 \<leftarrow> expect (unit (CHR ''}'')) r; Some ([(k, v)], r3) } }"

definition json_parse :: "(jsstr \<Rightarrow> jsstr) \<Rightarrow> jsstr \<Rightarrow> json option" where
  "json_parse num s = do { (v, r) \<leftarrow> parse_value num (2 * length s + 2) s; if skip r = [] then Some v else None }"

subsection \<open>Strings\<close>

lemmas json_consts = QUOTE_def BACKSLASH_def

lemma short_escapes_Some:
  "map_of short_escapes u = Some e \<Longrightarrow> unescape e = Some u \<and> e \<noteq> unit (CHR ''u'')"
  by (simp add: short_escapes_def unit_def split: if_splits) (simp_all add: unescape_def short_escapes_def unit_def)

lemma short_escapes_None:
  "map_of short_escapes u = None \<Longrightarrow> u \<noteq> QUOTE \<and> u \<noteq> BACKSLASH"
  by (simp add: short_escapes_def json_consts unit_def split: if_splits)

lemma not_control: "\<not> unat BACKSLASH < 32" "\<not> unat QUOTE < 32" "BACKSLASH \<noteq> QUOTE" "QUOTE \<noteq> BACKSLASH"
  by (simp_all add: json_consts unit_def)

lemma hex4_digits:
  "hex4 (hex_digit (unat u div 4096)) (hex_digit (unat u div 256 mod 16)) (hex_digit (unat u div 16 mod 16)) (hex_digit (unat u mod 16))
     = Some u"
proof -
  have "unat u < 65536" using unsigned_less [of u, where 'a = nat] by simp
  then have q: "unat u div 4096 < 16" by simp
  have eq: "4096 * (unat u div 4096) + 256 * (unat u div 256 mod 16) + 16 * (unat u div 16 mod 16) + unat u mod 16 = unat u"
  proof -
    have d: "n div 256 = n div 16 div 16" "n div 4096 = n div 256 div 16" for n :: nat
      by (simp_all flip: div_mult2_eq)
    have e: "n = 16 * (n div 16) + n mod 16" for n :: nat by simp
    show ?thesis using e [of "unat u"] e [of "unat u div 16"] e [of "unat u div 256"] unfolding d(1) [symmetric] d(2) [symmetric]
      by linarith
  qed
  have "(word_of_nat (4096 * (unat u div 4096) + 256 * (unat u div 256 mod 16) + 16 * (unat u div 16 mod 16) + unat u mod 16) :: code_unit) = u"
    unfolding eq by simp
  then show ?thesis using q by (simp add: hex4_def hex_val_digit del: of_nat_add of_nat_mult)
qed

lemma parse_escape:
  "parse_chars (json_escape u @ t) = do { (s, r) \<leftarrow> parse_chars t; Some (u # s, r) }"
proof (cases "map_of short_escapes u")
  case (Some e)
  then show ?thesis using short_escapes_Some [OF Some]
    by (simp add: json_escape_def not_control)
next
  case None
  then show ?thesis using short_escapes_None [OF None]
    by (simp add: json_escape_def unicode_escape_def not_control hex4_digits Let_def)
qed

lemma plain_pair:
  assumes "high_surrogate (unat u) \<or> low_surrogate (unat u)"
  shows "parse_chars (u # t) = do { (s, r) \<leftarrow> parse_chars t; Some (u # s, r) }"
proof -
  have "u \<noteq> QUOTE" "u \<noteq> BACKSLASH" "\<not> unat u < 32"
    using assms by (auto simp: json_consts unit_def unat_of_char_16 high_surrogate_def low_surrogate_def)
  then show ?thesis by simp
qed

lemma parse_quote_units: "parse_chars (quote_units s @ QUOTE # rest) = Some (s, rest)"
proof (induction s rule: quote_units.induct)
  case (3 u v us)
  then show ?case
    by (cases "high_surrogate (unat u) \<and> low_surrogate (unat v)")
      (simp_all only: quote_units.simps if_True if_False simp_thms append_Cons append_assoc parse_escape, simp_all add: plain_pair del: parse_chars.simps)
qed (simp_all add: parse_escape)

lemma surrogate_hex: "d < 16 \<Longrightarrow> \<not> high_surrogate (unat (hex_digit d)) \<and> \<not> low_surrogate (unat (hex_digit d))"
proof -
  assume "d < 16"
  then have "unat (hex_digit d) < 256"
    by (simp add: hex_digit_def unat_of_nat less_imp_le_nat del: of_nat_add of_nat_numeral)
  then show ?thesis by (simp add: high_surrogate_def low_surrogate_def)
qed

lemma wf_utf16_append: "wf_utf16 us \<Longrightarrow> wf_utf16 vs \<Longrightarrow> wf_utf16 (us @ vs)"
proof (induction us rule: wf_utf16.induct)
  case (2 u)
  then show ?case by (cases vs) auto
qed (auto split: if_splits)

lemma wf_str_append: "wf_str s \<Longrightarrow> wf_str t \<Longrightarrow> wf_str (s @ t)"
  by (simp add: wf_str_def wf_utf16_append)

lemma wf_str_plain: "\<forall>u \<in> set s. \<not> surrogate u \<Longrightarrow> wf_str s"
  using wf_utf16_append_plain [of "map unat s" "[]"] by (simp add: wf_str_def surrogate_def)

lemma wf_escape: "wf_str (json_escape u)"
proof (rule wf_str_plain)
  have u: "unat u < 65536" using unsigned_less [of u, where 'a = nat] by simp
  have h: "d < 16 \<Longrightarrow> \<not> surrogate (hex_digit d)" for d using surrogate_hex by (simp add: surrogate_def)
  have c: "\<not> surrogate BACKSLASH" "\<not> surrogate (unit (CHR ''u''))"
    by (simp_all add: surrogate_def json_consts unit_def high_surrogate_def low_surrogate_def)
  have "\<not> surrogate e" if "map_of short_escapes u = Some e" for e
    using that by (auto simp: short_escapes_def surrogate_def high_surrogate_def low_surrogate_def unit_def split: if_splits)
  with u h c show "\<forall>v \<in> set (json_escape u). \<not> surrogate v"
    by (auto simp: json_escape_def unicode_escape_def Let_def split: option.splits)
qed

lemma wf_quote_units: "wf_str (quote_units s)"
proof (induction s rule: quote_units.induct)
  case (3 u v us)
  then show ?case by (auto simp: wf_str_append wf_escape) (simp add: wf_str_def)
qed (simp_all add: wf_escape wf_str_def [of "[]"])

lemma wf_quote: "wf_str (json_quote s)"
proof -
  have "wf_str [QUOTE]" by (simp add: wf_str_def json_consts unit_def high_surrogate_def low_surrogate_def)
  then show ?thesis using wf_str_append [of "[QUOTE]"] wf_quote_units by (simp add: json_quote_def wf_str_append)
qed

subsection \<open>Values\<close>

text \<open>The values this program exchanges: no numerals, and distinct keys, as every object has.\<close>

fun json_ok :: "json \<Rightarrow> bool" where
  "json_ok (JNum n) \<longleftrightarrow> False"
| "json_ok (JArr vs) \<longleftrightarrow> (\<forall>v \<in> set vs. json_ok v)"
| "json_ok (JObj kvs) \<longleftrightarrow> distinct (map fst kvs) \<and> (\<forall>kv \<in> set kvs. json_ok (snd kv))"
| "json_ok _ \<longleftrightarrow> True"

lemma json_space_unit [simp]:
  "json_space (unit c) \<longleftrightarrow> c = CHR '' '' \<or> c = CHR 0x09 \<or> c = CHR 0x0A \<or> c = CHR 0x0D"
proof -
  have "{32, 9, 10, 13} = {unit (CHR '' ''), unit (CHR 0x09), unit (CHR 0x0A), unit (CHR 0x0D)}"
    by (simp add: unit_def)
  then show ?thesis by (simp add: json_space_def)
qed

lemma expect_unit [simp]:
  "\<not> json_space (unit d) \<Longrightarrow> expect (unit c) (unit d # r) = (if d = c then Some r else None)"
  by (simp add: expect_def skip_def)

lemma stringify_head:
  assumes "json_ok v"
  obtains c r where "stringify v = unit c # r" and "c \<in> set ''{[tfn'' \<union> {CHR 0x22}"
proof (cases v)
  case (JBool b)
  then show ?thesis using that by (cases b) (auto simp: js_def unit_def [symmetric])
next
  case (JStr t)
  then show ?thesis using that by (auto simp: json_quote_def QUOTE_def)
qed (use assms that in \<open>auto simp: js_def unit_def [symmetric]\<close>)

lemma wf_join: "(\<forall>s \<in> set ss. wf_str s) \<Longrightarrow> wf_str (join (js '','') ss)"
  by (induction "js '',''" ss rule: join.induct) (simp_all add: wf_str_append wf_str_def [of "[]"])

lemma wf_stringify: "json_ok v \<Longrightarrow> wf_str (stringify v)"
proof (induction v rule: stringify.induct)
  case (5 vs)
  have "wf_str (join (js '','') (map stringify vs))" using 5 by (intro wf_join) auto
  then show ?case by (simp add: wf_str_append)
next
  case (6 kvs)
  have "wf_str (join (js '','') (map (\<lambda>kv. json_quote (fst kv) @ js '':'' @ stringify (snd kv)) kvs))"
    using 6 by (intro wf_join) (auto simp: wf_str_append wf_quote)
  then show ?case by (simp add: wf_str_append)
qed (simp_all add: wf_quote)

definition reads_back :: "(jsstr \<Rightarrow> jsstr) \<Rightarrow> json \<Rightarrow> bool" where
  "reads_back num v \<longleftrightarrow> (\<forall>n rest. 2 * length (stringify v) + 1 \<le> n \<longrightarrow> parse_value num n (stringify v @ rest) = Some (v, rest))"

lemma reads_backD:
  "reads_back num v \<Longrightarrow> 2 * length (stringify v) + 1 \<le> n \<Longrightarrow> parse_value num n (stringify v @ rest) = Some (v, rest)"
  by (simp add: reads_back_def)

lemma js_comma: "js [c] @ t = unit c # t"
  by (simp add: js_def unit_def)

lemma parse_elements_join:
  "\<forall>v \<in> set (v # vs). reads_back num v \<Longrightarrow> 2 * length (join (js '','') (map stringify (v # vs))) + 2 \<le> n \<Longrightarrow>
     parse_elements num n (join (js '','') (map stringify (v # vs)) @ unit (CHR '']'') # rest) = Some (v # vs, rest)"
proof (induction vs arbitrary: v n)
  case Nil
  then obtain k where "n = Suc k" by (cases n) auto
  with Nil show ?case using reads_backD [of num v k] by simp
next
  case (Cons w vs)
  then obtain k where n: "n = Suc k" by (cases n) auto
  have "2 * length (stringify v) + 1 \<le> k" and k: "2 * length (join (js '','') (map stringify (w # vs))) + 2 \<le> k"
    using Cons.prems(2) n by auto
  then show ?case
    using reads_backD [of num v k "unit (CHR '','') # join (js '','') (map stringify (w # vs)) @ unit (CHR '']'') # rest"]
      Cons.IH [OF _ k] Cons.prems(1) n
    by (simp add: js_comma)
qed

definition member_text :: "jsstr \<times> json \<Rightarrow> jsstr" where
  "member_text kv = json_quote (fst kv) @ js '':'' @ stringify (snd kv)"

lemma parse_members_join:
  "\<forall>kv \<in> set (kv # kvs). reads_back num (snd kv) \<Longrightarrow> 2 * length (join (js '','') (map member_text (kv # kvs))) + 2 \<le> n \<Longrightarrow>
     parse_members num n (join (js '','') (map member_text (kv # kvs)) @ unit (CHR ''}'') # rest) = Some (kv # kvs, rest)"
proof (induction kvs arbitrary: kv n)
  case Nil
  then obtain k where "n = Suc k" by (cases n) auto
  with Nil show ?case
    using reads_backD [of num "snd kv" k] by (simp add: member_text_def json_quote_def js_comma parse_quote_units [unfolded QUOTE_def] QUOTE_def)
next
  case (Cons kw kvs)
  then obtain k where n: "n = Suc k" by (cases n) auto
  have "2 * length (stringify (snd kv)) + 1 \<le> k" and k: "2 * length (join (js '','') (map member_text (kw # kvs))) + 2 \<le> k"
    using Cons.prems(2) n by (simp_all add: member_text_def [of kv])
  then show ?case
    using reads_backD [of num "snd kv" k "unit (CHR '','') # join (js '','') (map member_text (kw # kvs)) @ unit (CHR ''}'') # rest"]
      Cons.IH [OF _ k] Cons.prems(1) n
    by (simp add: member_text_def [of kv] json_quote_def js_comma parse_quote_units [unfolded QUOTE_def] QUOTE_def)
qed

lemma update_new: "k \<notin> fst ` set m \<Longrightarrow> AList.update k v m = m @ [(k, v)]"
  by (induction m) auto

lemma object_of_distinct: "distinct (map fst kvs) \<Longrightarrow> object_of kvs = JObj kvs"
proof -
  have "distinct (map fst (m @ kvs)) \<Longrightarrow> fold (\<lambda>(k, v) m. AList.update k v m) kvs m = m @ kvs" for m
    by (induction kvs arbitrary: m) (auto simp: update_new)
  from this [of "[]"] show "distinct (map fst kvs) \<Longrightarrow> ?thesis" by (simp add: object_of_def)
qed

lemma expect_stringify:
  assumes "json_ok v" and "c \<notin> set ''{[tfn'' \<union> {CHR 0x22}"
  shows "expect (unit c) (stringify v @ r) = None"
proof -
  from stringify_head [OF assms(1)] obtain d s where "stringify v = unit d # s" "d \<in> set ''{[tfn'' \<union> {CHR 0x22}" .
  then show ?thesis using assms(2) by (auto simp: expect_unit)
qed

lemma parse_word:
  assumes "(js w, v) \<in> set json_words"
  shows "parse_value num (Suc n) (js w @ rest) = Some (v, rest)"
  using assms
  by (auto simp: json_words_def js_def unit_def [symmetric] parse_atom_def skip_def QUOTE_def)

lemma reads_word:
  assumes "(js w, v) \<in> set json_words" and "stringify v = js w"
  shows "reads_back num v"
  unfolding reads_back_def
proof (intro allI impI)
  fix n rest assume "2 * length (stringify v) + 1 \<le> n"
  then obtain k where "n = Suc k" by (cases n) auto
  then show "parse_value num n (stringify v @ rest) = Some (v, rest)"
    using parse_word [OF assms(1)] assms(2) by (simp only:)
qed

lemma reads_words: "reads_back num JNull" "reads_back num (JBool b)"
  using reads_word [of "''null''" JNull num] reads_word [of "''true''" "JBool True" num]
    reads_word [of "''false''" "JBool False" num]
  by (simp_all add: json_words_def) (cases b, simp_all)

lemma parse_stringify: "json_ok v \<Longrightarrow> reads_back num v"
proof (induction v rule: stringify.induct)
  case (4 s)
  have "parse_value num (Suc k) (stringify (JStr s) @ rest) = Some (JStr s, rest)" for k rest
    by (simp add: json_quote_def QUOTE_def parse_quote_units [unfolded QUOTE_def])
  then show ?case by (auto simp: reads_back_def dest: Suc_le_D)
next
  case (5 vs)
  show ?case unfolding reads_back_def
  proof (intro allI impI)
    fix n rest assume n: "2 * length (stringify (JArr vs)) + 1 \<le> n"
    then obtain k where k: "n = Suc k" by (cases n) auto
    show "parse_value num n (stringify (JArr vs) @ rest) = Some (JArr vs, rest)"
    proof (cases vs)
      case Nil
      then show ?thesis by (simp add: k js_comma)
    next
      case (Cons v ws)
      have r: "\<forall>v \<in> set (v # ws). reads_back num v" using 5 Cons by auto
      have h: "expect (unit (CHR '']'')) (join (js '','') (map stringify (v # ws)) @ t) = None" for t
        using expect_stringify [of v "CHR '']''"] 5(2) Cons by (cases ws) auto
      show ?thesis
        using parse_elements_join [OF r, of k rest] n h
        by (simp add: Cons k js_comma del: join.simps list.map)
    qed
  qed
next
  case (6 kvs)
  show ?case unfolding reads_back_def
  proof (intro allI impI)
    fix n rest assume n: "2 * length (stringify (JObj kvs)) + 1 \<le> n"
    then obtain k where k: "n = Suc k" by (cases n) auto
    have m: "map (\<lambda>kv. json_quote (fst kv) @ js '':'' @ stringify (snd kv)) kvs = map member_text kvs"
      by (simp add: member_text_def)
    show "parse_value num n (stringify (JObj kvs) @ rest) = Some (JObj kvs, rest)"
    proof (cases kvs)
      case Nil
      then show ?thesis by (simp add: k js_comma)
    next
      case (Cons kv kws)
      have r: "\<forall>kv \<in> set (kv # kws). reads_back num (snd kv)" using 6 Cons by auto
      have h: "expect (unit (CHR ''}'')) (join (js '','') (map member_text (kv # kws)) @ t) = None" for t
        by (cases kws) (simp_all add: member_text_def json_quote_def QUOTE_def)
      have d: "object_of (kv # kws) = JObj (kv # kws)" using 6(2) Cons by (intro object_of_distinct) auto
      show ?thesis
        using parse_members_join [OF r, of k rest] n h unfolding stringify.simps m
        by (simp add: Cons k js_comma d del: join.simps list.map)
    qed
  qed
qed (simp_all add: reads_words)

subsection \<open>The fuel is enough\<close>

lemma expect_shorter: "expect c s = Some r \<Longrightarrow> length r < length s"
proof -
  assume "expect c s = Some r"
  then obtain d where "dropWhile json_space s = d # r" by (auto simp: expect_def skip_def split: list.splits if_splits)
  then show ?thesis using length_dropWhile_le [of json_space s] by simp
qed

lemma bind_pair_Some:
  "(do { (a, b) \<leftarrow> m; f a b }) = Some y \<longleftrightarrow> (\<exists>a b. m = Some (a, b) \<and> f a b = Some y)"
  by (cases m) auto

lemma parse_chars_shorter: "parse_chars s = Some (t, r) \<Longrightarrow> length r < length s"
proof (induction s arbitrary: t r rule: parse_chars.induct)
  case (2 c s)
  then show ?case
    by (fastforce simp: bind_pair_Some bind_eq_Some_conv split: if_splits list.splits)
qed simp

lemma digits1_shorter: "digits1 s = Some (ds, r) \<Longrightarrow> length r < length s"
proof -
  assume "digits1 s = Some (ds, r)"
  then have "takeWhile is_digit s \<noteq> []" "r = dropWhile is_digit s" by (auto simp: digits1_def Let_def split: if_splits)
  then show ?thesis by (cases s) (auto simp: le_imp_less_Suc length_dropWhile_le split: if_splits)
qed

lemma lex_shorter:
  "lex_sign signs s = (sg, r) \<Longrightarrow> length r \<le> length s"
  "lex_int s = Some (i, r) \<Longrightarrow> length r < length s"
  "lex_frac s = Some (f, r) \<Longrightarrow> length r \<le> length s"
  by (auto simp: lex_sign_def lex_int_def lex_frac_def bind_pair_Some dest: digits1_shorter split: list.splits if_splits)

lemma lex_exp_shorter: "lex_exp s = Some (e, r) \<Longrightarrow> length r \<le> length s"
  by (fastforce simp: lex_exp_def bind_pair_Some dest: lex_shorter(1) digits1_shorter split: list.splits if_splits prod.splits)

lemma lex_number_shorter: "lex_number s = Some (n, r) \<Longrightarrow> length r < length s"
  by (fastforce simp: lex_number_def bind_pair_Some dest: lex_shorter lex_exp_shorter split: prod.splits)

lemma parse_atom_shorter: "parse_atom num s = Some (v, r) \<Longrightarrow> length r < length s"
  by (auto simp: parse_atom_def json_words_def bind_pair_Some dest: lex_number_shorter split: option.splits if_splits)
    (auto dest: arg_cong [where f = length])

lemma skip_shorter: "length (skip s) \<le> length s"
  by (simp add: skip_def length_dropWhile_le)

lemma parse_shorter:
  "(\<forall>s v r. parse_value num n s = Some (v, r) \<longrightarrow> length r < length s)
   \<and> (\<forall>s vs r. parse_elements num n s = Some (vs, r) \<longrightarrow> length r < length s)
   \<and> (\<forall>s kvs r. parse_members num n s = Some (kvs, r) \<longrightarrow> length r < length s)"
proof (induction n)
  case (Suc n)
  have v: "length r < length s" if "parse_value num (Suc n) s = Some (v, r)" for s v r
    using that Suc.IH skip_shorter [of s]
    by (fastforce simp: bind_pair_Some dest: expect_shorter parse_chars_shorter parse_atom_shorter split: option.splits)
  have e: "length r < length s" if "parse_elements num (Suc n) s = Some (vs, r)" for s vs r
    using that Suc.IH
    by (fastforce simp: bind_pair_Some bind_eq_Some_conv dest: expect_shorter split: option.splits)
  have m: "length r < length s" if "parse_members num (Suc n) s = Some (kvs, r)" for s kvs r
    using that Suc.IH
    by (fastforce simp: bind_pair_Some bind_eq_Some_conv dest: expect_shorter parse_chars_shorter split: option.splits)
  from v e m show ?case by blast
qed simp

lemma bind_cong_Some:
  "m = m' \<Longrightarrow> (\<And>x. m' = Some x \<Longrightarrow> f x = g x) \<Longrightarrow> Option.bind m f = Option.bind m' g"
  by (cases m') auto

lemma parse_value_fuel_Suc:
  "(\<forall>s. 2 * length s + 1 \<le> n \<longrightarrow> parse_value num (Suc n) s = parse_value num n s)
   \<and> (\<forall>s. 2 * length s + 2 \<le> n \<longrightarrow> parse_elements num (Suc n) s = parse_elements num n s)
   \<and> (\<forall>s. 2 * length s + 2 \<le> n \<longrightarrow> parse_members num (Suc n) s = parse_members num n s)"
proof (induction n)
  case (Suc n)
  have shorter: "length r1 < length s" if "parse_value num n s = Some (v, r)" "length r1 < length r" for s v r r1
    using parse_shorter [of num n] that by (meson less_trans)
  have v: "parse_value num (Suc (Suc n)) s = parse_value num (Suc n) s" if "2 * length s + 1 \<le> Suc n" for s
  proof -
    have "parse_members num (Suc n) r = parse_members num n r \<and> parse_elements num (Suc n) r = parse_elements num n r"
      if "expect c s = Some r" for c r
      using Suc.IH expect_shorter [OF that] \<open>2 * length s + 1 \<le> Suc n\<close> by simp
    then show ?thesis
      unfolding parse_value.simps by (intro option.case_cong refl) (auto split: option.splits)
  qed
  have e: "parse_elements num (Suc (Suc n)) s = parse_elements num (Suc n) s" if "2 * length s + 2 \<le> Suc n" for s
  proof -
    have "parse_value num (Suc n) s = parse_value num n s" using Suc.IH that by simp
    moreover have "parse_elements num (Suc n) r1 = parse_elements num n r1"
      if v: "parse_value num n s = Some (v, r)" and x: "expect c r = Some r1" for v r c r1
      using shorter [OF v expect_shorter [OF x]] \<open>2 * length s + 2 \<le> Suc n\<close> Suc.IH by simp
    ultimately show ?thesis
      by (cases "parse_value num n s") (auto split: option.splits)
  qed
  have m: "parse_members num (Suc (Suc n)) s = parse_members num (Suc n) s" if "2 * length s + 2 \<le> Suc n" for s
  proof -
    have "parse_value num (Suc n) r2 = parse_value num n r2 \<and> parse_members num (Suc n) r3 = parse_members num n r3"
      if x: "expect QUOTE s = Some r0" "parse_chars r0 = Some (k, r1)" "expect c r1 = Some r2"
        and v: "parse_value num n r2 = Some (v, r)" and y: "expect d r = Some r3" for r0 k r1 c r2 v r d r3
    proof -
      have "length r2 < length s"
        using expect_shorter [OF x(1)] parse_chars_shorter [OF x(2)] expect_shorter [OF x(3)] by linarith
      then show ?thesis
        using shorter [OF v expect_shorter [OF y]] \<open>2 * length s + 2 \<le> Suc n\<close> Suc.IH by simp
    qed
    moreover have "parse_value num (Suc n) r2 = parse_value num n r2"
      if x: "expect QUOTE s = Some r0" "parse_chars r0 = Some (k, r1)" "expect c r1 = Some r2" for r0 k r1 c r2
    proof -
      have "length r2 < length s"
        using expect_shorter [OF x(1)] parse_chars_shorter [OF x(2)] expect_shorter [OF x(3)] by linarith
      then show ?thesis using \<open>2 * length s + 2 \<le> Suc n\<close> Suc.IH by simp
    qed
    ultimately show ?thesis
      unfolding parse_members.simps
      by (intro bind_cong_Some refl) (auto intro!: bind_cong_Some split: option.splits)
  qed
  from v e m show ?case by blast
qed simp

lemma parse_value_fuel:
  assumes "2 * length s + 1 \<le> n"
  shows "parse_value num (n + k) s = parse_value num n s"
proof (induction k)
  case (Suc k)
  have "2 * length s + 1 \<le> n + k" using assms by simp
  with parse_value_fuel_Suc [of "n + k" num] have "parse_value num (Suc (n + k)) s = parse_value num (n + k) s" by blast
  with Suc show ?case by simp
qed simp

lemma json_parse_stringify:
  assumes "json_ok v"
  shows "json_parse num (stringify v) = Some v"
  using reads_backD [OF parse_stringify [OF assms], of "2 * length (stringify v) + 2" num "[]"]
  by (simp add: json_parse_def skip_def)

subsection \<open>Properties\<close>

text \<open>Text survives the wire.  For every value without numerals and with distinct keys, whatever
  its strings contain (quotes, control characters, lone surrogates), parsing the UTF-8 decoding of the
  UTF-8 encoding of its JSON text gives the value back.\<close>

theorem json_roundtrip:
  assumes "json_ok v"
  shows "json_parse num (utf8_decode (utf8_encode (stringify v))) = Some v"
  using assms by (simp add: utf8_roundtrip [OF wf_stringify] json_parse_stringify)

theorem json_roundtrip_witness:
  "json_parse id (utf8_decode (utf8_encode (stringify (JObj [(js ''a'', JStr [0xD800, 0x22, 0x0A]), (js ''b'', JArr [JNull, JBool True])]))))
     = Some (JObj [(js ''a'', JStr [0xD800, 0x22, 0x0A]), (js ''b'', JArr [JNull, JBool True])])"
  by (rule json_roundtrip) simp

text \<open>The parser always has enough fuel.  The number of nested calls that the length of the text
  allows is never the reason for a failure: any larger number gives the same result.\<close>

theorem json_parse_total:
  assumes "2 * length s + 2 \<le> n"
  shows "json_parse num s = (case parse_value num n s of None \<Rightarrow> None | Some (v, r) \<Rightarrow> if skip r = [] then Some v else None)"
proof -
  obtain k where "n = 2 * length s + 2 + k" using assms le_Suc_ex by blast
  then have "parse_value num n s = parse_value num (2 * length s + 2) s"
    using parse_value_fuel [of s "2 * length s + 2" num k] by simp
  then show ?thesis by (cases "parse_value num (2 * length s + 2) s") (auto simp: json_parse_def)
qed

theorem json_parse_total_witness:
  "json_parse id (js ''['') = None"
proof -
  have e: "expect c [] = None" for c by (simp add: expect_def skip_def)
  have a: "parse_atom id (skip []) = None"
    by (simp add: parse_atom_def skip_def json_words_def lex_number_def lex_sign_def lex_int_def)
  have "parse_value id (Suc (Suc (Suc (Suc 0)))) (js ''['') = None"
    by (simp add: js_single QUOTE_def e a)
  then show ?thesis using json_parse_total [of "js ''[''" "Suc (Suc (Suc (Suc 0)))" id] by (simp del: parse_value.simps)
qed

end
