(* ===== verification/ProtocolText.thy ===== *)
theory ProtocolText
  imports JsonText
begin

section \<open>The messages as text (frontend/types/protocol.ts, gateway/src/clientProtocol.ts)\<close>

text \<open>
  The two encoders and the browser's parser on JSON text.  \<open>server_json\<close> is the object literal
  of a server message with its member names; \<open>server_of_json\<close> reads the members the browser's
  handlers use back out of a value, by name.  The type tag and the kinds are strings.
\<close>

subsection \<open>Encoding\<close>

definition encodeOutbound :: "ClientMessage \<Rightarrow> jsstr" where
  "encodeOutbound message = stringify (outbound_json message)"

definition object :: "(string \<times> json) list \<Rightarrow> json" where
  "object kvs = JObj (map (\<lambda>(k, v). (js k, v)) kvs)"

fun text_or_null :: "jsstr option \<Rightarrow> json" where
  "text_or_null None = JNull"
| "text_or_null (Some s) = JStr s"

fun conversation_kind_name :: "ConversationKind \<Rightarrow> jsstr" where
  "conversation_kind_name KPublic = js ''public''"
| "conversation_kind_name KDirect = js ''direct''"
| "conversation_kind_name KGroup = js ''group''"

fun message_kind_name :: "MessageKind \<Rightarrow> jsstr" where
  "message_kind_name Chat = js ''chat''"
| "message_kind_name System = js ''system''"

definition user_json :: "UserSummary \<Rightarrow> json" where
  "user_json u = object [(''id'', JStr (us_id u)), (''username'', JStr (us_username u)),
     (''presence'', JStr (presence_name (us_presence u)))]"

definition conversation_json :: "ConversationSummary \<Rightarrow> json" where
  "conversation_json c = object [(''id'', JStr (cs_id c)), (''kind'', JStr (conversation_kind_name (cs_kind c))),
     (''title'', JStr (cs_title c)), (''memberIds'', JArr (map JStr (cs_memberIds c)))]"

definition message_json :: "MessageSummary \<Rightarrow> json" where
  "message_json m = object [(''id'', JStr (ms_id m)), (''conversationId'', JStr (ms_conversationId m)),
     (''kind'', JStr (message_kind_name (ms_kind m))), (''senderId'', text_or_null (ms_senderId m)),
     (''senderUsername'', text_or_null (ms_senderUsername m)), (''text'', JStr (ms_text m)),
     (''timestamp'', JStr (ms_timestamp m))]"

fun server_json :: "ServerMessage \<Rightarrow> json" where
  "server_json (SReady i n us cs ms) = tagged ''ready'' [(''userId'', JStr i), (''username'', JStr n),
     (''users'', JArr (map user_json us)), (''conversations'', JArr (map conversation_json cs)),
     (''messages'', JArr (map message_json ms))]"
| "server_json SLoggedOut = tagged ''loggedOut'' []"
| "server_json (SUserUpdate u) = tagged ''userUpdate'' [(''user'', user_json u)]"
| "server_json (SUserOffline i) = tagged ''userOffline'' [(''userId'', JStr i)]"
| "server_json (SConversationCreated c) = tagged ''conversationCreated'' [(''conversation'', conversation_json c)]"
| "server_json (SMessage m) = tagged ''message'' [(''message'', message_json m)]"
| "server_json (SError code text conversation) = tagged ''error'' ([(''code'', JStr code), (''message'', JStr text)]
     @ (case conversation of None \<Rightarrow> [] | Some i \<Rightarrow> [(''conversationId'', JStr i)]))"

definition encodeServerMessage :: "ServerMessage \<Rightarrow> jsstr" where
  "encodeServerMessage msg = stringify (server_json msg)"

subsection \<open>Decoding\<close>

text \<open>\<open>parseInbound\<close>: a value is taken for a server message if its \<open>type\<close> is a string.\<close>

definition parseInbound :: "(jsstr \<Rightarrow> jsstr) \<Rightarrow> jsstr \<Rightarrow> json option" where
  "parseInbound num data =
     (case json_parse num data of
        None \<Rightarrow> None
      | Some parsed \<Rightarrow>
          if is_object parsed then (case field parsed (js ''type'') of Some (JStr _) \<Rightarrow> Some parsed | _ \<Rightarrow> None)
          else None)"

text \<open>Reading a value at its static type: a member by its name, a text, a text or null, an
  array, a name of an enumeration.\<close>

fun text_of :: "json \<Rightarrow> jsstr option" where
  "text_of (JStr s) = Some s"
| "text_of _ = None"

fun nullable_of :: "json \<Rightarrow> jsstr option option" where
  "nullable_of JNull = Some None"
| "nullable_of (JStr s) = Some (Some s)"
| "nullable_of _ = None"

fun items_of :: "(json \<Rightarrow> 'a option) \<Rightarrow> json \<Rightarrow> 'a list option" where
  "items_of f (JArr vs) = those (map f vs)"
| "items_of f _ = None"

definition named_of :: "('a \<Rightarrow> jsstr) \<Rightarrow> 'a list \<Rightarrow> json \<Rightarrow> 'a option" where
  "named_of name xs v = do { s \<leftarrow> text_of v; find (\<lambda>x. name x = s) xs }"

definition member_of :: "string \<Rightarrow> (json \<Rightarrow> 'a option) \<Rightarrow> json \<Rightarrow> 'a option" where
  "member_of k f v = do { x \<leftarrow> field v (js k); f x }"

definition user_of_json :: "json \<Rightarrow> UserSummary option" where
  "user_of_json v = do { i \<leftarrow> member_of ''id'' text_of v; n \<leftarrow> member_of ''username'' text_of v;
     p \<leftarrow> member_of ''presence'' (named_of presence_name [Online, Away, Offline]) v;
     Some \<lparr>us_id = i, us_username = n, us_presence = p\<rparr> }"

definition conversation_of_json :: "json \<Rightarrow> ConversationSummary option" where
  "conversation_of_json v = do { i \<leftarrow> member_of ''id'' text_of v;
     k \<leftarrow> member_of ''kind'' (named_of conversation_kind_name [KPublic, KDirect, KGroup]) v;
     t \<leftarrow> member_of ''title'' text_of v; ms \<leftarrow> member_of ''memberIds'' (items_of text_of) v;
     Some \<lparr>cs_id = i, cs_kind = k, cs_title = t, cs_memberIds = ms\<rparr> }"

definition message_of_json :: "json \<Rightarrow> MessageSummary option" where
  "message_of_json v = do { i \<leftarrow> member_of ''id'' text_of v; c \<leftarrow> member_of ''conversationId'' text_of v;
     k \<leftarrow> member_of ''kind'' (named_of message_kind_name [Chat, System]) v;
     s \<leftarrow> member_of ''senderId'' nullable_of v; n \<leftarrow> member_of ''senderUsername'' nullable_of v;
     t \<leftarrow> member_of ''text'' text_of v; d \<leftarrow> member_of ''timestamp'' text_of v;
     Some \<lparr>ms_id = i, ms_conversationId = c, ms_kind = k, ms_senderId = s, ms_senderUsername = n,
           ms_text = t, ms_timestamp = d\<rparr> }"

definition server_of_json :: "json \<Rightarrow> ServerMessage option" where
  "server_of_json v = do { t \<leftarrow> member_of ''type'' text_of v;
     if t = js ''ready'' then do { i \<leftarrow> member_of ''userId'' text_of v; n \<leftarrow> member_of ''username'' text_of v;
         us \<leftarrow> member_of ''users'' (items_of user_of_json) v;
         cs \<leftarrow> member_of ''conversations'' (items_of conversation_of_json) v;
         ms \<leftarrow> member_of ''messages'' (items_of message_of_json) v; Some (SReady i n us cs ms) }
     else if t = js ''loggedOut'' then Some SLoggedOut
     else if t = js ''userUpdate'' then map_option SUserUpdate (member_of ''user'' user_of_json v)
     else if t = js ''userOffline'' then map_option SUserOffline (member_of ''userId'' text_of v)
     else if t = js ''conversationCreated'' then map_option SConversationCreated (member_of ''conversation'' conversation_of_json v)
     else if t = js ''message'' then map_option SMessage (member_of ''message'' message_of_json v)
     else if t = js ''error'' then do { c \<leftarrow> member_of ''code'' text_of v; m \<leftarrow> member_of ''message'' text_of v;
         Some (SError c m (member_of ''conversationId'' text_of v)) }
     else None }"

subsection \<open>Lemmas\<close>

lemmas read_defs = member_of_def named_of_def object_def tagged_def

lemma text_or_null_read [simp]: "nullable_of (text_or_null s) = Some s"
  by (cases s) simp_all

lemma json_ok_null [simp]: "json_ok (text_or_null s)"
  by (cases s) simp_all

lemma items_map: "(\<And>x. f (g x) = Some x) \<Longrightarrow> items_of f (JArr (map g xs)) = Some xs"
  by (induction xs) auto

lemma user_read [simp]: "user_of_json (user_json u) = Some u"
  by (cases u; cases "us_presence u") (simp_all add: user_of_json_def user_json_def read_defs)

lemma conversation_read [simp]: "conversation_of_json (conversation_json c) = Some c"
  by (cases c; cases "cs_kind c") (simp_all add: conversation_of_json_def conversation_json_def read_defs items_map del: items_of.simps)

lemma message_read [simp]: "message_of_json (message_json m) = Some m"
  by (cases m; cases "ms_kind m") (simp_all add: message_of_json_def message_json_def read_defs)

lemma parts_ok [simp]: "json_ok (user_json u)" "json_ok (conversation_json c)" "json_ok (message_json m)"
  by (auto simp: user_json_def conversation_json_def message_json_def object_def)

lemma server_read: "server_of_json (server_json m) = Some m"
  by (cases m) (auto simp: server_of_json_def read_defs items_map simp del: items_of.simps split: option.split)

lemma server_ok: "json_ok (server_json m)"
  by (cases m) (auto simp: tagged_def split: option.split)

lemma outbound_ok: "json_ok (outbound_json m)"
proof -
  have "json_ok (target_json t)" for t by (cases t) auto
  then show ?thesis by (cases m) (auto simp: tagged_def)
qed

lemma server_typed: "is_object (server_json m) \<and> (\<exists>t. field (server_json m) (js ''type'') = Some (JStr t))"
  by (cases m) (auto simp: tagged_def)

subsection \<open>Properties\<close>

text \<open>What the gateway says is what the browser hears.  The text of every server message, sent as
  UTF-8 and parsed by the browser, reads back as the same message, with every field of every
  user, conversation and stored message.\<close>

theorem server_message_roundtrip:
  "\<exists>parsed. parseInbound num (utf8_decode (utf8_encode (encodeServerMessage m))) = Some parsed
     \<and> server_of_json parsed = Some m"
proof (intro exI conjI)
  obtain t where "is_object (server_json m)" "field (server_json m) (js ''type'') = Some (JStr t)"
    using server_typed by blast
  then show "parseInbound num (utf8_decode (utf8_encode (encodeServerMessage m))) = Some (server_json m)"
    by (simp add: parseInbound_def encodeServerMessage_def utf8_roundtrip [OF wf_stringify] server_ok json_parse_stringify)
qed (rule server_read)

end
