(* ===== verification/ChatClient.thy ===== *)
theory ChatClient
  imports ChatState ProtocolText
begin

section \<open>The WebSocket client (frontend/lib/websocket-client.ts)\<close>

text \<open>
  One \<open>ThreadLinkClient\<close>: its fields, its operations and the handlers it installs on a
  socket.  Everything it does to the outside (callbacks of its owner, calls on the socket, timers) is
  appended to \<open>k_out\<close> in the order it happens.  Handlers of a socket that has been
  replaced are removed by \<open>closeSocket\<close>, so only the present socket can call back.
\<close>

subsection \<open>State\<close>

datatype SocketReady = SkConnecting | SkOpen | SkClosing | SkClosed

datatype ClientEffect =
    StatusChange ConnectionStatus
  | EventIn json
  | ErrorOut jsstr
  | NewSocket jsstr
  | SocketSend ClientMessage jsstr
  | SocketClose
  | SetTimeout nat
  | ClearTimeout

record ThreadLinkClient =
  k_socket :: "SocketReady option"
  k_url :: jsstr
  k_status :: ConnectionStatus
  k_reconnectEnabled :: bool
  k_maxReconnectAttempts :: nat
  k_reconnectAttempts :: nat
  k_reconnectTimer :: "nat option"
  k_intentionalClose :: bool
  k_out :: "ClientEffect list"

text \<open>The options \<open>reconnect\<close> and \<open>maxReconnectAttempts\<close> may be left out.\<close>

definition new_client :: "jsstr \<Rightarrow> bool option \<Rightarrow> nat option \<Rightarrow> ThreadLinkClient" where
  "new_client url reconnect attempts =
     \<lparr>k_socket = None, k_url = url, k_status = Idle,
      k_reconnectEnabled = (case reconnect of None \<Rightarrow> True | Some b \<Rightarrow> b),
      k_maxReconnectAttempts = (case attempts of None \<Rightarrow> 5 | Some n \<Rightarrow> n),
      k_reconnectAttempts = 0, k_reconnectTimer = None, k_intentionalClose = False, k_out = []\<rparr>"

definition does :: "ClientEffect \<Rightarrow> ThreadLinkClient \<Rightarrow> ThreadLinkClient" where
  "does e c = c\<lparr>k_out := k_out c @ [e]\<rparr>"

subsection \<open>Operations\<close>

definition setStatus :: "ConnectionStatus \<Rightarrow> ThreadLinkClient \<Rightarrow> ThreadLinkClient" where
  "setStatus s c = does (StatusChange s) (c\<lparr>k_status := s\<rparr>)"

definition clearReconnectTimer :: "ThreadLinkClient \<Rightarrow> ThreadLinkClient" where
  "clearReconnectTimer c =
     (if k_reconnectTimer c \<noteq> None then (does ClearTimeout c)\<lparr>k_reconnectTimer := None\<rparr> else c)"

definition closeSocket :: "bool \<Rightarrow> ThreadLinkClient \<Rightarrow> ThreadLinkClient" where
  "closeSocket updateStatus c =
     (case k_socket c of
        None \<Rightarrow> c
      | Some readyState \<Rightarrow>
          (let c1 = c\<lparr>k_socket := None\<rparr>;
               c2 = (if readyState = SkOpen \<or> readyState = SkConnecting then does SocketClose c1 else c1)
           in if updateStatus \<and> k_status c2 \<noteq> StFailed then setStatus Disconnected c2 else c2))"

text \<open>\<open>new WebSocket(url)\<close> throws for an address it does not accept: \<open>refused\<close> is the
  text of that error.\<close>

definition client_connect :: "jsstr option \<Rightarrow> ThreadLinkClient \<Rightarrow> ThreadLinkClient" where
  "client_connect refused c =
     (let c1 = closeSocket False (clearReconnectTimer (c\<lparr>k_intentionalClose := False\<rparr>));
          c2 = setStatus StConnecting c1
      in case refused of
           Some e \<Rightarrow> does (ErrorOut e) (setStatus StFailed c2)
         | None \<Rightarrow> (does (NewSocket (k_url c2)) c2)\<lparr>k_socket := Some SkConnecting\<rparr>)"

definition disconnect :: "ThreadLinkClient \<Rightarrow> ThreadLinkClient" where
  "disconnect c = setStatus Disconnected (closeSocket True (clearReconnectTimer (c\<lparr>k_intentionalClose := True\<rparr>)))"

definition isConnected :: "ThreadLinkClient \<Rightarrow> bool" where
  "isConnected c \<longleftrightarrow> k_status c = Connected \<and> k_socket c = Some SkOpen"

text \<open>\<open>send\<close>, which all the message methods call with their message: whether it was sent.\<close>

definition client_send :: "ClientMessage \<Rightarrow> ThreadLinkClient \<Rightarrow> ThreadLinkClient \<times> bool" where
  "client_send message c =
     (if k_socket c \<noteq> Some SkOpen then (does (ErrorOut (js ''Not connected to gateway'')) c, False)
      else (does (SocketSend message (encodeOutbound message)) c, True))"

text \<open>The methods of the client; each sends one message.\<close>

definition client_setNickname :: "jsstr \<Rightarrow> ThreadLinkClient \<Rightarrow> ThreadLinkClient \<times> bool" where
  "client_setNickname nickname = client_send (SetNickname nickname)"

definition client_register :: "jsstr \<Rightarrow> jsstr \<Rightarrow> ThreadLinkClient \<Rightarrow> ThreadLinkClient \<times> bool" where
  "client_register username password = client_send (Register username password)"

definition client_login :: "jsstr \<Rightarrow> jsstr \<Rightarrow> ThreadLinkClient \<Rightarrow> ThreadLinkClient \<times> bool" where
  "client_login username password = client_send (Login username password)"

definition client_logout :: "ThreadLinkClient \<Rightarrow> ThreadLinkClient \<times> bool" where
  "client_logout = client_send Logout"

definition client_sendMessage :: "MessageTarget \<Rightarrow> jsstr \<Rightarrow> ThreadLinkClient \<Rightarrow> ThreadLinkClient \<times> bool" where
  "client_sendMessage target content = client_send (SendMessage target content)"

definition client_createGroup :: "jsstr \<Rightarrow> jsstr list \<Rightarrow> ThreadLinkClient \<Rightarrow> ThreadLinkClient \<times> bool" where
  "client_createGroup name memberIds = client_send (CreateGroup name memberIds)"

definition client_setPresence :: "Presence \<Rightarrow> ThreadLinkClient \<Rightarrow> ThreadLinkClient \<times> bool" where
  "client_setPresence x = client_send (SetPresence x)"

definition client_requestState :: "ThreadLinkClient \<Rightarrow> ThreadLinkClient \<times> bool" where
  "client_requestState = client_send RequestState"

lemmas client_methods [simp] = client_setNickname_def client_register_def client_login_def client_logout_def
  client_sendMessage_def client_createGroup_def client_setPresence_def client_requestState_def

definition backoff :: "nat \<Rightarrow> nat" where
  "backoff attempts = min (1000 * 2 ^ (attempts - 1)) 10000"

definition scheduleReconnect :: "ThreadLinkClient \<Rightarrow> ThreadLinkClient" where
  "scheduleReconnect c =
     (let c1 = setStatus Reconnecting c;
          c2 = c1\<lparr>k_reconnectAttempts := k_reconnectAttempts c1 + 1\<rparr>;
          delay = backoff (k_reconnectAttempts c2)
      in (does (SetTimeout delay) c2)\<lparr>k_reconnectTimer := Some delay\<rparr>)"

subsection \<open>The handlers of the socket and the timer\<close>

definition onopen :: "ThreadLinkClient \<Rightarrow> ThreadLinkClient" where
  "onopen c = setStatus Connected (c\<lparr>k_reconnectAttempts := 0\<rparr>)"

text \<open>The data of a binary message is not a string: \<open>None\<close>.\<close>

definition onmessage :: "(jsstr \<Rightarrow> jsstr) \<Rightarrow> jsstr option \<Rightarrow> ThreadLinkClient \<Rightarrow> ThreadLinkClient" where
  "onmessage num data c =
     (let payload = (case data of None \<Rightarrow> [] | Some s \<Rightarrow> s) in
      if payload = [] then c
      else (case parseInbound num payload of None \<Rightarrow> c | Some parsed \<Rightarrow> does (EventIn parsed) c))"

definition onerror :: "ThreadLinkClient \<Rightarrow> ThreadLinkClient" where
  "onerror c = does (ErrorOut (js ''WebSocket connection error''))
     (if k_status c = StConnecting then setStatus StFailed c else c)"

definition onclose :: "ThreadLinkClient \<Rightarrow> ThreadLinkClient" where
  "onclose c =
     (let c1 = c\<lparr>k_socket := None\<rparr> in
      if k_intentionalClose c1 then setStatus Disconnected c1
      else if k_reconnectEnabled c1 \<and> k_reconnectAttempts c1 < k_maxReconnectAttempts c1 then scheduleReconnect c1
      else setStatus (if k_reconnectAttempts c1 > 0 then StFailed else Disconnected) c1)"

subsection \<open>The client as a step relation\<close>

text \<open>
  What can happen to a client: its owner calls an operation, the socket opens, brings a message,
  fails, starts to close or has closed, the timer fires.  The browser fires \<open>error\<close> when a
  connection fails or breaks, with the socket closed already, and \<open>close\<close> last.
\<close>

inductive client_event :: "(jsstr \<Rightarrow> jsstr) \<Rightarrow> ThreadLinkClient \<Rightarrow> ThreadLinkClient \<Rightarrow> bool" for num where
  ev_open: "k_socket c = Some SkConnecting \<Longrightarrow> client_event num c (onopen (c\<lparr>k_socket := Some SkOpen\<rparr>))"
| ev_message: "k_socket c = Some SkOpen \<Longrightarrow> client_event num c (onmessage num data c)"
| ev_closing: "k_socket c = Some SkOpen \<Longrightarrow> client_event num c (c\<lparr>k_socket := Some SkClosing\<rparr>)"
| ev_error: "k_socket c \<in> {Some SkConnecting, Some SkOpen, Some SkClosing} \<Longrightarrow>
    client_event num c (onerror (c\<lparr>k_socket := Some SkClosed\<rparr>))"
| ev_close: "k_socket c \<in> {Some SkOpen, Some SkClosing, Some SkClosed} \<Longrightarrow> client_event num c (onclose c)"
| ev_timer: "k_reconnectTimer c \<noteq> None \<Longrightarrow> client_event num c (client_connect refused c)"

inductive client_step :: "(jsstr \<Rightarrow> jsstr) \<Rightarrow> ThreadLinkClient \<Rightarrow> ThreadLinkClient \<Rightarrow> bool" for num where
  by_environment: "client_event num c d \<Longrightarrow> client_step num c d"
| call_connect: "client_step num c (client_connect refused c)"
| call_disconnect: "client_step num c (disconnect c)"
| call_send: "client_step num c (fst (client_send message c))"

inductive_cases client_eventE: "client_event num c d"
inductive_cases client_stepE: "client_step num c d"

subsection \<open>Effects of the operations\<close>

lemma does_fields [simp]:
  "k_socket (does e c) = k_socket c" "k_url (does e c) = k_url c" "k_status (does e c) = k_status c"
  "k_reconnectEnabled (does e c) = k_reconnectEnabled c" "k_maxReconnectAttempts (does e c) = k_maxReconnectAttempts c"
  "k_reconnectAttempts (does e c) = k_reconnectAttempts c" "k_reconnectTimer (does e c) = k_reconnectTimer c"
  "k_intentionalClose (does e c) = k_intentionalClose c" "k_out (does e c) = k_out c @ [e]"
  by (simp_all add: does_def)

lemma setStatus_fields [simp]:
  "k_socket (setStatus s c) = k_socket c" "k_url (setStatus s c) = k_url c" "k_status (setStatus s c) = s"
  "k_reconnectEnabled (setStatus s c) = k_reconnectEnabled c" "k_maxReconnectAttempts (setStatus s c) = k_maxReconnectAttempts c"
  "k_reconnectAttempts (setStatus s c) = k_reconnectAttempts c" "k_reconnectTimer (setStatus s c) = k_reconnectTimer c"
  "k_intentionalClose (setStatus s c) = k_intentionalClose c" "k_out (setStatus s c) = k_out c @ [StatusChange s]"
  by (simp_all add: setStatus_def)

lemma clearTimer_fields [simp]:
  "k_socket (clearReconnectTimer c) = k_socket c" "k_url (clearReconnectTimer c) = k_url c" "k_status (clearReconnectTimer c) = k_status c"
  "k_reconnectEnabled (clearReconnectTimer c) = k_reconnectEnabled c"
  "k_maxReconnectAttempts (clearReconnectTimer c) = k_maxReconnectAttempts c"
  "k_reconnectAttempts (clearReconnectTimer c) = k_reconnectAttempts c" "k_reconnectTimer (clearReconnectTimer c) = None"
  "k_intentionalClose (clearReconnectTimer c) = k_intentionalClose c"
  by (simp_all add: clearReconnectTimer_def)

lemma closeSocket_fields [simp]:
  "k_socket (closeSocket u c) = None" "k_url (closeSocket u c) = k_url c"
  "k_reconnectEnabled (closeSocket u c) = k_reconnectEnabled c" "k_maxReconnectAttempts (closeSocket u c) = k_maxReconnectAttempts c"
  "k_reconnectAttempts (closeSocket u c) = k_reconnectAttempts c" "k_reconnectTimer (closeSocket u c) = k_reconnectTimer c"
  "k_intentionalClose (closeSocket u c) = k_intentionalClose c"
  by (auto simp: closeSocket_def Let_def split: option.split)

text \<open>The delays of the timers that a sequence of effects sets.\<close>

fun delay_of :: "ClientEffect \<Rightarrow> nat list" where
  "delay_of (SetTimeout d) = [d]"
| "delay_of _ = []"

definition delays :: "ClientEffect list \<Rightarrow> nat list" where
  "delays es = concat (map delay_of es)"

lemma delays_simps [simp]: "delays [] = []" "delays (es @ fs) = delays es @ delays fs" "delays (e # es) = delay_of e @ delays es"
  by (simp_all add: delays_def)

lemma delays_clear [simp]: "delays (k_out (clearReconnectTimer c)) = delays (k_out c)"
  by (simp add: clearReconnectTimer_def)

lemma delays_close [simp]: "delays (k_out (closeSocket u c)) = delays (k_out c)"
  by (simp add: closeSocket_def Let_def split: option.split)

lemma connect_fields [simp]:
  "k_socket (client_connect refused c) = (if refused = None then Some SkConnecting else None)"
  "k_status (client_connect refused c) = (if refused = None then StConnecting else StFailed)"
  "k_reconnectEnabled (client_connect refused c) = k_reconnectEnabled c"
  "k_maxReconnectAttempts (client_connect refused c) = k_maxReconnectAttempts c"
  "k_reconnectAttempts (client_connect refused c) = k_reconnectAttempts c" "k_reconnectTimer (client_connect refused c) = None"
  "\<not> k_intentionalClose (client_connect refused c)" "delays (k_out (client_connect refused c)) = delays (k_out c)"
  by (simp_all add: client_connect_def Let_def split: option.split)

lemma disconnect_fields [simp]:
  "k_socket (disconnect c) = None" "k_status (disconnect c) = Disconnected" "k_reconnectTimer (disconnect c) = None"
  "k_intentionalClose (disconnect c)" "k_reconnectAttempts (disconnect c) = k_reconnectAttempts c"
  "k_maxReconnectAttempts (disconnect c) = k_maxReconnectAttempts c" "delays (k_out (disconnect c)) = delays (k_out c)"
  by (simp_all add: disconnect_def)

lemma schedule_fields [simp]:
  "k_socket (scheduleReconnect c) = k_socket c" "k_status (scheduleReconnect c) = Reconnecting"
  "k_reconnectEnabled (scheduleReconnect c) = k_reconnectEnabled c"
  "k_maxReconnectAttempts (scheduleReconnect c) = k_maxReconnectAttempts c"
  "k_reconnectAttempts (scheduleReconnect c) = Suc (k_reconnectAttempts c)"
  "k_reconnectTimer (scheduleReconnect c) = Some (backoff (Suc (k_reconnectAttempts c)))"
  "k_intentionalClose (scheduleReconnect c) = k_intentionalClose c"
  "delays (k_out (scheduleReconnect c)) = delays (k_out c) @ [backoff (Suc (k_reconnectAttempts c))]"
  by (simp_all add: scheduleReconnect_def Let_def)

subsection \<open>The invariant\<close>

definition client_inv :: "ThreadLinkClient \<Rightarrow> bool" where
  "client_inv c \<longleftrightarrow>
     (k_reconnectTimer c \<noteq> None \<longrightarrow> k_socket c = None \<and> k_status c = Reconnecting \<and> 0 < k_reconnectAttempts c
        \<and> k_reconnectTimer c = Some (backoff (k_reconnectAttempts c)))
     \<and> (k_status c = Reconnecting \<longrightarrow> k_reconnectTimer c \<noteq> None)
     \<and> (k_status c = StConnecting \<longleftrightarrow> k_socket c = Some SkConnecting)
     \<and> (k_socket c \<in> {Some SkOpen, Some SkClosing} \<longrightarrow> k_status c = Connected)
     \<and> (k_status c = Connected \<longrightarrow> k_socket c \<noteq> None)
     \<and> k_reconnectAttempts c \<le> k_maxReconnectAttempts c
     \<and> (k_intentionalClose c \<longrightarrow> k_socket c = None \<and> k_reconnectTimer c = None \<and> k_status c = Disconnected)
     \<and> (\<forall>d \<in> set (delays (k_out c)). 1000 \<le> d \<and> d \<le> 10000)"

lemma backoff_bounds: "1000 \<le> backoff n \<and> backoff n \<le> 10000"
  by (simp add: backoff_def)

lemma inv_does: "delay_of e = [] \<Longrightarrow> client_inv (does e c) = client_inv c"
  unfolding client_inv_def by (simp only: does_fields delays_simps append_Nil append_Nil2)

lemma inv_bounds: "client_inv c \<Longrightarrow> k_reconnectAttempts c \<le> k_maxReconnectAttempts c"
  "client_inv c \<Longrightarrow> \<forall>d \<in> set (delays (k_out c)). 1000 \<le> d \<and> d \<le> 10000"
  unfolding client_inv_def by blast+

lemma socket_idle:
  assumes "client_inv c" and "k_socket c \<noteq> None"
  shows "k_reconnectTimer c = None" "\<not> k_intentionalClose c" "k_status c \<noteq> Reconnecting"
  using assms unfolding client_inv_def by blast+

lemma inv_onopen:
  assumes "client_inv c" and "k_socket c = Some SkConnecting"
  shows "client_inv (onopen (c\<lparr>k_socket := Some SkOpen\<rparr>))"
proof -
  have "k_socket c \<noteq> None" by (simp add: assms(2))
  from socket_idle [OF assms(1) this] inv_bounds [OF assms(1)] show ?thesis
    by (simp add: client_inv_def onopen_def)
qed

lemma inv_onmessage: "client_inv c \<Longrightarrow> client_inv (onmessage num data c)"
  unfolding onmessage_def Let_def by (simp (no_asm_simp) add: inv_does split: option.split)

lemma inv_onerror:
  assumes "client_inv c" and "k_socket c \<noteq> None"
  shows "client_inv (onerror (c\<lparr>k_socket := Some SkClosed\<rparr>))"
  using socket_idle [OF assms] inv_bounds [OF assms(1)] by (simp add: client_inv_def onerror_def)

lemma inv_onclose:
  assumes "client_inv c" and "k_socket c \<noteq> None"
  shows "client_inv (onclose c)"
  using socket_idle [OF assms] inv_bounds [OF assms(1)] backoff_bounds
  by (simp add: client_inv_def onclose_def Let_def)

lemma inv_closing:
  assumes "client_inv c" and "k_socket c = Some SkOpen"
  shows "client_inv (c\<lparr>k_socket := Some SkClosing\<rparr>)"
proof -
  have "k_socket c \<noteq> None" "k_status c = Connected" using assms unfolding client_inv_def by blast+
  with socket_idle [OF assms(1)] inv_bounds [OF assms(1)] show ?thesis by (simp add: client_inv_def)
qed

lemma inv_connect: "client_inv c \<Longrightarrow> client_inv (client_connect refused c)"
  unfolding client_inv_def by (simp (no_asm)) blast

lemma inv_disconnect: "client_inv c \<Longrightarrow> client_inv (disconnect c)"
  unfolding client_inv_def by (simp (no_asm)) blast

lemma inv_send: "client_inv c \<Longrightarrow> client_inv (fst (client_send message c))"
  by (simp add: client_send_def inv_does)

lemma client_event_inv: "client_event num c d \<Longrightarrow> client_inv c \<Longrightarrow> client_inv d"
  by (induction rule: client_event.induct)
    (auto intro: inv_onopen inv_onmessage inv_onerror inv_onclose inv_connect inv_closing)

lemma client_step_inv: "client_inv c \<Longrightarrow> client_step num c d \<Longrightarrow> client_inv d"
  by (erule client_stepE) (auto intro: client_event_inv inv_connect inv_disconnect inv_send)

definition client_init :: "ThreadLinkClient \<Rightarrow> bool" where
  "client_init c \<longleftrightarrow> (\<exists>url reconnect attempts. c = new_client url reconnect attempts)"

lemma client_init_inv: "client_init c \<Longrightarrow> client_inv c"
  by (auto simp: client_init_def client_inv_def new_client_def)

interpretation client: invariant_system client_init "client_step num" client_inv for num
  by unfold_locales (rule client_init_inv, assumption, rule client_step_inv)

subsection \<open>Retrying ends\<close>

text \<open>The steps of a client that is left alone while no connection succeeds.\<close>

inductive retry_step :: "ThreadLinkClient \<Rightarrow> ThreadLinkClient \<Rightarrow> bool" where
  retry_closing: "k_socket c = Some SkOpen \<Longrightarrow> retry_step c (c\<lparr>k_socket := Some SkClosing\<rparr>)"
| retry_error: "k_socket c \<in> {Some SkConnecting, Some SkOpen, Some SkClosing} \<Longrightarrow>
    retry_step c (onerror (c\<lparr>k_socket := Some SkClosed\<rparr>))"
| retry_close: "k_socket c \<in> {Some SkOpen, Some SkClosing, Some SkClosed} \<Longrightarrow> retry_step c (onclose c)"
| retry_timer: "k_reconnectTimer c \<noteq> None \<Longrightarrow> retry_step c (client_connect refused c)"

fun socket_rank :: "SocketReady option \<Rightarrow> nat" where
  "socket_rank None = 0"
| "socket_rank (Some SkConnecting) = 3"
| "socket_rank (Some SkOpen) = 3"
| "socket_rank (Some SkClosing) = 2"
| "socket_rank (Some SkClosed) = 1"

definition retry_rank :: "ThreadLinkClient \<Rightarrow> nat" where
  "retry_rank c = 5 * (k_maxReconnectAttempts c - k_reconnectAttempts c)
     + (if k_reconnectTimer c = None then 0 else 4) + socket_rank (k_socket c)"

lemma retry_client_event: "retry_step c d \<Longrightarrow> client_event num c d"
  by (induction rule: retry_step.induct) (auto intro: client_event.intros)

lemma retry_decreases: "retry_step c d \<Longrightarrow> retry_rank d < retry_rank c"
proof (induction rule: retry_step.induct)
  case (retry_close c)
  have "Suc (k_maxReconnectAttempts c - Suc (k_reconnectAttempts c)) = k_maxReconnectAttempts c - k_reconnectAttempts c"
    if "k_reconnectAttempts c < k_maxReconnectAttempts c" using that by simp
  with retry_close show ?case by (auto simp: retry_rank_def onclose_def Let_def)
qed (auto simp: retry_rank_def onerror_def)

lemma retry_bounded: "(retry_step ^^ n) c d \<Longrightarrow> n + retry_rank d \<le> retry_rank c"
proof (induction n arbitrary: d)
  case (Suc n)
  then obtain e where "(retry_step ^^ n) c e" "retry_step e d" by auto
  with Suc.IH [of e] retry_decreases [of e d] show ?case by simp
qed simp

lemma retry_run_steps: "(retry_step ^^ n) c d \<Longrightarrow> (client_step num)\<^sup>*\<^sup>* c d"
proof (induction n arbitrary: d)
  case (Suc n)
  then obtain e where "(client_step num)\<^sup>*\<^sup>* c e" "retry_step e d" by auto
  then show ?case
    using by_environment [OF retry_client_event] by (metis rtranclp.rtrancl_into_rtrancl)
qed simp

lemma retry_stuck: "(\<nexists>d. retry_step c d) \<Longrightarrow> k_socket c = None \<and> k_reconnectTimer c = None"
proof -
  assume s: "\<nexists>d. retry_step c d"
  have "k_reconnectTimer c = None" using s retry_timer by blast
  moreover have "k_socket c = None"
  proof (cases "k_socket c")
    case (Some st)
    then show ?thesis using s retry_error [of c] retry_close [of c] by (cases st) auto
  qed
  ultimately show ?thesis by simp
qed

subsection \<open>Properties\<close>

text \<open>C14: The client's fields always agree.  In every reachable state a reconnect timer is pending
  exactly while the status is "reconnecting", and then there is no socket; messages can be sent
  exactly when the status is "connected" and the socket is open; the attempts never exceed
  their limit, and every delay that was ever set lies between one and ten seconds.\<close>

theorem client_consistent:
  assumes "client_init c0" and "(client_step num)\<^sup>*\<^sup>* c0 c"
  shows "(k_reconnectTimer c \<noteq> None \<longleftrightarrow> k_status c = Reconnecting)
    \<and> (k_reconnectTimer c \<noteq> None \<longrightarrow> k_socket c = None)
    \<and> (isConnected c \<longleftrightarrow> k_socket c = Some SkOpen)
    \<and> k_reconnectAttempts c \<le> k_maxReconnectAttempts c
    \<and> (\<forall>d \<in> set (delays (k_out c)). 1000 \<le> d \<and> d \<le> 10000)"
proof -
  have "client_inv c" using client.inv_reachable [OF assms] .
  then show ?thesis unfolding client_inv_def isConnected_def by blast
qed

theorem client_consistent_witness:
  "isConnected (onopen ((client_connect None (new_client (js ''ws:'') None None))\<lparr>k_socket := Some SkOpen\<rparr>))"
proof -
  let ?start = "new_client (js ''ws:'') None None"
  have i: "client_init ?start" by (auto simp: client_init_def)
  have "client_step id ?start (client_connect None ?start)" by (rule call_connect)
  moreover have "client_step id (client_connect None ?start) (onopen ((client_connect None ?start)\<lparr>k_socket := Some SkOpen\<rparr>))"
    by (intro by_environment ev_open) simp
  ultimately have r: "(client_step id)\<^sup>*\<^sup>* ?start (onopen ((client_connect None ?start)\<lparr>k_socket := Some SkOpen\<rparr>))"
    by (meson rtranclp.rtrancl_into_rtrancl rtranclp.rtrancl_refl)
  from client_consistent [OF i r] show ?thesis by (simp add: onopen_def)
qed

text \<open>C16: Reconnecting gives up.  However the attempts fail, a client that is left alone and never
  gets through makes at most five steps for each attempt it has left (and seven more), and when
  it stops it has no socket and no timer and reports neither a connection nor an attempt.\<close>

theorem reconnecting_terminates:
  assumes "client_init c0" and "(client_step num)\<^sup>*\<^sup>* c0 c" and "(retry_step ^^ n) c d"
  shows "n \<le> 5 * (k_maxReconnectAttempts c - k_reconnectAttempts c) + 7
    \<and> ((\<nexists>e. retry_step d e) \<longrightarrow> k_socket d = None \<and> k_reconnectTimer d = None \<and> k_status d \<notin> {Connected, StConnecting, Reconnecting})"
proof -
  have "socket_rank (k_socket c) \<le> 3" by (cases "k_socket c" rule: socket_rank.cases) auto
  then have "retry_rank c \<le> 5 * (k_maxReconnectAttempts c - k_reconnectAttempts c) + 7"
    by (simp add: retry_rank_def)
  then have "n \<le> 5 * (k_maxReconnectAttempts c - k_reconnectAttempts c) + 7"
    using retry_bounded [OF assms(3)] by linarith
  moreover have "(client_step num)\<^sup>*\<^sup>* c0 d" using assms(2) retry_run_steps [OF assms(3)] by (rule rtranclp_trans)
  then have i: "client_inv d" using client.inv_reachable [OF assms(1)] by blast
  have "k_status d \<notin> {Connected, StConnecting, Reconnecting}" if "k_socket d = None" "k_reconnectTimer d = None"
    using i that by (simp add: client_inv_def)
  ultimately show ?thesis using retry_stuck [of d] by simp
qed

theorem reconnecting_terminates_witness:
  "\<exists>d. (retry_step ^^ 2) (client_connect None (new_client (js ''ws:'') None (Some 0))) d \<and> k_status d = Disconnected \<and> (\<nexists>e. retry_step d e)"
proof -
  let ?start = "new_client (js ''ws:'') None (Some 0)"
  let ?c = "client_connect None ?start"
  let ?e = "onerror (?c\<lparr>k_socket := Some SkClosed\<rparr>)"
  have i: "client_init ?start" by (auto simp: client_init_def)
  have r: "(client_step id)\<^sup>*\<^sup>* ?start ?c" by (meson call_connect r_into_rtranclp)
  have e1: "retry_step ?c ?e" by (rule retry_error) simp
  have e2: "retry_step ?e (onclose ?e)" by (rule retry_close) (simp add: onerror_def)
  have n: "(retry_step ^^ 2) ?c (onclose ?e)"
    using e1 e2 by (auto simp: numeral_2_eq_2)
  have d: "k_socket (onclose ?e) = None" "k_reconnectTimer (onclose ?e) = None" "k_status (onclose ?e) = Disconnected"
    by (simp_all add: onclose_def Let_def onerror_def new_client_def)
  have "\<nexists>e. retry_step (onclose ?e) e"
    using d by (auto elim: retry_step.cases)
  then show ?thesis using reconnecting_terminates [OF i r n] n d by blast
qed

text \<open>An attempt that fails: the timer fires, the new socket reports an error and closes.\<close>

definition failed_attempt :: "ThreadLinkClient \<Rightarrow> ThreadLinkClient" where
  "failed_attempt c = onclose (onerror ((client_connect None c)\<lparr>k_socket := Some SkClosed\<rparr>))"

lemma failed_attempt_fields:
  "k_reconnectEnabled (failed_attempt c) = k_reconnectEnabled c"
  "k_maxReconnectAttempts (failed_attempt c) = k_maxReconnectAttempts c" "k_socket (failed_attempt c) = None"
  "\<not> k_intentionalClose (failed_attempt c)"
  by (simp_all add: failed_attempt_def onclose_def onerror_def Let_def)

lemma failed_attempt_retries:
  assumes "k_reconnectEnabled c" and "k_reconnectAttempts c < k_maxReconnectAttempts c"
  shows "k_reconnectAttempts (failed_attempt c) = Suc (k_reconnectAttempts c)" "k_status (failed_attempt c) = Reconnecting"
    "k_reconnectTimer (failed_attempt c) = Some (backoff (Suc (k_reconnectAttempts c)))"
    "delays (k_out (failed_attempt c)) = delays (k_out c) @ [backoff (Suc (k_reconnectAttempts c))]"
  using assms by (simp_all add: failed_attempt_def onclose_def onerror_def Let_def)

lemma failed_attempts:
  assumes "k_reconnectEnabled c" and "k_reconnectAttempts c + n \<le> k_maxReconnectAttempts c"
  shows "k_reconnectAttempts ((failed_attempt ^^ n) c) = k_reconnectAttempts c + n
    \<and> k_reconnectEnabled ((failed_attempt ^^ n) c) \<and> k_maxReconnectAttempts ((failed_attempt ^^ n) c) = k_maxReconnectAttempts c
    \<and> delays (k_out ((failed_attempt ^^ n) c)) = delays (k_out c)
        @ map (\<lambda>i. backoff (k_reconnectAttempts c + i)) [1..<Suc n]"
  using assms(2)
proof (induction n)
  case (Suc n)
  then show ?case
    using failed_attempt_retries [of "(failed_attempt ^^ n) c"] by (simp add: failed_attempt_fields)
qed (simp add: assms(1))

text \<open>C18: The schedule of a lost connection.  When an open connection breaks and every attempt to
  restore it fails, the client waits before the i-th attempt for the lesser of ten seconds
  and one second doubled i - 1 times, makes exactly its maximal number of attempts, and ends in
  status "failed" with no timer.\<close>

theorem reconnect_schedule:
  assumes "client_inv c" and "k_socket c = Some SkOpen" and "k_reconnectAttempts c = 0" and "k_reconnectEnabled c"
    and "0 < k_maxReconnectAttempts c" and "lost = onclose c" and "gone = (failed_attempt ^^ k_maxReconnectAttempts c) lost"
  shows "delays (k_out gone) = delays (k_out c) @ map (\<lambda>i. min (1000 * 2 ^ (i - 1)) 10000) [1..<Suc (k_maxReconnectAttempts c)]
    \<and> k_status gone = StFailed \<and> k_reconnectTimer gone = None \<and> k_socket gone = None"
proof -
  let ?n = "k_maxReconnectAttempts c"
  have "\<not> k_intentionalClose c" using assms(1,2) unfolding client_inv_def by (metis option.distinct(1))
  then have l: "k_reconnectEnabled lost" "k_reconnectAttempts lost = 1" "k_maxReconnectAttempts lost = ?n"
    "delays (k_out lost) = delays (k_out c) @ [backoff 1]"
    using assms(3-5) by (simp_all add: assms(6) onclose_def Let_def)
  obtain k where k: "?n = Suc k" using assms(5) gr0_implies_Suc by blast
  let ?last = "(failed_attempt ^^ k) lost"
  have p: "k_reconnectAttempts ?last = ?n" "k_maxReconnectAttempts ?last = ?n"
    "delays (k_out ?last) = delays (k_out lost) @ map (\<lambda>i. backoff (1 + i)) [1..<Suc k]"
    using failed_attempts [OF l(1), of k] l(2,3) k by simp_all
  have "gone = failed_attempt ?last" by (simp add: assms(7) k)
  then have g: "delays (k_out gone) = delays (k_out ?last)" "k_status gone = StFailed" "k_reconnectTimer gone = None" "k_socket gone = None"
    using p(1,2) k by (simp_all add: failed_attempt_def onclose_def onerror_def Let_def)
  have "map backoff [1..<Suc (Suc k)] = backoff 1 # map (\<lambda>i. backoff (1 + i)) [1..<Suc k]"
    by (simp only: upt_conv_Cons [of 1 "Suc (Suc k)"] list.map map_Suc_upt [symmetric] map_map comp_def plus_1_eq_Suc)
  then have "delays (k_out gone) = delays (k_out c) @ map backoff [1..<Suc ?n]"
    using g(1) p(3) l(4) k by simp
  with g(2-4) show ?thesis by (simp add: backoff_def)
qed

theorem reconnect_schedule_witness:
  "\<exists>c. delays (k_out ((failed_attempt ^^ 5) (onclose c))) = [1000, 2000, 4000, 8000, 10000]
     \<and> k_status ((failed_attempt ^^ 5) (onclose c)) = StFailed"
proof -
  let ?start = "new_client (js ''ws:'') None None"
  let ?c = "onopen ((client_connect None ?start)\<lparr>k_socket := Some SkOpen\<rparr>)"
  have i: "client_inv ?c"
    by (intro inv_onopen inv_connect client_init_inv) (auto simp: client_init_def)
  have f: "k_socket ?c = Some SkOpen" "k_reconnectAttempts ?c = 0" "k_reconnectEnabled ?c" "k_maxReconnectAttempts ?c = 5"
    "delays (k_out ?c) = []"
    by (simp_all add: onopen_def new_client_def)
  from reconnect_schedule [OF i f(1-3) _ refl refl] f(4,5) show ?thesis
    by (intro exI [of _ ?c]) (simp add: upt_rec)
qed

text \<open>Disconnecting is final.  After its owner has disconnected it, nothing happens to a client and
  nothing is sent, whatever it is asked to send, until its owner connects it again.\<close>

theorem disconnect_is_final:
  assumes "d = (foldl (\<lambda>c m. fst (client_send m c)) (disconnect c) messages)"
  shows "(\<nexists>e. client_event num d e) \<and> k_status d = Disconnected
    \<and> (\<exists>es. k_out d = k_out (disconnect c) @ es \<and> (\<forall>m t. SocketSend m t \<notin> set es))"
proof -
  have "k_socket d = None \<and> k_reconnectTimer d = None \<and> k_status d = Disconnected
    \<and> (\<exists>es. k_out d = k_out (disconnect c) @ es \<and> (\<forall>m t. SocketSend m t \<notin> set es))"
    unfolding assms
  proof (induction messages rule: rev_induct)
    case (snoc m ms)
    then obtain es where "k_out (foldl (\<lambda>c m. fst (client_send m c)) (disconnect c) ms) = k_out (disconnect c) @ es"
      "\<forall>m t. SocketSend m t \<notin> set es" by blast
    with snoc show ?case
      by (simp add: client_send_def)
  qed simp
  moreover from this have "\<nexists>e. client_event num d e" by (auto elim!: client_eventE)
  ultimately show ?thesis by blast
qed

theorem disconnect_is_final_witness:
  "\<nexists>e. client_event id (foldl (\<lambda>c m. fst (client_send m c)) (disconnect (new_client [] None None)) [Logout]) e"
  using disconnect_is_final [OF refl, where num = id and messages = "[Logout]" and c = "new_client [] None None"] by blast

end
