(* ===== verification/ChatProvider.thy ===== *)
theory ChatProvider
  imports ChatClient
begin

section \<open>The chat provider (frontend/context/ChatProvider.tsx)\<close>

text \<open>
  What connects the reducer with the client.  \<open>p_state\<close> is the state of \<open>useReducer\<close>
  after all dispatched actions, \<open>p_stateRef\<close> the state of the last render, which the
  callbacks read; a render is a step of its own, so callbacks can see an older state.  The
  callbacks that a client operation makes are handled in their order after it: the only callback
  that uses the client again is the one of status "connected", with which \<open>onopen\<close> ends.
  \<open>fresh\<close> is the id and the time of an error message, \<open>refused\<close> the error of
  \<open>new WebSocket\<close>, if it throws.
\<close>

subsection \<open>State\<close>

record PendingAuth =
  pa_register :: bool
  pa_username :: jsstr
  pa_password :: jsstr

record Provider =
  p_state :: ChatState
  p_stateRef :: ChatState
  p_client :: "ThreadLinkClient option"
  p_pendingAuth :: "PendingAuth option"
  p_lastUsername :: "jsstr option"

definition new_provider :: "jsstr \<Rightarrow> Provider" where
  "new_provider url = \<lparr>p_state = createInitialState url, p_stateRef = createInitialState url, p_client = None,
     p_pendingAuth = None, p_lastUsername = None\<rparr>"

definition dispatch :: "jsstr \<times> jsstr \<Rightarrow> ChatAction \<Rightarrow> Provider \<Rightarrow> Provider" where
  "dispatch fresh action p = p\<lparr>p_state := chatReducer fresh (p_state p) action\<rparr>"

definition render :: "Provider \<Rightarrow> Provider" where
  "render p = p\<lparr>p_stateRef := p_state p\<rparr>"

text \<open>\<open>if (userId)\<close>: neither null nor empty.\<close>

definition truthy :: "jsstr option \<Rightarrow> bool" where
  "truthy s \<longleftrightarrow> s \<noteq> None \<and> s \<noteq> Some []"

subsection \<open>Events of the gateway\<close>

fun handleServerEvent :: "jsstr \<times> jsstr \<Rightarrow> ServerMessage \<Rightarrow> Provider \<Rightarrow> Provider" where
  "handleServerEvent fresh (SReady i name us cs ms) p =
     (dispatch fresh (READY i name us cs ms) p)\<lparr>p_lastUsername := Some name\<rparr>"
| "handleServerEvent fresh SLoggedOut p = dispatch fresh LOGGED_OUT p"
| "handleServerEvent fresh (SUserUpdate u) p = dispatch fresh (USER_UPDATE u) p"
| "handleServerEvent fresh (SUserOffline i) p = dispatch fresh (USER_OFFLINE i) p"
| "handleServerEvent fresh (SConversationCreated c) p = dispatch fresh (CONVERSATION_CREATED c) p"
| "handleServerEvent fresh (SMessage m) p = dispatch fresh (MESSAGE_RECEIVED m) p"
| "handleServerEvent fresh (SError code text conversation) p =
     (if userId (p_stateRef p) = None then dispatch fresh (AUTH_ERROR text) p
      else dispatch fresh (ERROR_MESSAGE code text conversation) p)"

subsection \<open>Callbacks of the client\<close>

definition auth_message :: "PendingAuth \<Rightarrow> ClientMessage" where
  "auth_message a = (if pa_register a then Register else Login) (pa_username a) (pa_password a)"

definition auth_call :: "PendingAuth \<Rightarrow> ThreadLinkClient \<Rightarrow> ThreadLinkClient \<times> bool" where
  "auth_call a = (if pa_register a then client_register else client_login) (pa_username a) (pa_password a)"

lemma auth_call [simp]: "auth_call a = client_send (auth_message a)"
  by (simp add: auth_call_def auth_message_def)

text \<open>A call of one of the client's message methods; its error callback is \<open>SET_ERROR\<close>.\<close>

definition through_client :: "jsstr \<times> jsstr \<Rightarrow> (ThreadLinkClient \<Rightarrow> ThreadLinkClient \<times> bool) \<Rightarrow> Provider \<Rightarrow> Provider \<times> bool" where
  "through_client fresh call p =
     (case p_client p of
        None \<Rightarrow> (p, False)
      | Some c \<Rightarrow>
          (let (c', sent) = call c; p' = p\<lparr>p_client := Some c'\<rparr>
           in (if sent then p' else dispatch fresh (SET_ERROR (Some (js ''Not connected to gateway''))) p', sent)))"

definition onStatusChange :: "jsstr \<times> jsstr \<Rightarrow> ConnectionStatus \<Rightarrow> Provider \<Rightarrow> Provider" where
  "onStatusChange fresh status p =
     (let p1 = dispatch fresh (SET_STATUS status) p;
          p2 = (case p_pendingAuth p1 of
                  Some pending \<Rightarrow>
                    if status = Connected then fst (through_client fresh (auth_call pending) (p1\<lparr>p_pendingAuth := None\<rparr>))
                    else p1
                | None \<Rightarrow> p1)
      in if status = StFailed \<and> truthy (userId (p_stateRef p2)) then dispatch fresh LOGGED_OUT p2 else p2)"

fun on_effect :: "jsstr \<times> jsstr \<Rightarrow> ClientEffect \<Rightarrow> Provider \<Rightarrow> Provider" where
  "on_effect fresh (StatusChange status) p = onStatusChange fresh status p"
| "on_effect fresh (EventIn parsed) p =
     (case server_of_json parsed of None \<Rightarrow> p | Some event \<Rightarrow> handleServerEvent fresh event p)"
| "on_effect fresh (ErrorOut text) p = dispatch fresh (SET_ERROR (Some text)) p"
| "on_effect fresh _ p = p"

text \<open>The client has become \<open>c'\<close>: its new callbacks run.\<close>

definition absorb :: "jsstr \<times> jsstr \<Rightarrow> ThreadLinkClient \<Rightarrow> Provider \<Rightarrow> Provider" where
  "absorb fresh c' p =
     (case p_client p of
        None \<Rightarrow> p
      | Some c \<Rightarrow> fold (on_effect fresh) (drop (length (k_out c)) (k_out c')) (p\<lparr>p_client := Some c'\<rparr>))"

definition ensureClient :: "jsstr \<times> jsstr \<Rightarrow> jsstr option \<Rightarrow> Provider \<Rightarrow> Provider" where
  "ensureClient fresh refused p =
     (case p_client p of
        Some _ \<Rightarrow> p
      | None \<Rightarrow>
          (let client = new_client (gatewayUrl (p_stateRef p)) (Some True) None
           in absorb fresh (client_connect refused client) (p\<lparr>p_client := Some client\<rparr>)))"

definition connected :: "Provider \<Rightarrow> bool" where
  "connected p = (case p_client p of None \<Rightarrow> False | Some c \<Rightarrow> isConnected c)"

subsection \<open>Actions of the user\<close>

definition authenticate :: "jsstr \<times> jsstr \<Rightarrow> jsstr option \<Rightarrow> PendingAuth \<Rightarrow> Provider \<Rightarrow> Provider" where
  "authenticate fresh refused a p =
     (let p1 = ensureClient fresh refused (dispatch fresh (SET_AUTHENTICATING True) p)
      in if connected p1 then fst (through_client fresh (auth_call a) p1)
         else p1\<lparr>p_pendingAuth := Some a\<rparr>)"

definition sendMessage :: "jsstr \<times> jsstr \<Rightarrow> jsstr \<Rightarrow> Provider \<Rightarrow> Provider" where
  "sendMessage fresh content p =
     (let trimmed = trim content; current = p_stateRef p in
      if trimmed = [] then p
      else if \<not> connected p then dispatch fresh (SET_ERROR (Some (js ''Not connected to gateway''))) p
      else (case map_of (conversations current) (activeConversationId current) of
          None \<Rightarrow> p
        | Some active \<Rightarrow>
            (case conv_type active of
               KPublic \<Rightarrow> fst (through_client fresh (client_sendMessage TPublic trimmed) p)
             | KDirect \<Rightarrow> if truthy (conv_peerId active)
                 then fst (through_client fresh (client_sendMessage (TDirect (the (conv_peerId active))) trimmed) p) else p
             | KGroup \<Rightarrow> fst (through_client fresh (client_sendMessage (TGroup (conv_id active)) trimmed) p))))"

definition changeNickname :: "jsstr \<times> jsstr \<Rightarrow> jsstr \<Rightarrow> Provider \<Rightarrow> Provider" where
  "changeNickname fresh nickname p =
     (let trimmed = trim nickname in
      if trimmed = [] then dispatch fresh (SET_ERROR (Some (js ''Nickname cannot be empty''))) p
      else (let (p', sent) = through_client fresh (client_setNickname trimmed) p
            in if sent then dispatch fresh (SET_NICKNAME_MODAL False) p' else p'))"

definition startDirectConversation :: "jsstr \<times> jsstr \<Rightarrow> jsstr \<Rightarrow> Provider \<Rightarrow> Provider" where
  "startDirectConversation fresh peer p =
     (let current = p_stateRef p in
      case userId current of
        None \<Rightarrow> p
      | Some me \<Rightarrow>
          if me = [] \<or> peer = me then p
          else
            (let i = chat_directConversationId me peer;
                 p1 = (if map_of (conversations current) i = None
                       then dispatch fresh (CONVERSATION_CREATED
                              \<lparr>cs_id = i, cs_kind = KDirect, cs_title = [], cs_memberIds = [me, peer]\<rparr>) p
                       else p)
             in dispatch fresh (SET_ACTIVE_CONVERSATION i) p1))"

definition createGroup :: "jsstr \<times> jsstr \<Rightarrow> jsstr \<Rightarrow> jsstr list \<Rightarrow> Provider \<Rightarrow> Provider" where
  "createGroup fresh name memberIds p =
     (let trimmed = trim name in
      if trimmed = [] \<or> memberIds = [] then p
      else fst (through_client fresh (client_createGroup trimmed memberIds) (dispatch fresh MARK_PENDING_GROUP_CREATION p)))"

datatype UserAction =
    DoAuthenticate PendingAuth
  | DoLogout
  | DoSendMessage jsstr
  | DoChangeNickname jsstr
  | DoSetPresence Presence
  | DoSelectConversation jsstr
  | DoStartDirect jsstr
  | DoCreateGroup jsstr "jsstr list"
  | DoOpenPublic
  | DoSetSidebar bool
  | DoSetNicknameModal bool
  | DoSetGroupModal bool

fun act :: "jsstr \<times> jsstr \<Rightarrow> jsstr option \<Rightarrow> UserAction \<Rightarrow> Provider \<Rightarrow> Provider" where
  "act fresh refused (DoAuthenticate a) p = authenticate fresh refused a p"
| "act fresh refused DoLogout p = fst (through_client fresh client_logout p)"
| "act fresh refused (DoSendMessage text) p = sendMessage fresh text p"
| "act fresh refused (DoChangeNickname n) p = changeNickname fresh n p"
| "act fresh refused (DoSetPresence x) p = fst (through_client fresh (client_setPresence x) p)"
| "act fresh refused (DoSelectConversation i) p = dispatch fresh (SET_ACTIVE_CONVERSATION i) p"
| "act fresh refused (DoStartDirect peer) p = startDirectConversation fresh peer p"
| "act fresh refused (DoCreateGroup name ids) p = createGroup fresh name ids p"
| "act fresh refused DoOpenPublic p = dispatch fresh (SET_ACTIVE_CONVERSATION PUBLIC_CONVERSATION_ID) p"
| "act fresh refused (DoSetSidebar b) p = dispatch fresh (SET_SIDEBAR_OPEN b) p"
| "act fresh refused (DoSetNicknameModal b) p = dispatch fresh (SET_NICKNAME_MODAL b) p"
| "act fresh refused (DoSetGroupModal b) p = dispatch fresh (SET_NEW_GROUP_MODAL b) p"

subsection \<open>What the components see\<close>

definition activeConversation :: "ChatState \<Rightarrow> Conversation option" where
  "activeConversation state =
     (case (case map_of (conversations state) (activeConversationId state) of
              None \<Rightarrow> map_of (conversations state) PUBLIC_CONVERSATION_ID | c \<Rightarrow> c) of
        None \<Rightarrow> None
      | Some raw \<Rightarrow>
          Some (if conv_type raw = KDirect \<and> truthy (conv_peerId raw) then
              raw\<lparr>conv_title :=
                (case map_of (users state) (the (conv_peerId raw)) of
                   Some peer \<Rightarrow> if user_nickname peer \<noteq> [] then user_nickname peer
                     else if conv_title raw \<noteq> [] then conv_title raw else js ''Offline user''
                 | None \<Rightarrow> if conv_title raw \<noteq> [] then conv_title raw else js ''Offline user'')\<rparr>
            else raw))"

definition onlineUsers :: "ChatState \<Rightarrow> User list" where
  "onlineUsers state = filter (\<lambda>u. Some (user_id u) \<noteq> userId state) (map snd (users state))"

subsection \<open>Runs\<close>

text \<open>A run with its trace of user actions.  A step is a render, the mount effect, an action of the
  user, or an event of the client's socket or timer.\<close>

inductive provider_run :: "(jsstr \<Rightarrow> jsstr) \<Rightarrow> UserAction list \<Rightarrow> Provider \<Rightarrow> bool" for num where
  start: "provider_run num [] (new_provider url)"
| rendered: "provider_run num acts p \<Longrightarrow> provider_run num acts (render p)"
| mounted: "provider_run num acts p \<Longrightarrow> provider_run num acts (ensureClient fresh refused p)"
| acted: "provider_run num acts p \<Longrightarrow> provider_run num (acts @ [a]) (act fresh refused a p)"
| event: "provider_run num acts p \<Longrightarrow> p_client p = Some c \<Longrightarrow> client_event num c d \<Longrightarrow>
    provider_run num acts (absorb fresh d p)"

subsection \<open>What the operations leave alone\<close>

lemma dispatch_fields [simp, frame]:
  "p_client (dispatch fresh a p) = p_client p" "p_pendingAuth (dispatch fresh a p) = p_pendingAuth p"
  "p_stateRef (dispatch fresh a p) = p_stateRef p" "p_state (dispatch fresh a p) = chatReducer fresh (p_state p) a"
  by (simp_all add: dispatch_def)

lemma server_event_fields [simp, frame]:
  "p_client (handleServerEvent fresh e p) = p_client p" "p_pendingAuth (handleServerEvent fresh e p) = p_pendingAuth p"
  "p_stateRef (handleServerEvent fresh e p) = p_stateRef p"
  by (cases e; simp)+

lemma through_fields [simp, frame]:
  "p_pendingAuth (fst (through_client fresh (client_send m) p)) = p_pendingAuth p"
  "p_stateRef (fst (through_client fresh (client_send m) p)) = p_stateRef p"
  "p_client (fst (through_client fresh (client_send m) p)) = map_option (\<lambda>c. fst (client_send m c)) (p_client p)"
  by (simp_all add: through_client_def Let_def split: option.split prod.split)

lemma send_fields [simp]:
  "k_socket (fst (client_send m c)) = k_socket c" "k_status (fst (client_send m c)) = k_status c"
  "k_reconnectTimer (fst (client_send m c)) = k_reconnectTimer c"
  by (simp_all add: client_send_def)

lemma send_connected [simp]: "isConnected (fst (client_send m c)) = isConnected c"
  by (simp add: isConnected_def)

subsection \<open>Counting credentials\<close>

fun auth_frame :: "ClientEffect \<Rightarrow> bool" where
  "auth_frame (SocketSend (Register _ _) _) = True"
| "auth_frame (SocketSend (Login _ _) _) = True"
| "auth_frame _ = False"

definition frames :: "ThreadLinkClient \<Rightarrow> nat" where
  "frames c = length (filter auth_frame (k_out c))"

definition auth_sent :: "Provider \<Rightarrow> nat" where
  "auth_sent p = (case p_client p of None \<Rightarrow> 0 | Some c \<Rightarrow> frames c)"

fun is_auth_action :: "UserAction \<Rightarrow> bool" where
  "is_auth_action (DoAuthenticate _) = True"
| "is_auth_action _ = False"

definition auth_calls :: "UserAction list \<Rightarrow> nat" where
  "auth_calls acts = length (filter is_auth_action acts)"

definition budget :: "Provider \<Rightarrow> nat" where
  "budget p = auth_sent p + (if p_pendingAuth p = None then 0 else 1)"

lemma frames_does [simp]: "frames (does e c) = frames c + (if auth_frame e then 1 else 0)"
  by (simp add: frames_def)

lemma frames_fields [simp]:
  "frames (c\<lparr>k_socket := so\<rparr>) = frames c" "frames (c\<lparr>k_status := st\<rparr>) = frames c" "frames (c\<lparr>k_reconnectTimer := t\<rparr>) = frames c"
  "frames (c\<lparr>k_reconnectAttempts := n\<rparr>) = frames c" "frames (c\<lparr>k_intentionalClose := b\<rparr>) = frames c"
  by (simp_all add: frames_def)

lemma frames_ops [simp]:
  "frames (setStatus st c) = frames c" "frames (clearReconnectTimer c) = frames c" "frames (closeSocket u c) = frames c"
  "frames (client_connect refused c) = frames c" "frames (scheduleReconnect c) = frames c"
  by (simp_all add: setStatus_def clearReconnectTimer_def closeSocket_def client_connect_def scheduleReconnect_def Let_def
      split: option.split)

lemma frames_send: "frames (fst (client_send m c)) \<le> frames c + (if auth_frame (SocketSend m []) then 1 else 0)"
  by (cases m) (simp_all add: client_send_def)

lemma frames_event: "client_event num c d \<Longrightarrow> frames d = frames c"
  by (induction rule: client_event.induct)
    (auto simp: onopen_def onmessage_def onerror_def onclose_def Let_def split: option.split)

lemma through_sent:
  "auth_sent (fst (through_client fresh (client_send m) p)) \<le> auth_sent p + (if auth_frame (SocketSend m []) then 1 else 0)"
  using frames_send [of m] by (cases "p_client p") (auto simp: auth_sent_def)

lemma budget_on_effect: "budget (on_effect fresh e p) \<le> budget p"
proof (cases e)
  case (StatusChange st)
  show ?thesis
  proof (cases "st = Connected \<and> p_pendingAuth p \<noteq> None")
    case True
    then obtain a where "p_pendingAuth p = Some a" by auto
    with True StatusChange show ?thesis
      using through_sent [of fresh "auth_message a" "(dispatch fresh (SET_STATUS st) p)\<lparr>p_pendingAuth := None\<rparr>"]
      by (simp add: onStatusChange_def Let_def budget_def auth_sent_def split: if_splits)
  next
    case False
    with StatusChange show ?thesis
      by (auto simp: onStatusChange_def Let_def budget_def auth_sent_def split: option.split)
  qed
qed (simp_all add: budget_def auth_sent_def split: option.split)

lemma budget_fold: "budget (fold (on_effect fresh) es p) \<le> budget p"
  by (induction es arbitrary: p) (auto intro: order_trans budget_on_effect)

lemma budget_absorb:
  assumes "p_client p = Some c" and "frames d = frames c"
  shows "budget (absorb fresh d p) \<le> budget p"
proof -
  have "budget (p\<lparr>p_client := Some d\<rparr>) = budget p" using assms by (simp add: budget_def auth_sent_def)
  then show ?thesis using budget_fold by (simp add: absorb_def assms(1)) metis
qed

lemma budget_ensure: "budget (ensureClient fresh refused p) \<le> budget p"
proof (cases "p_client p")
  case None
  let ?c = "new_client (gatewayUrl (p_stateRef p)) (Some True) None"
  have "budget (ensureClient fresh refused p) \<le> budget (p\<lparr>p_client := Some ?c\<rparr>)"
    using budget_absorb [of "p\<lparr>p_client := Some ?c\<rparr>" ?c "client_connect refused ?c" fresh]
    by (simp add: ensureClient_def None Let_def)
  also have "\<dots> = budget p"
    by (simp add: budget_def auth_sent_def None frames_def new_client_def)
  finally show ?thesis .
qed (simp add: ensureClient_def)

lemma budget_dispatch [simp]: "budget (dispatch fresh a p) = budget p"
  by (simp add: budget_def auth_sent_def)

lemma budget_through: "\<not> auth_frame (SocketSend m []) \<Longrightarrow> budget (fst (through_client fresh (client_send m) p)) \<le> budget p"
  using through_sent [of fresh m p] by (simp add: budget_def)

lemma budget_authenticate: "budget (authenticate fresh refused a p) \<le> Suc (budget p)"
proof -
  let ?p1 = "ensureClient fresh refused (dispatch fresh (SET_AUTHENTICATING True) p)"
  have e: "budget ?p1 \<le> budget p" using budget_ensure [of fresh refused "dispatch fresh (SET_AUTHENTICATING True) p"] by simp
  have "budget (fst (through_client fresh (client_send (auth_message a)) ?p1)) \<le> Suc (budget ?p1)"
    using through_sent [of fresh "auth_message a" ?p1] by (simp add: budget_def split: if_splits)
  moreover have "budget (?p1\<lparr>p_pendingAuth := Some a\<rparr>) \<le> Suc (budget ?p1)"
    by (simp add: budget_def auth_sent_def)
  ultimately show ?thesis using e by (simp add: authenticate_def Let_def)
qed

lemma budget_act: "budget (act fresh refused a p) \<le> budget p + (if is_auth_action a then 1 else 0)"
proof (cases a)
  case (DoAuthenticate x)
  then show ?thesis using budget_authenticate [of fresh refused x p] by simp
next
  case (DoSendMessage t)
  then show ?thesis
    by (auto simp: sendMessage_def Let_def intro: budget_through split: option.split ConversationKind.split)
next
  case (DoChangeNickname n)
  have "budget p' \<le> budget p" if "through_client fresh (client_send (SetNickname (trim n))) p = (p', b)" for p' b
    using budget_through [of "SetNickname (trim n)" fresh p] that by simp
  with DoChangeNickname show ?thesis
    by (auto simp: changeNickname_def Let_def split: prod.split)
next
  case (DoCreateGroup n ids)
  then show ?thesis
    using budget_through [of "CreateGroup (trim n) ids" fresh "dispatch fresh MARK_PENDING_GROUP_CREATION p"]
    by (simp add: createGroup_def Let_def)
qed (simp_all add: budget_through startDirectConversation_def Let_def split: option.split)

lemma render_fields [simp]:
  "p_client (render p) = p_client p" "p_pendingAuth (render p) = p_pendingAuth p" "p_stateRef (render p) = p_state p"
  by (simp_all add: render_def)

lemma run_budget: "provider_run num acts p \<Longrightarrow> budget p \<le> auth_calls acts"
proof (induction rule: provider_run.induct)
  case (start url)
  then show ?case by (simp add: budget_def auth_sent_def new_provider_def)
next
  case (rendered acts p)
  then show ?case by (simp add: budget_def auth_sent_def)
next
  case (mounted acts p fresh refused)
  then show ?case using budget_ensure [of fresh refused p] by linarith
next
  case (acted acts p a fresh refused)
  then show ?case using budget_act [of fresh refused a p] by (simp add: auth_calls_def split: if_splits)
next
  case (event acts p c d fresh)
  then show ?case using budget_absorb [OF event.hyps(2) frames_event [OF event.hyps(3)], of fresh] by linarith
qed

subsection \<open>Credentials do not wait on an open connection\<close>

definition waits_well :: "Provider \<Rightarrow> bool" where
  "waits_well p \<longleftrightarrow> p_pendingAuth p \<noteq> None \<longrightarrow> p_client p \<noteq> None \<and> \<not> connected p"

definition client_ok :: "Provider \<Rightarrow> bool" where
  "client_ok p \<longleftrightarrow> (\<forall>c. p_client p = Some c \<longrightarrow> client_inv c)"

lemma effect_fields:
  "map_option isConnected (p_client (on_effect fresh e p)) = map_option isConnected (p_client p)"
  "p_stateRef (on_effect fresh e p) = p_stateRef p"
  "e = StatusChange Connected \<Longrightarrow> p_pendingAuth (on_effect fresh e p) = None"
  "p_pendingAuth p = None \<Longrightarrow> p_pendingAuth (on_effect fresh e p) = None"
  by (cases e; auto simp: onStatusChange_def Let_def option.map_comp comp_def split: option.split)+

lemma fold_connected:
  "map_option isConnected (p_client (fold (on_effect fresh) es p)) = map_option isConnected (p_client p)"
  by (induction es arbitrary: p) (simp_all add: effect_fields)

lemma fold_pending: "p_pendingAuth p = None \<Longrightarrow> p_pendingAuth (fold (on_effect fresh) es p) = None"
  by (induction es arbitrary: p) (simp_all add: effect_fields)

lemma fold_clears: "StatusChange Connected \<in> set es \<Longrightarrow> p_pendingAuth (fold (on_effect fresh) es p) = None"
proof (induction es arbitrary: p)
  case (Cons e es)
  then show ?case
    using effect_fields(3) [OF refl, of fresh p] by (auto simp: fold_pending simp del: on_effect.simps)
qed simp

lemma event_connects:
  "client_event num c d \<Longrightarrow> isConnected d \<Longrightarrow> isConnected c \<or> k_out d = k_out c @ [StatusChange Connected]"
  by (induction rule: client_event.induct)
    (auto simp: isConnected_def onopen_def onmessage_def onerror_def onclose_def Let_def split: option.splits if_splits)

lemma waits_absorb:
  assumes "waits_well p" and "p_client p = Some c"
    and "isConnected d \<Longrightarrow> isConnected c \<or> k_out d = k_out c @ [StatusChange Connected]"
  shows "waits_well (absorb fresh d p)"
proof (cases "p_pendingAuth p")
  case None
  then show ?thesis by (simp add: waits_well_def absorb_def assms(2) fold_pending)
next
  case (Some a)
  then have n: "\<not> isConnected c" using assms(1,2) by (simp add: waits_well_def connected_def)
  show ?thesis
  proof (cases "isConnected d")
    case True
    then have "k_out d = k_out c @ [StatusChange Connected]" using assms(3) n by blast
    then show ?thesis using fold_clears [of "[StatusChange Connected]" fresh] by (simp add: waits_well_def absorb_def assms(2))
  next
    case False
    let ?q = "fold (on_effect fresh) (drop (length (k_out c)) (k_out d)) (p\<lparr>p_client := Some d\<rparr>)"
    have "map_option isConnected (p_client ?q) = Some False" using False by (simp add: fold_connected)
    then show ?thesis by (auto simp: waits_well_def absorb_def assms(2) connected_def split: option.splits)
  qed
qed

lemma waits_ensure: "waits_well p \<Longrightarrow> waits_well (ensureClient fresh refused p)"
proof (cases "p_client p")
  case None
  moreover assume "waits_well p"
  ultimately have "p_pendingAuth p = None" by (auto simp: waits_well_def)
  then show ?thesis by (simp add: ensureClient_def None Let_def waits_well_def absorb_def fold_pending)
qed (simp add: ensureClient_def)

lemma ensure_client: "p_client (ensureClient fresh refused p) \<noteq> None"
proof -
  have "p_client (fold (on_effect fresh) es q) \<noteq> None" if "p_client q \<noteq> None" for es q
    using fold_connected [of fresh es q] that by auto
  then show ?thesis by (auto simp: ensureClient_def absorb_def Let_def split: option.split)
qed

lemma connected_frame [simp]:
  "connected (dispatch fresh a p) = connected p" "connected (fst (through_client fresh (client_send m) p)) = connected p"
  "connected (p\<lparr>p_pendingAuth := x\<rparr>) = connected p" "connected (render p) = connected p"
  by (auto simp: connected_def render_def split: option.split)

lemma waits_frame [simp]:
  "waits_well (dispatch fresh a p) = waits_well p" "waits_well (fst (through_client fresh (client_send m) p)) = waits_well p"
  by (simp_all add: waits_well_def)

lemma waits_act: "waits_well p \<Longrightarrow> waits_well (act fresh refused a p)"
proof (cases a)
  case (DoAuthenticate x)
  assume "waits_well p"
  then have "waits_well (ensureClient fresh refused (dispatch fresh (SET_AUTHENTICATING True) p))"
    by (simp add: waits_ensure)
  with DoAuthenticate show ?thesis
    using ensure_client by (auto simp: authenticate_def Let_def waits_well_def)
next
  case (DoSendMessage t)
  assume "waits_well p"
  with DoSendMessage show ?thesis
    by (auto simp: sendMessage_def Let_def split: option.split ConversationKind.split)
next
  case (DoChangeNickname n)
  assume w: "waits_well p"
  have "waits_well p'" if "through_client fresh (client_send (SetNickname (trim n))) p = (p', b)" for p' b
    using waits_frame(2) [of fresh "SetNickname (trim n)" p] that w by simp
  with DoChangeNickname w show ?thesis by (auto simp: changeNickname_def Let_def split: prod.split)
qed (simp_all add: startDirectConversation_def createGroup_def Let_def split: option.split)

lemma run_waits: "provider_run num acts p \<Longrightarrow> waits_well p"
proof (induction rule: provider_run.induct)
  case (event acts p c d fresh)
  then show ?case using event_connects by (intro waits_absorb) auto
next
  case (start url)
  show ?case by (simp add: waits_well_def new_provider_def)
next
  case (rendered acts p)
  then show ?case by (simp add: waits_well_def)
qed (rule waits_ensure waits_act, assumption)+

subsection \<open>The client of a provider\<close>

lemma ok_effect: "client_ok p \<Longrightarrow> client_ok (on_effect fresh e p)"
  by (cases e) (auto simp: client_ok_def onStatusChange_def Let_def inv_send split: option.split)

lemma ok_fold: "client_ok p \<Longrightarrow> client_ok (fold (on_effect fresh) es p)"
  by (induction es arbitrary: p) (auto intro: ok_effect)

lemma ok_absorb: "client_ok p \<Longrightarrow> client_inv d \<Longrightarrow> client_ok (absorb fresh d p)"
proof (cases "p_client p")
  case (Some c)
  assume "client_inv d"
  then have "client_ok (p\<lparr>p_client := Some d\<rparr>)" by (simp add: client_ok_def)
  then show ?thesis by (simp add: absorb_def Some ok_fold)
qed (simp add: absorb_def)

lemma ok_ensure: "client_ok p \<Longrightarrow> client_ok (ensureClient fresh refused p)"
proof (cases "p_client p")
  case None
  have i: "client_inv (new_client (gatewayUrl (p_stateRef p)) (Some True) None)"
    by (rule client_init_inv) (auto simp: client_init_def)
  then show ?thesis
    unfolding ensureClient_def None option.case Let_def
    by (intro ok_absorb inv_connect) (simp_all add: client_ok_def)
qed (simp add: ensureClient_def)

lemma ok_through [simp]: "client_ok p \<Longrightarrow> client_ok (fst (through_client fresh (client_send m) p))"
  by (auto simp: client_ok_def inv_send)

lemma ok_dispatch [simp]: "client_ok (dispatch fresh a p) = client_ok p" "client_ok (p\<lparr>p_pendingAuth := x\<rparr>) = client_ok p"
  by (simp_all add: client_ok_def)

lemma ok_act: "client_ok p \<Longrightarrow> client_ok (act fresh refused a p)"
proof (cases a)
  case (DoAuthenticate x)
  assume "client_ok p"
  with DoAuthenticate show ?thesis by (simp add: authenticate_def Let_def ok_ensure)
next
  case (DoSendMessage t)
  assume "client_ok p"
  with DoSendMessage show ?thesis
    by (auto simp: sendMessage_def Let_def split: option.split ConversationKind.split)
next
  case (DoChangeNickname n)
  assume w: "client_ok p"
  have "client_ok p'" if "through_client fresh (client_send (SetNickname (trim n))) p = (p', b)" for p' b
    using ok_through [OF w, of fresh "SetNickname (trim n)"] that by simp
  with DoChangeNickname w show ?thesis by (auto simp: changeNickname_def Let_def split: prod.split)
qed (simp_all add: startDirectConversation_def createGroup_def Let_def split: option.split)

lemma run_ok: "provider_run num acts p \<Longrightarrow> client_ok p"
proof (induction rule: provider_run.induct)
  case (event acts p c d fresh)
  then have "client_inv c" by (simp add: client_ok_def)
  with event.hyps(3) have "client_inv d" by (rule client_event_inv)
  with event.IH show ?case by (rule ok_absorb)
next
  case (start url)
  show ?case by (simp add: client_ok_def new_provider_def)
next
  case (rendered acts p)
  then show ?case by (simp add: client_ok_def)
qed (rule ok_ensure ok_act, assumption)+

subsection \<open>Properties\<close>

text \<open>C15: Credentials are sent once.  In every run the number of register and login messages that have
  gone out, with the one that may be waiting, is at most the number of times the user asked to
  register or log in, however often the connection is lost and restored; and credentials never
  wait while the connection is open.\<close>

theorem credentials_sent_once:
  assumes "provider_run num acts p"
  shows "auth_sent p + (if p_pendingAuth p = None then 0 else 1) \<le> auth_calls acts
    \<and> (connected p \<longrightarrow> p_pendingAuth p = None)"
  using run_budget [OF assms] run_waits [OF assms] by (auto simp: budget_def waits_well_def)

theorem credentials_sent_once_witness:
  "auth_sent (act ([], []) None (DoAuthenticate \<lparr>pa_register = False, pa_username = js ''amy'', pa_password = js ''pw''\<rparr>) (new_provider [])) \<le> 1"
proof -
  have "provider_run id ([] @ [DoAuthenticate \<lparr>pa_register = False, pa_username = js ''amy'', pa_password = js ''pw''\<rparr>])
    (act ([], []) None (DoAuthenticate \<lparr>pa_register = False, pa_username = js ''amy'', pa_password = js ''pw''\<rparr>) (new_provider []))"
    by (rule acted, rule start)
  from credentials_sent_once [OF this] show ?thesis by (simp add: auth_calls_def del: act.simps split: if_splits)
qed

text \<open>Credentials are not forgotten.  When the user logs in before the connection is open, the
  message goes out as soon as the socket opens: it is the first thing the client sends on it.\<close>

theorem pending_credentials_sent:
  assumes "p_pendingAuth p = Some a" and "p_client p = Some c"
    and "p' = absorb fresh (onopen (c\<lparr>k_socket := Some SkOpen\<rparr>)) p"
  shows "\<exists>c'. p_client p' = Some c' \<and> p_pendingAuth p' = None
    \<and> k_out c' = k_out c @ [StatusChange Connected, SocketSend (auth_message a) (encodeOutbound (auth_message a))]
    \<and> connectionStatus (p_state p') = Connected"
  using assms
  by (simp add: absorb_def onopen_def onStatusChange_def Let_def through_client_def client_send_def)

theorem pending_credentials_sent_witness:
  "\<exists>p c' a. p = act ([], []) None (DoAuthenticate a) (new_provider []) \<and>
     p_client (absorb ([], []) (onopen ((the (p_client p))\<lparr>k_socket := Some SkOpen\<rparr>)) p) = Some c' \<and> frames c' = 1"
proof -
  let ?a = "\<lparr>pa_register = False, pa_username = js ''amy'', pa_password = js ''pw''\<rparr>"
  let ?p = "act ([], []) None (DoAuthenticate ?a) (new_provider [])"
  have p: "p_pendingAuth ?p = Some ?a" "\<exists>c. p_client ?p = Some c \<and> frames c = 0"
    by (simp_all add: authenticate_def Let_def ensureClient_def new_provider_def absorb_def client_connect_def closeSocket_def
        clearReconnectTimer_def new_client_def connected_def isConnected_def onStatusChange_def frames_def)
  then obtain c where c: "p_client ?p = Some c" "frames c = 0" by blast
  from pending_credentials_sent [OF p(1) c(1) refl, of "([], [])"] obtain c' where
    "p_client (absorb ([], []) (onopen (c\<lparr>k_socket := Some SkOpen\<rparr>)) ?p) = Some c'"
    "k_out c' = k_out c @ [StatusChange Connected, SocketSend (auth_message ?a) (encodeOutbound (auth_message ?a))]"
    by blast
  then show ?thesis using c by (intro exI [of _ ?p] exI [of _ c'] exI [of _ ?a]) (simp add: frames_def auth_message_def del: act.simps)
qed

text \<open>The first failed attempt to reconnect logs the user out.  Although attempts remain and the
  client goes on trying, the failure of one attempt already clears the session from the state.\<close>

theorem failed_attempt_logs_out:
  assumes "p_client p = Some c" and "client_inv c" and "k_reconnectTimer c \<noteq> None" and "k_reconnectEnabled c"
    and "k_reconnectAttempts c < k_maxReconnectAttempts c" and "truthy (userId (p_stateRef p))"
    and "c1 = client_connect None c" and "c2 = onerror (c1\<lparr>k_socket := Some SkClosed\<rparr>)"
    and "p2 = absorb fresh c2 (absorb fresh c1 p)"
  shows "userId (p_state p2) = None \<and> users (p_state p2) = []
    \<and> k_status (onclose c2) = Reconnecting \<and> k_reconnectTimer (onclose c2) \<noteq> None"
proof -
  have n: "k_socket c = None" using assms(2,3) unfolding client_inv_def by blast
  have o1: "k_out c1 = k_out c @ [ClearTimeout, StatusChange StConnecting, NewSocket (k_url c)]"
    using n assms(3) by (simp add: assms(7) client_connect_def Let_def clearReconnectTimer_def closeSocket_def)
  have o2: "k_out c2 = k_out c1 @ [StatusChange StFailed, ErrorOut (js ''WebSocket connection error'')]"
    by (simp add: assms(7,8) onerror_def)
  let ?p1 = "absorb fresh c1 p"
  have p1: "p_client ?p1 = Some c1" "p_stateRef ?p1 = p_stateRef p"
    by (simp_all add: absorb_def assms(1) o1 onStatusChange_def Let_def split: option.split)
  have "userId (p_state p2) = None \<and> users (p_state p2) = []"
    using assms(6) p1
    by (simp add: assms(9) absorb_def [of fresh c2] o2 onStatusChange_def Let_def reduce_LOGGED_OUT_def split: option.split)
  moreover have "k_status (onclose c2) = Reconnecting" "k_reconnectTimer (onclose c2) \<noteq> None"
    using assms(4,5) by (simp_all add: assms(7,8) onclose_def onerror_def Let_def)
  ultimately show ?thesis by simp
qed

theorem failed_attempt_logs_out_witness:
  "\<exists>p c2. truthy (userId (p_stateRef p)) \<and> k_status (onclose c2) = Reconnecting
     \<and> userId (p_state (absorb ([], []) c2 (absorb ([], []) (client_connect None (the (p_client p))) p))) = None"
proof -
  let ?c = "scheduleReconnect (new_client (js ''ws:'') None None)"
  let ?s = "(createInitialState [])\<lparr>userId := Some (js ''me'')\<rparr>"
  let ?p = "(new_provider [])\<lparr>p_client := Some ?c, p_state := ?s, p_stateRef := ?s\<rparr>"
  have i: "client_inv ?c"
    using backoff_bounds by (simp add: client_inv_def) (simp add: new_client_def)
  have h: "p_client ?p = Some ?c" "k_reconnectTimer ?c \<noteq> None" "k_reconnectEnabled ?c" "k_reconnectAttempts ?c < k_maxReconnectAttempts ?c"
    "truthy (userId (p_stateRef ?p))"
    by simp_all (simp_all add: new_client_def truthy_def)
  from failed_attempt_logs_out [OF h(1) i h(2-5) refl refl refl, of "([], [])"] h(1,5) show ?thesis
    by (intro exI [of _ ?p] exI [of _ "onerror ((client_connect None ?c)\<lparr>k_socket := Some SkClosed\<rparr>)"]) simp
qed

text \<open>C32: A direct conversation reaches the person.  Opening the conversation with a user selects it,
  under the id that the gateway gives the conversation of the two, whether the browser has it
  already or not, and what is typed next goes to exactly that user, once and trimmed.  The
  exception is a conversation that the browser has only from a message, which came before any
  announcement of it: it has no peer, and what is typed is dropped, without an error.\<close>

theorem direct_conversation_reaches_peer:
  assumes "userId (p_state p) = Some me" and "me \<noteq> []" and "peer \<noteq> []" and "peer \<noteq> me"
    and "p_stateRef p = p_state p" and "p_client p = Some c" and "isConnected c" and "trim text \<noteq> []"
    and "i = directConversationId me peer"
    and "\<forall>v. map_of (conversations (p_state p)) i = Some v \<longrightarrow> conv_type v = KDirect \<and> conv_peerId v \<in> {Some peer, None}"
    and "p1 = render (act fresh refused (DoStartDirect peer) p)" and "p2 = act fresh refused (DoSendMessage text) p1"
  shows "activeConversationId (p_state p1) = i
    \<and> (case map_of (conversations (p_state p)) i of
         Some v \<Rightarrow> if conv_peerId v = None then p2 = p1 \<and> p_client p2 = Some c
           else p_client p2 = Some (does (SocketSend (SendMessage (TDirect peer) (trim text)) (encodeOutbound (SendMessage (TDirect peer) (trim text)))) c)
       | None \<Rightarrow> p_client p2 = Some (does (SocketSend (SendMessage (TDirect peer) (trim text)) (encodeOutbound (SendMessage (TDirect peer) (trim text)))) c))"
proof -
  let ?conv = "conversationFromSummary \<lparr>cs_id = i, cs_kind = KDirect, cs_title = [], cs_memberIds = [me, peer]\<rparr> me"
  define v where "v = (case map_of (conversations (p_state p)) i of Some v \<Rightarrow> v | None \<Rightarrow> ?conv)"
  have f: "conv_type ?conv = KDirect" "conv_peerId ?conv = Some peer" "conv_id ?conv = i"
    using assms(4) by (auto simp: conversationFromSummary_def)
  have v: "conv_type v = KDirect" "conv_peerId v \<in> {Some peer, None}"
    using assms(10) f by (auto simp: v_def split: option.split)
  have s1: "activeConversationId (p_state p1) = i" "map_of (conversations (p_state p1)) i = Some (v\<lparr>conv_unreadCount := 0\<rparr>)"
    "p_stateRef p1 = p_state p1" "p_client p1 = Some c"
    using assms(1,2,4-6) f(3)
    by (cases "map_of (conversations (p_state p)) i";
        simp add: assms(9,11) v_def startDirectConversation_def Let_def chat_directConversationId_gateway render_def
          reduce_CONVERSATION_CREATED_def reduce_SET_ACTIVE_def alist.get_put)+
  have o: "k_socket c = Some SkOpen" "connected p1" using s1(4) assms(7) by (simp_all add: isConnected_def connected_def)
  have sent: "p_client p2 = Some (does (SocketSend (SendMessage (TDirect peer) (trim text)) (encodeOutbound (SendMessage (TDirect peer) (trim text)))) c)"
    if "conv_peerId v = Some peer"
    using that s1 v o assms(3,8) by (simp add: assms(12) sendMessage_def Let_def truthy_def client_send_def)
  have dropped: "p2 = p1 \<and> p_client p2 = Some c" if "conv_peerId v = None"
    using that s1 v o assms(8) by (simp add: assms(12) sendMessage_def Let_def truthy_def)
  show ?thesis
    using s1(1) sent dropped v(2) f(2) by (auto simp: v_def split: option.split)
qed

theorem direct_conversation_reaches_peer_witness:
  "\<exists>p c. p_client p = Some c \<and> p_client (act ([], []) None (DoSendMessage (js '' hi'')) (render (act ([], []) None (DoStartDirect (js ''bob'')) p)))
     = Some (does (SocketSend (SendMessage (TDirect (js ''bob'')) (trim (js '' hi''))) (encodeOutbound (SendMessage (TDirect (js ''bob'')) (trim (js '' hi''))))) c)"
proof -
  let ?c = "onopen ((client_connect None (new_client (js ''ws:'') None None))\<lparr>k_socket := Some SkOpen\<rparr>)"
  let ?s = "(createInitialState [])\<lparr>userId := Some (js ''me'')\<rparr>"
  let ?p = "(new_provider [])\<lparr>p_client := Some ?c, p_state := ?s, p_stateRef := ?s\<rparr>"
  have h: "userId (p_state ?p) = Some (js ''me'')" "js ''me'' \<noteq> []" "js ''bob'' \<noteq> []" "js ''bob'' \<noteq> js ''me''"
    "p_stateRef ?p = p_state ?p" "p_client ?p = Some ?c" "isConnected ?c"
    by (simp_all add: isConnected_def onopen_def)
  have t: "trim (js '' hi'') \<noteq> []"
    by (simp add: trim_def js_def js_space_def)
  have n: "map_of (conversations (p_state ?p)) (directConversationId (js ''me'') (js ''bob'')) = None"
    by (simp add: createInitialState_def directConversationId_def PUBLIC_CONVERSATION_ID_def) (simp add: js_def)
  then have "\<forall>v. map_of (conversations (p_state ?p)) (directConversationId (js ''me'') (js ''bob'')) = Some v
      \<longrightarrow> conv_type v = KDirect \<and> conv_peerId v \<in> {Some (js ''bob''), None}" by simp
  from conjunct2 [OF direct_conversation_reaches_peer [OF h t refl this refl refl]] h(6) n show ?thesis
    by (intro exI [of _ ?p] exI [of _ ?c]) simp
qed

end
