(* ===== verification/EndToEnd.thy ===== *)
theory EndToEnd
  imports Gateway ChatProvider
begin

section \<open>Browser and gateway together\<close>

text \<open>
  The composition of the two programs over the text they exchange: what the browser's client
  writes on its socket, the gateway handles as the same message, and what the gateway sends,
  the provider handles as the same event.  The gateway's \<open>JSON.parse\<close> is instantiated by
  \<open>json_parse\<close> here.
\<close>

subsection \<open>The size of an encoded message\<close>

lemma utf8_enc_append: "wf_utf16 us \<Longrightarrow> utf8_enc (us @ vs) = utf8_enc us @ utf8_enc vs"
proof (induction us rule: wf_utf16.induct)
  case (2 u)
  then show ?case by (cases vs) auto
qed (auto split: if_splits)

definition wire_size :: "jsstr \<Rightarrow> nat" where
  "wire_size s = length (utf8_encode s)"

lemma wire_size_Nil: "wire_size [] = 0"
  by (simp add: wire_size_def utf8_encode_def)

lemma wire_size_append: "wf_str s \<Longrightarrow> wire_size (s @ t) = wire_size s + wire_size t"
  by (simp add: wire_size_def utf8_encode_def wf_str_def utf8_enc_append)

lemma wire_size_length: "wire_size s \<le> 3 * length s"
  by (simp add: wire_size_def utf8_length)

lemma wire_size_ascii: "\<forall>u \<in> set s. unat u < 128 \<Longrightarrow> wire_size s = length s"
  by (simp add: wire_size_def utf8_encode_def utf8_enc_ascii)

lemma hex_ascii: "d < 16 \<Longrightarrow> unat (hex_digit d) < 128"
  by (simp add: hex_digit_def unat_of_nat del: of_nat_add of_nat_numeral)

lemma unicode_escape_size: "wire_size (unicode_escape u) = 6"
proof -
  have "unat u < 65536" using unsigned_less [of u, where 'a = nat] by simp
  then have "\<forall>v \<in> set (unicode_escape u). unat v < 128"
    by (auto simp: unicode_escape_def Let_def hex_ascii BACKSLASH_def unit_def unat_of_char_16)
  then show ?thesis by (subst wire_size_ascii) (simp_all add: unicode_escape_def Let_def)
qed

lemma escape_size: "wire_size (json_escape u) \<le> 6"
  using wire_size_length [of "json_escape u"] unicode_escape_size [of u]
  by (auto simp: json_escape_def split: option.splits if_splits)

lemma quote_size: "wire_size (quote_units s) \<le> 6 * length s"
proof (induction s rule: quote_units.induct)
  case (3 u v us)
  show ?case
  proof (cases "high_surrogate (unat u) \<and> low_surrogate (unat v)")
    case True
    then have p: "wf_str [u, v]" by (simp add: wf_str_def)
    have "wire_size (u # v # quote_units us) = wire_size [u, v] + wire_size (quote_units us)"
      using wire_size_append [OF p, of "quote_units us"] by (simp only: append.simps)
    with True 3 show ?thesis using wire_size_length [of "[u, v]"] by simp
  next
    case False
    then have "quote_units (u # v # us) = json_escape u @ quote_units (v # us)" by auto
    with False 3 show ?thesis
      using escape_size [of u] by (simp add: wire_size_append [OF wf_escape] del: quote_units.simps)
  qed
next
  case 1
  show ?case by (simp add: wire_size_Nil)
next
  case (2 u)
  show ?case using escape_size [of u] by simp
qed

lemma quote_mark: "wf_str [QUOTE]" "wire_size [QUOTE] = 1"
  by (simp add: wf_str_def QUOTE_def unit_def high_surrogate_def low_surrogate_def)
    (subst wire_size_ascii, simp_all add: QUOTE_def unit_def)

lemma json_quote_size: "wire_size (json_quote s) \<le> 6 * length s + 2"
proof -
  have "wire_size (json_quote s) = wire_size [QUOTE] + (wire_size (quote_units s) + wire_size [QUOTE])"
    using wire_size_append [OF quote_mark(1), of "quote_units s @ [QUOTE]"] wire_size_append [OF wf_quote_units, of s "[QUOTE]"]
    by (simp add: json_quote_def)
  then show ?thesis using quote_size [of s] by (simp add: quote_mark(2))
qed

lemma js_size: "wire_size (js s @ t) \<le> 3 * length s + wire_size t"
  using wire_size_append [OF wf_str_js, of s t] wire_size_length [of "js s"] by simp

fun json_weight :: "json \<Rightarrow> nat" where
  "json_weight (JStr s) = 6 * length s + 2"
| "json_weight (JArr vs) = 6 + sum_list (map (\<lambda>v. json_weight v + 3) vs)"
| "json_weight (JObj kvs) = 6 + sum_list (map (\<lambda>kv. 6 * length (fst kv) + 8 + json_weight (snd kv)) kvs)"
| "json_weight (JNum n) = 3 * length n"
| "json_weight _ = 15"

lemma join_size:
  "\<forall>s \<in> set ss. wf_str s \<Longrightarrow> wire_size (join (js '','') ss) \<le> sum_list (map (\<lambda>s. wire_size s + 3) ss)"
proof (induction "js '',''" ss rule: join.induct)
  case (3 x y ys)
  then show ?case
    using js_size [of "'',''" "join (js '','') (y # ys)"] by (simp add: wire_size_append)
qed (simp_all add: wire_size_Nil)

lemma bracket_size:
  assumes "wf_str t"
  shows "wire_size (js [a] @ t @ js [b]) \<le> 6 + wire_size t"
  using js_size [of "[a]" "t @ js [b]"] wire_size_append [OF assms, of "js [b]"] wire_size_length [of "js [b]"] by simp

lemma stringify_size: "json_ok v \<Longrightarrow> wire_size (stringify v) \<le> json_weight v"
proof (induction v rule: stringify.induct)
  case (5 vs)
  have w: "\<forall>s \<in> set (map stringify vs). wf_str s" using 5(2) by (auto intro: wf_stringify)
  have "sum_list (map (\<lambda>s. wire_size s + 3) (map stringify vs)) \<le> sum_list (map (\<lambda>v. json_weight v + 3) vs)"
    using 5 by (simp add: comp_def) (rule sum_list_mono, auto)
  then show ?case using bracket_size [OF wf_join [OF w], of "CHR ''[''" "CHR '']''"] join_size [OF w] by simp
next
  case (6 kvs)
  let ?m = "\<lambda>kv. json_quote (fst kv) @ js '':'' @ stringify (snd kv)"
  have w: "\<forall>s \<in> set (map ?m kvs). wf_str s" using 6(2) by (auto intro!: wf_str_append wf_quote wf_stringify)
  have "wire_size (?m kv) + 3 \<le> 6 * length (fst kv) + 8 + json_weight (snd kv)" if "kv \<in> set kvs" for kv
  proof -
    have "wire_size (stringify (snd kv)) \<le> json_weight (snd kv)" using 6 that by (cases kv) auto
    then show ?thesis
      using js_size [of "'':''" "stringify (snd kv)"] json_quote_size [of "fst kv"] by (simp add: wire_size_append [OF wf_quote])
  qed
  then have "sum_list (map (\<lambda>s. wire_size s + 3) (map ?m kvs)) \<le> sum_list (map (\<lambda>kv. 6 * length (fst kv) + 8 + json_weight (snd kv)) kvs)"
    unfolding map_map comp_def by (rule sum_list_mono)
  then show ?case using bracket_size [OF wf_join [OF w], of "CHR ''{''" "CHR ''}''"] join_size [OF w] by simp
next
  case (4 s)
  show ?case using json_quote_size by simp
next
  case 1
  show ?case using wire_size_length [of "js ''null''"] by simp
next
  case (2 b)
  show ?case using wire_size_length [of "stringify (JBool b)"] by (cases b) simp_all
qed simp

subsection \<open>Properties\<close>

lemma text_message_size:
  "wire_size (encodeOutbound (SendMessage TPublic body)) \<le> 6 * length body + 310"
  "wire_size (encodeOutbound (SendMessage (TDirect i) body)) \<le> 6 * length body + 6 * length i + 310"
  "wire_size (encodeOutbound (SendMessage (TGroup i) body)) \<le> 6 * length body + 6 * length i + 310"
  using stringify_size [OF outbound_ok [of "SendMessage TPublic body"]]
    stringify_size [OF outbound_ok [of "SendMessage (TDirect i) body"]]
    stringify_size [OF outbound_ok [of "SendMessage (TGroup i) body"]]
  by (simp_all add: encodeOutbound_def tagged_def)

lemma browser_message:
  assumes "valid_client_message m" and "e_json_parse env = json_parse num"
    and "wire_size (encodeOutbound m) \<le> e_maxClientMessageBytes env"
  shows "onClientRaw env r (utf8_encode (encodeOutbound m)) w = onClientMessage env r m w"
proof -
  have "json_parse num (utf8_decode (utf8_encode (encodeOutbound m))) = Some (outbound_json m)"
    by (simp add: encodeOutbound_def utf8_roundtrip [OF wf_stringify] outbound_ok json_parse_stringify)
  then show ?thesis
    using assms(2,3) validate_outbound [OF assms(1)] by (simp add: onClientRaw_def wire_size_def)
qed

text \<open>C11: The gateway hears what the browser says.  A valid message that the browser's client encodes,
  if it fits the limit of the gateway, is decoded, parsed, accepted and handled as this very
  message, whatever characters its texts contain.\<close>

theorem gateway_hears_browser:
  assumes "valid_client_message m" and "e_json_parse env = json_parse num"
    and "wire_size (encodeOutbound m) \<le> e_maxClientMessageBytes env"
  shows "onClientRaw env r (utf8_encode (encodeOutbound m)) w = onClientMessage env r m w"
  using assms by (rule browser_message)

theorem gateway_hears_browser_witness:
  "\<forall>w. onClientRaw \<lparr>e_uuid = \<lambda>_. [], e_clock = \<lambda>_. [], e_salt = \<lambda>_. [], e_kdf = \<lambda>_ _ _. [], e_json_parse = json_parse id,
       e_maxClientMessageBytes = 16384, e_backendMaxMessageBytes = 8192, e_ties = \<lambda>_ _ _. 0\<rparr>
     0 (utf8_encode (encodeOutbound (SendMessage (TDirect (js ''bob'')) [0x22, 0xD83D, 0xDE00]))) w
   = onClientMessage \<lparr>e_uuid = \<lambda>_. [], e_clock = \<lambda>_. [], e_salt = \<lambda>_. [], e_kdf = \<lambda>_ _ _. [], e_json_parse = json_parse id,
       e_maxClientMessageBytes = 16384, e_backendMaxMessageBytes = 8192, e_ties = \<lambda>_ _ _. 0\<rparr>
     0 (SendMessage (TDirect (js ''bob'')) [0x22, 0xD83D, 0xDE00]) w"
  using text_message_size(2) [of "js ''bob''" "[0x22, 0xD83D, 0xDE00]"]
  by (intro allI gateway_hears_browser) (simp_all add: sized_def limits)

text \<open>C35: Messages of ordinary length always fit.  With the default limit of 16 KiB, a text of up to
  2600 UTF-16 units to the public conversation, or to an id of up to 64 units, never exceeds
  the gateway's byte limit, however its characters are escaped and encoded.\<close>

theorem text_message_fits:
  assumes "length body \<le> 2600" and "length i \<le> 64" and "target \<in> {TPublic, TDirect i, TGroup i}"
  shows "wire_size (encodeOutbound (SendMessage target body)) \<le> 16384"
  using assms text_message_size [of body] text_message_size(2,3) [of i body] by auto

theorem text_message_fits_witness:
  "wire_size (encodeOutbound (SendMessage (TGroup (js ''group:1'')) (js ''hello''))) \<le> 16384"
  by (rule text_message_fits [of _ "js ''group:1''"]) simp_all

lemma control_units: "quote_units (replicate n 1) = concat (replicate n (unicode_escape 1))"
proof (induction n)
  case (Suc n)
  have "json_escape 1 = unicode_escape 1" by (simp add: json_escape_def short_escapes_def unit_def)
  with Suc show ?case by (cases n) (simp_all add: high_surrogate_def)
qed simp

lemma public_text_size:
  "wire_size (quote_units body) \<le> wire_size (encodeOutbound (SendMessage TPublic body))"
proof -
  let ?pre = "js ''{'' @ json_quote (js ''type'') @ js '':'' @ json_quote (js ''sendMessage'') @ js '','' @ json_quote (js ''target'')
      @ js '':'' @ stringify (target_json TPublic) @ js '','' @ json_quote (js ''text'') @ js '':'' @ [QUOTE]"
  have "wf_str (stringify (target_json TPublic))" by (rule wf_stringify) simp
  then have w: "wf_str ?pre" by (simp add: wf_str_append wf_quote quote_mark(1) del: target_json.simps)
  have "encodeOutbound (SendMessage TPublic body) = ?pre @ quote_units body @ [QUOTE] @ js ''}''"
    by (simp add: encodeOutbound_def tagged_def json_quote_def [of body])
  then show ?thesis
    by (simp only: wire_size_append [OF w] wire_size_append [OF wf_quote_units])
qed

text \<open>The limits of the two sides disagree.  A text of the maximal length that the validation
  accepts is refused for its size before it is validated, if its characters need escapes.\<close>

theorem valid_text_refused:
  assumes "e_maxClientMessageBytes env = 16384" and "m = SendMessage TPublic (replicate 4000 1)"
  shows "valid_client_message m \<and> onClientRaw env r (utf8_encode (encodeOutbound m)) w =
    sendTo r (error_msg ''MESSAGE_TOO_LARGE'' (js ''Message exceeds the '' @ show_nat 16384 @ js ''-byte limit.'')) w"
proof -
  have "wire_size (concat (replicate n (unicode_escape 1))) = 6 * n" for n
  proof (induction n)
    case (Suc n)
    have "wf_str (unicode_escape 1)" using wf_escape [of 1] by (simp add: json_escape_def short_escapes_def unit_def)
    with Suc show ?case by (simp add: wire_size_append unicode_escape_size)
  qed (simp add: wire_size_Nil)
  then have "24000 \<le> wire_size (encodeOutbound m)"
    using public_text_size [of "replicate 4000 1"] by (simp add: assms(2) control_units)
  then show ?thesis
    using assms(1) by (simp add: assms(2) onClientRaw_def sized_def limits wire_size_def [symmetric])
qed

theorem valid_text_refused_witness:
  "valid_client_message (SendMessage TPublic (replicate 4000 1))"
  using valid_text_refused [OF _ refl, of "\<lparr>e_uuid = \<lambda>_. [], e_clock = \<lambda>_. [], e_salt = \<lambda>_. [], e_kdf = \<lambda>_ _ _. [],
    e_json_parse = json_parse id, e_maxClientMessageBytes = 16384, e_backendMaxMessageBytes = 8192, e_ties = \<lambda>_ _ _. 0\<rparr>"]
  by (simp del: valid_client_message.simps)

lemma browser_text:
  assumes "server_of_json (server_json m) = Some m"
  shows "onmessage num (Some (utf8_decode (utf8_encode (encodeServerMessage m)))) c = does (EventIn (server_json m)) c"
proof -
  have p: "parseInbound num (encodeServerMessage m) = Some (server_json m)"
    using server_typed [of m] by (auto simp: parseInbound_def encodeServerMessage_def json_parse_stringify server_ok)
  have "encodeServerMessage m \<noteq> []"
    by (cases m) (simp_all add: encodeServerMessage_def tagged_def)
  with p show ?thesis
    by (simp add: onmessage_def Let_def encodeServerMessage_def utf8_roundtrip [OF wf_stringify] server_ok)
qed

text \<open>C12: The browser acts on what the gateway says.  The text of a server message that arrives at an
  open client has exactly the effect of handling this message in the provider: no field is lost,
  changed or misread on the way.\<close>

theorem browser_hears_gateway:
  assumes "p_client p = Some c"
    and "c' = onmessage num (Some (utf8_decode (utf8_encode (encodeServerMessage m)))) c"
  shows "absorb fresh c' p = handleServerEvent fresh m (p\<lparr>p_client := Some (does (EventIn (server_json m)) c)\<rparr>)"
  using assms(1) by (simp add: assms(2) browser_text server_read absorb_def)

theorem browser_hears_gateway_witness:
  "\<exists>p' es. absorb ([], []) (onmessage id (Some (utf8_decode (utf8_encode (encodeServerMessage (SUserOffline (js ''bob'')))))) (new_client [] None None))
        ((new_provider [])\<lparr>p_client := Some (new_client [] None None)\<rparr>) = handleServerEvent ([], []) (SUserOffline (js ''bob'')) p'
     \<and> p_client p' = Some es"
  using browser_hears_gateway [of "(new_provider [])\<lparr>p_client := Some (new_client [] None None)\<rparr>" "new_client [] None None",
      OF _ refl, of "([], [])" id "SUserOffline (js ''bob'')"]
  by (intro exI conjI) (auto simp del: handleServerEvent.simps)

end
