(* ===== verification/Views.thy ===== *)
theory Views
  imports ChatProvider
begin

section \<open>What the components compute (frontend/components, frontend/lib)\<close>

text \<open>
  The decisions the React components take before they produce markup: which rows the sidebar has
  and what they say, the header's title and subtitle, what a form hands on when it is submitted
  and what stays in it.  Markup, styles and icons are not modelled.  \<open>lower\<close> is
  \<open>toLowerCase\<close>.
\<close>

subsection \<open>Storage and ids (frontend/lib)\<close>

text \<open>\<open>stored\<close> is \<open>localStorage.getItem(..)\<close>; \<open>None\<close> stands for no window, an exception or no
  entry.\<close>

definition loadLastUsername :: "jsstr option \<Rightarrow> jsstr" where
  "loadLastUsername stored = (case stored of None \<Rightarrow> [] | Some s \<Rightarrow> trim s)"

definition getGatewayUrl :: "jsstr option \<Rightarrow> jsstr" where
  "getGatewayUrl env = (case env of
       None \<Rightarrow> js ''ws://127.0.0.1:8081''
     | Some s \<Rightarrow> if trim s = [] then js ''ws://127.0.0.1:8081'' else trim s)"

text \<open>The counter before the call, the result and the counter after it.\<close>

definition createId :: "jsstr \<Rightarrow> nat \<Rightarrow> nat \<Rightarrow> jsstr \<times> nat" where
  "createId pre now counter =
     (pre @ js ''-'' @ show_nat now @ js ''-'' @ show_nat (counter + 1), counter + 1)"

subsection \<open>Sidebar.tsx\<close>

fun contains_text :: "jsstr \<Rightarrow> jsstr \<Rightarrow> bool" where
  "contains_text [] t \<longleftrightarrow> t = []"
| "contains_text (c # s) t \<longleftrightarrow> take (length t) (c # s) = t \<or> contains_text s t"

definition directConversations :: "ChatState \<Rightarrow> Conversation list" where
  "directConversations state = filter (\<lambda>c. conv_type c = KDirect) (map snd (conversations state))"

definition groupConversations :: "ChatState \<Rightarrow> Conversation list" where
  "groupConversations state = filter (\<lambda>c. conv_type c = KGroup) (map snd (conversations state))"

definition filteredUsers :: "(jsstr \<Rightarrow> jsstr) \<Rightarrow> jsstr \<Rightarrow> User list \<Rightarrow> User list" where
  "filteredUsers lower query us =
     (let normalized = lower (trim query)
      in filter (\<lambda>u. if normalized \<noteq> [] then contains_text (lower (user_nickname u)) normalized else True) us)"

record SidebarRow =
  row_key :: jsstr
  row_active :: bool
  row_label :: jsstr
  row_badge :: "Presence option"
  row_unread :: nat

definition peer_of :: "ChatState \<Rightarrow> Conversation \<Rightarrow> User option" where
  "peer_of state c = (if truthy (conv_peerId c) then map_of (users state) (the (conv_peerId c)) else None)"

definition direct_label :: "ChatState \<Rightarrow> Conversation \<Rightarrow> jsstr" where
  "direct_label state c =
     (let live = (case peer_of state c of None \<Rightarrow> [] | Some u \<Rightarrow> user_nickname u)
      in if live \<noteq> [] then live else if conv_title c \<noteq> [] then conv_title c else js ''Offline user'')"

definition direct_row :: "ChatState \<Rightarrow> Conversation \<Rightarrow> SidebarRow" where
  "direct_row state c =
     \<lparr>row_key = conv_id c, row_active = (activeConversationId state = conv_id c), row_label = direct_label state c,
      row_badge = map_option user_presence (peer_of state c), row_unread = conv_unreadCount c\<rparr>"

definition group_row :: "ChatState \<Rightarrow> Conversation \<Rightarrow> SidebarRow" where
  "group_row state c =
     \<lparr>row_key = conv_id c, row_active = (activeConversationId state = conv_id c), row_label = conv_title c,
      row_badge = None, row_unread = conv_unreadCount c\<rparr>"

definition sidebar_rows :: "ChatState \<Rightarrow> SidebarRow list" where
  "sidebar_rows state = map (direct_row state) (directConversations state) @ map (group_row state) (groupConversations state)"

text \<open>The away toggle.\<close>

definition toggled_presence :: "ChatState \<Rightarrow> Presence" where
  "toggled_presence state = (if presence state = Away then Online else Away)"

subsection \<open>ConversationHeader.tsx, ChatApp.tsx, ChatLayout.tsx\<close>

definition onlineGroupMembers :: "ChatState \<Rightarrow> Conversation \<Rightarrow> nat" where
  "onlineGroupMembers state c =
     (if conv_type c = KGroup
      then length (filter (\<lambda>i. Some i = userId state \<or> map_of (users state) i \<noteq> None)
             (case conv_memberIds c of None \<Rightarrow> [] | Some ids \<Rightarrow> ids))
      else 0)"

definition header_subtitle :: "ChatState \<Rightarrow> Conversation \<Rightarrow> jsstr" where
  "header_subtitle state c =
     (case conv_type c of
        KDirect \<Rightarrow> (case peer_of state c of
            None \<Rightarrow> js ''This user is offline''
          | Some u \<Rightarrow> (if user_presence u = Away then js ''Away'' else js ''Online'') @ [32, 183] @ js '' Direct message'')
      | KGroup \<Rightarrow> show_nat (case conv_memberIds c of None \<Rightarrow> 0 | Some ids \<Rightarrow> length ids) @ js '' members '' @ [183] @ js '' ''
          @ show_nat (onlineGroupMembers state c) @ js '' online''
      | KPublic \<Rightarrow> js ''Visible to everyone online'')"

definition header_title :: "Conversation \<Rightarrow> jsstr" where
  "header_title c = (if conv_type c = KPublic then js ''Public Chat'' else conv_title c)"

datatype Screen = LoginScreen | ChatLayout

definition ChatApp :: "ChatState \<Rightarrow> Screen" where
  "ChatApp state = (if truthy (userId state) then ChatLayout else LoginScreen)"

definition composerPlaceholder :: "Conversation \<Rightarrow> jsstr" where
  "composerPlaceholder c =
     (if conv_type c = KPublic then js ''Message public chat'' @ [8230] else js ''Message '' @ conv_title c @ [8230])"

definition disconnected_banner :: "ChatState \<Rightarrow> bool" where
  "disconnected_banner state \<longleftrightarrow> connectionStatus state \<noteq> Connected \<and> hasConnectedOnce state"

subsection \<open>MessageBubble.tsx\<close>

datatype Bubble = NoticeBubble bool jsstr | ChatBubble bool "jsstr option" jsstr

text \<open>A notice says whether it is an error; a chat bubble whether it is one's own, and the
  sender's name if it is not.\<close>

definition bubble :: "Message \<Rightarrow> Bubble" where
  "bubble m =
     (let isSystem = (msg_kind m = CSystem); isError = (msg_kind m = CError);
          isOwn = (msg_isOwn m \<and> \<not> isSystem \<and> \<not> isError)
      in if isSystem \<or> isError then NoticeBubble isError (msg_content m)
         else ChatBubble isOwn (if isOwn then None else msg_sender m) (msg_content m))"

subsection \<open>MessageComposer.tsx\<close>

datatype ComposerEvent = Typed jsstr | KeyDown bool bool | ClickSend

text \<open>\<open>submit\<close>: the new value and what is handed to \<open>onSend\<close>.\<close>

definition composer_submit :: "bool \<Rightarrow> jsstr \<Rightarrow> jsstr \<times> jsstr option" where
  "composer_submit disabled value =
     (if trim value = [] \<or> disabled then (value, None) else ([], Some (trim value)))"

text \<open>A key is Enter or not, with Shift or not; a disabled button or text area gets no event.\<close>

fun composer_step :: "bool \<Rightarrow> ComposerEvent \<Rightarrow> jsstr \<Rightarrow> jsstr \<times> jsstr option" where
  "composer_step disabled (Typed v) value = (if disabled then (value, None) else (v, None))"
| "composer_step disabled (KeyDown enter shift) value =
     (if enter \<and> \<not> shift \<and> \<not> disabled then composer_submit disabled value else (value, None))"
| "composer_step disabled ClickSend value =
     (if disabled \<or> trim value = [] then (value, None) else composer_submit disabled value)"

fun composer_run :: "(bool \<times> ComposerEvent) list \<Rightarrow> jsstr \<Rightarrow> jsstr \<times> jsstr list" where
  "composer_run [] value = (value, [])"
| "composer_run ((disabled, e) # es) value =
     (let (v, s) = composer_step disabled e value; (v', ss) = composer_run es v
      in (v', (case s of None \<Rightarrow> ss | Some t \<Rightarrow> t # ss)))"

subsection \<open>NewGroupModal.tsx, LoginScreen.tsx\<close>

definition toggle :: "jsstr \<Rightarrow> jsstr list \<Rightarrow> jsstr list" where
  "toggle i selected = (if i \<in> set selected then filter (\<lambda>j. j \<noteq> i) selected else selected @ [i])"

definition canCreate :: "jsstr \<Rightarrow> jsstr list \<Rightarrow> bool" where
  "canCreate name selected \<longleftrightarrow> length (trim name) > 0 \<and> length selected > 0"

definition group_submit :: "jsstr \<Rightarrow> jsstr list \<Rightarrow> UserAction option" where
  "group_submit name selected = (if \<not> canCreate name selected then None else Some (DoCreateGroup (trim name) selected))"

datatype Mode = ModeLogin | ModeRegister

definition login_submit :: "Mode \<Rightarrow> jsstr \<Rightarrow> jsstr \<Rightarrow> UserAction option" where
  "login_submit mode username password =
     (if trim username = [] \<or> password = [] then None
      else Some (DoAuthenticate \<lparr>pa_register = (mode = ModeRegister), pa_username = trim username, pa_password = password\<rparr>))"

definition login_enabled :: "ChatState \<Rightarrow> jsstr \<Rightarrow> jsstr \<Rightarrow> bool" where
  "login_enabled state username password \<longleftrightarrow> \<not> (authenticating state \<or> trim username = [] \<or> password = [])"

subsection \<open>ConnectionStatusBadge.tsx\<close>

fun getConnectionStatusLabel :: "ConnectionStatus \<Rightarrow> jsstr" where
  "getConnectionStatusLabel Idle = js ''Not connected''"
| "getConnectionStatusLabel StConnecting = js ''Connecting'' @ [8230]"
| "getConnectionStatusLabel Connected = js ''Connected''"
| "getConnectionStatusLabel Disconnected = js ''Disconnected''"
| "getConnectionStatusLabel Reconnecting = js ''Reconnecting'' @ [8230]"
| "getConnectionStatusLabel StFailed = js ''Connection failed''"

subsection \<open>The rows are the conversations\<close>

definition chat_wf :: "ChatState \<Rightarrow> bool" where
  "chat_wf s \<longleftrightarrow> distinct (map fst (conversations s))
     \<and> (\<forall>k c. map_of (conversations s) k = Some c \<longrightarrow> (conv_type c = KPublic \<longleftrightarrow> k = PUBLIC_CONVERSATION_ID))"

lemma chat_wf_same: "chat_wf s \<Longrightarrow> conversations t = conversations s \<Longrightarrow> chat_wf t"
  by (simp add: chat_wf_def)

lemma chat_wf_put:
  assumes "chat_wf s" and "conversations t = AList.update k v (conversations s)"
    and "conv_type v = KPublic \<longleftrightarrow> k = PUBLIC_CONVERSATION_ID"
  shows "chat_wf t"
  using assms alist.wf_put [of "conversations s" k v] by (simp add: chat_wf_def alist.get_put)

lemma chat_wf_map_public: "chat_wf s \<Longrightarrow> conversations t = map_public f (conversations s) \<Longrightarrow> chat_wf t"
proof (cases "map_of (conversations s) PUBLIC_CONVERSATION_ID")
  case None
  then show "chat_wf s \<Longrightarrow> conversations t = map_public f (conversations s) \<Longrightarrow> ?thesis"
    by (intro chat_wf_same [of s t]) (simp_all add: map_public_def)
next
  case (Some p)
  assume s: "chat_wf s" and t: "conversations t = map_public f (conversations s)"
  let ?v = "p\<lparr>conv_memberIds := Some (f (case conv_memberIds p of None \<Rightarrow> [] | Some ids \<Rightarrow> ids))\<rparr>"
  have e: "conversations t = AList.update PUBLIC_CONVERSATION_ID ?v (conversations s)"
    by (simp add: t map_public_def Some)
  have "conv_type p = KPublic" using s Some by (simp add: chat_wf_def)
  then show ?thesis by (intro chat_wf_put [OF s e]) simp
qed

lemma summary_type: "conv_type (conversationFromSummary c me) = cs_kind c"
  by (simp add: conversationFromSummary_def createPublicConversation_def split: ConversationKind.split)

lemma ready_distinct: "distinct (map fst (fold (ready_message me) ms (ready_conversations me us cs)))"
proof -
  have "distinct (map fst (ready_conversations me us cs))"
  proof (induction cs rule: rev_induct)
    case (snoc c cs)
    then show ?case
      using alist.wf_put [of "ready_conversations me us cs" "cs_id c" "conversationFromSummary c me"]
      by (simp add: ready_conversations_def)
  qed (simp add: ready_conversations_def)
  moreover have "distinct (map fst convs) \<Longrightarrow> distinct (map fst (ready_message me m convs))" for m convs
    by (cases "map_of convs (ms_conversationId m)") (simp_all add: ready_message_def alist.wf_put)
  ultimately show ?thesis
    by (induction ms rule: rev_induct) simp_all
qed

lemma add_messages_type: "conv_type (fold (\<lambda>m. add_message (f m)) ms c) = conv_type c"
  by (induction ms arbitrary: c) simp_all

lemma chat_wf_ready:
  assumes "action_ok (READY me n us cs ms)"
  shows "chat_wf (reduce_READY me n us cs ms s)"
proof -
  have "conv_type c = KPublic \<longleftrightarrow> k = PUBLIC_CONVERSATION_ID"
    if c: "map_of (ready_conversations me us cs) k = Some c" for k c
  proof (cases "k = PUBLIC_CONVERSATION_ID")
    case True
    with c show ?thesis by (auto simp: ready_conversations_get createPublicConversation_def)
  next
    case False
    with c obtain d where "find (\<lambda>c. cs_id c = k) (rev cs) = Some d" and c: "c = conversationFromSummary d me"
      by (auto simp: ready_conversations_get)
    then have "d \<in> set cs" "cs_id d = k" using find_Some_set by fastforce+
    with assms False show ?thesis by (auto simp: c summary_type)
  qed
  then show ?thesis
    using ready_distinct by (auto simp: chat_wf_def reduce_READY_def ready_messages_get add_messages_type)
qed

lemma chat_wf_step:
  assumes "chat_inv s" and "chat_wf s" and "action_ok a"
  shows "chat_wf (chatReducer fresh s a)"
proof (cases a)
  case (READY me n us cs ms)
  then show ?thesis using chat_wf_ready assms(3) by simp
next
  case (USER_UPDATE u)
  then show ?thesis
    by (intro chat_wf_map_public [OF assms(2)]) (simp add: reduce_USER_UPDATE_def Let_def)
next
  case (USER_OFFLINE i)
  then show ?thesis
    by (intro chat_wf_map_public [OF assms(2)]) (simp add: reduce_USER_OFFLINE_def)
next
  case (CONVERSATION_CREATED c)
  have "cs_kind c \<noteq> KPublic" "cs_id c \<noteq> PUBLIC_CONVERSATION_ID" using assms(3) CONVERSATION_CREATED by simp_all
  with CONVERSATION_CREATED show ?thesis
    by (cases "userId s"; cases "userId s = Some []")
      (auto simp: reduce_CONVERSATION_CREATED_def Let_def summary_type from_summary_fields
        intro!: assms(2) chat_wf_put [OF assms(2)] split: option.split)
next
  case (MESSAGE_RECEIVED m)
  have i: "conv_id (conversation_for m s) = ms_conversationId m"
    using assms(1) by (simp add: conversation_for_def chat_inv_def split: option.split)
  have "conv_type (conversation_for m s) = KPublic \<longleftrightarrow> ms_conversationId m = PUBLIC_CONVERSATION_ID"
    using assms(2) by (auto simp: conversation_for_def chat_wf_def createPublicConversation_def split: option.split)
  moreover have "\<exists>ms n. conversations (chatReducer fresh s a) = AList.update (ms_conversationId m)
      ((conversation_for m s)\<lparr>conv_messages := ms, conv_unreadCount := n\<rparr>) (conversations s)"
    by (simp add: MESSAGE_RECEIVED reduce_MESSAGE_RECEIVED_def Let_def i) blast
  ultimately show ?thesis by (elim exE) (rule chat_wf_put [OF assms(2)], assumption, simp)
next
  case (ERROR_MESSAGE c t i)
  let ?k = "case i of None \<Rightarrow> activeConversationId s | Some i \<Rightarrow> i"
  show ?thesis
  proof (cases "map_of (conversations s) ?k")
    case None
    with ERROR_MESSAGE show ?thesis
      by (intro chat_wf_same [OF assms(2)]) (simp add: reduce_ERROR_MESSAGE_def Let_def)
  next
    case (Some v)
    then have "conv_type v = KPublic \<longleftrightarrow> ?k = PUBLIC_CONVERSATION_ID" using assms(2) by (simp add: chat_wf_def)
    moreover have "\<exists>e. conversations (chatReducer fresh s a) = AList.update ?k (add_message e v) (conversations s)"
      by (simp add: ERROR_MESSAGE reduce_ERROR_MESSAGE_def Let_def Some) blast
    ultimately show ?thesis by (elim exE) (rule chat_wf_put [OF assms(2)], assumption, simp)
  qed
next
  case (SET_ACTIVE_CONVERSATION i)
  show ?thesis
  proof (cases "map_of (conversations s) i")
    case None
    with assms(2) show ?thesis by (simp add: SET_ACTIVE_CONVERSATION reduce_SET_ACTIVE_def)
  next
    case (Some v)
    then have "conv_type v = KPublic \<longleftrightarrow> i = PUBLIC_CONVERSATION_ID" using assms(2) by (simp add: chat_wf_def)
    moreover have e: "conversations (chatReducer fresh s a) = AList.update i (v\<lparr>conv_unreadCount := 0\<rparr>) (conversations s)"
      by (simp add: SET_ACTIVE_CONVERSATION reduce_SET_ACTIVE_def Some)
    ultimately show ?thesis by (intro chat_wf_put [OF assms(2) e]) simp
  qed
next
  case LOGGED_OUT
  then show ?thesis by (auto simp: chat_wf_def reduce_LOGGED_OUT_def createPublicConversation_def)
qed (rule chat_wf_same [OF assms(2)], simp)+

interpretation rows: invariant_system "\<lambda>s. \<exists>url. s = createInitialState url" chat_step "\<lambda>s. chat_inv s \<and> chat_wf s"
proof unfold_locales
  show "\<exists>url. s = createInitialState url \<Longrightarrow> chat_inv s \<and> chat_wf s" for s
    using initial_inv by (auto simp: chat_wf_def createInitialState_def createPublicConversation_def split: if_splits)
  show "chat_inv s \<and> chat_wf s \<Longrightarrow> chat_step s t \<Longrightarrow> chat_inv t \<and> chat_wf t" for s t
    by (auto simp: chat_step_def intro: chat_inv_step chat_wf_step)
qed

subsection \<open>Properties\<close>

lemma wf_values:
  assumes "chat_inv s" and "chat_wf s"
  shows "set (map snd (conversations s)) = {c. map_of (conversations s) (conv_id c) = Some c}"
    and "distinct (map conv_id (map snd (conversations s)))"
proof -
  have d: "distinct (map fst (conversations s))" using assms(2) by (simp add: chat_wf_def)
  have k: "conv_id c = k" if "(k, c) \<in> set (conversations s)" for k c
  proof -
    from d that have "map_of (conversations s) k = Some c" by (rule map_of_is_SomeI)
    then show ?thesis using assms(1) by (simp add: chat_inv_def)
  qed
  have "map conv_id (map snd (conversations s)) = map fst (conversations s)"
    using k by auto
  with d show "distinct (map conv_id (map snd (conversations s)))" by metis
  show "set (map snd (conversations s)) = {c. map_of (conversations s) (conv_id c) = Some c}"
  proof (intro set_eqI iffI)
    fix c assume "c \<in> set (map snd (conversations s))"
    then obtain i where "(i, c) \<in> set (conversations s)" by auto
    with k [OF this] d show "c \<in> {c. map_of (conversations s) (conv_id c) = Some c}" by simp
  next
    fix c assume "c \<in> {c. map_of (conversations s) (conv_id c) = Some c}"
    then have "(conv_id c, c) \<in> set (conversations s)" by (auto dest: map_of_SomeD)
    then show "c \<in> set (map snd (conversations s))" by force
  qed
qed

lemma distinct_two_filters:
  "distinct (map f xs) \<Longrightarrow> (\<And>x. P x \<Longrightarrow> \<not> Q x) \<Longrightarrow> distinct (map f (filter P xs) @ map f (filter Q xs))"
  by (induction xs) auto

text \<open>C39: The sidebar lists every conversation once.  In every reachable state its direct and group
  rows are, without repetition, exactly the conversations other than the public one, each row
  shows the unread count of its conversation, and the row of the selected conversation shows
  none.\<close>

theorem sidebar_complete:
  assumes "chat_step\<^sup>*\<^sup>* (createInitialState url) s"
  shows "distinct (map row_key (sidebar_rows s))
    \<and> set (map row_key (sidebar_rows s)) = {k. k \<noteq> PUBLIC_CONVERSATION_ID \<and> map_of (conversations s) k \<noteq> None}
    \<and> (\<forall>row \<in> set (sidebar_rows s). map_option conv_unreadCount (map_of (conversations s) (row_key row)) = Some (row_unread row)
          \<and> (row_active row \<longrightarrow> row_unread row = 0))"
proof -
  have inv: "chat_inv s" "chat_wf s" using rows.inv_reachable [OF _ assms] by blast+
  note v = wf_values [OF inv]
  let ?cs = "map snd (conversations s)"
  have keys: "map row_key (sidebar_rows s) = map conv_id (directConversations s) @ map conv_id (groupConversations s)"
    by (simp add: sidebar_rows_def direct_row_def group_row_def comp_def)
  have once: "distinct (map row_key (sidebar_rows s))"
    unfolding keys directConversations_def groupConversations_def by (rule distinct_two_filters [OF v(2)]) simp
  have ty: "conv_type c = KPublic \<longleftrightarrow> conv_id c = PUBLIC_CONVERSATION_ID" if "c \<in> set ?cs" for c
    using inv(2) that unfolding v(1) by (simp add: chat_wf_def)
  have rows: "set (directConversations s) \<union> set (groupConversations s) = {c \<in> set ?cs. conv_id c \<noteq> PUBLIC_CONVERSATION_ID}"
  proof -
    have "conv_type c = KDirect \<or> conv_type c = KGroup \<longleftrightarrow> conv_id c \<noteq> PUBLIC_CONVERSATION_ID" if "c \<in> set ?cs" for c
      using ty [OF that] by (cases "conv_type c") simp_all
    then show ?thesis unfolding directConversations_def groupConversations_def set_filter by blast
  qed
  have "set (map row_key (sidebar_rows s)) = conv_id ` {c \<in> set ?cs. conv_id c \<noteq> PUBLIC_CONVERSATION_ID}"
    unfolding keys rows [symmetric] by (simp only: set_append set_map image_Un)
  also have "\<dots> = {k. k \<noteq> PUBLIC_CONVERSATION_ID \<and> map_of (conversations s) k \<noteq> None}"
  proof -
    have "conv_id c = k" if "map_of (conversations s) k = Some c" for k c using inv(1) that by (simp add: chat_inv_def)
    then show ?thesis unfolding v(1) by (auto simp: image_iff)
  qed
  finally have all: "set (map row_key (sidebar_rows s)) = {k. k \<noteq> PUBLIC_CONVERSATION_ID \<and> map_of (conversations s) k \<noteq> None}" .
  have unread: "map_option conv_unreadCount (map_of (conversations s) (row_key row)) = Some (row_unread row)
      \<and> (row_active row \<longrightarrow> row_unread row = 0)" if row: "row \<in> set (sidebar_rows s)" for row
  proof -
    have "row \<in> direct_row s ` set (directConversations s) \<union> group_row s ` set (groupConversations s)"
      using row by (simp only: sidebar_rows_def set_append set_map)
    then obtain c where "c \<in> set (directConversations s) \<union> set (groupConversations s)"
      and rc: "row = direct_row s c \<or> row = group_row s c"
      by blast
    then have c: "c \<in> set ?cs" unfolding rows by simp
    from rc have r: "row_key row = conv_id c" "row_unread row = conv_unreadCount c"
      "row_active row = (activeConversationId s = conv_id c)"
      by (elim disjE; simp add: direct_row_def group_row_def)+
    from c have m: "map_of (conversations s) (conv_id c) = Some c" unfolding v(1) by simp
    obtain a where "map_of (conversations s) (activeConversationId s) = Some a" "conv_unreadCount a = 0"
      using inv(1) unfolding chat_inv_def by blast
    with m show ?thesis by (cases "activeConversationId s = conv_id c") (simp_all add: r)
  qed
  show ?thesis by (intro conjI ballI once all unread)
qed

theorem sidebar_complete_witness:
  "map row_key (sidebar_rows (chatReducer ([], []) (createInitialState []) (MESSAGE_RECEIVED
      \<lparr>ms_id = js ''m'', ms_conversationId = js ''direct:x'', ms_kind = Chat, ms_senderId = None, ms_senderUsername = None,
       ms_text = js ''hi'', ms_timestamp = js ''t''\<rparr>))) = [js ''direct:x'']
   \<and> distinct (map row_key (sidebar_rows (chatReducer ([], []) (createInitialState []) (MESSAGE_RECEIVED
      \<lparr>ms_id = js ''m'', ms_conversationId = js ''direct:x'', ms_kind = Chat, ms_senderId = None, ms_senderUsername = None,
       ms_text = js ''hi'', ms_timestamp = js ''t''\<rparr>))))"
proof -
  let ?m = "\<lparr>ms_id = js ''m'', ms_conversationId = js ''direct:x'', ms_kind = Chat, ms_senderId = None, ms_senderUsername = None,
       ms_text = js ''hi'', ms_timestamp = js ''t''\<rparr>"
  have "chat_step (createInitialState []) (chatReducer ([], []) (createInitialState []) (MESSAGE_RECEIVED ?m))"
    unfolding chat_step_def by (intro exI conjI [rotated], rule refl) simp
  from conjunct1 [OF sidebar_complete [OF r_into_rtranclp [where r = chat_step, OF this]]]
  show ?thesis
    by (simp del: chatReducer.simps) (simp add: reduce_MESSAGE_RECEIVED_def conversation_for_def createInitialState_def Let_def
      PUBLIC_CONVERSATION_ID_def sidebar_rows_def directConversations_def groupConversations_def direct_row_def createPublicConversation_def)
qed

text \<open>The sidebar and the header agree.  For the selected direct conversation with a known peer, the
  label of its row is the title the header shows: the peer's live nickname, else the stored
  title, else a placeholder.\<close>

theorem label_matches_header:
  assumes "map_of (conversations s) (activeConversationId s) = Some c" and "conv_type c = KDirect" and "truthy (conv_peerId c)"
  shows "\<exists>a. activeConversation s = Some a \<and> header_title a = row_label (direct_row s c)"
  using assms
  by (auto simp: activeConversation_def direct_row_def direct_label_def peer_of_def header_title_def Let_def split: option.split)

theorem label_matches_header_witness:
  "\<exists>s c a. conv_title c = [] \<and> activeConversation s = Some a \<and> header_title a = row_label (direct_row s c)"
proof -
  let ?c = "\<lparr>conv_id = js ''direct:x'', conv_type = KDirect, conv_title = [], conv_peerId = Some (js ''bob''),
      conv_memberIds = None, conv_messages = [], conv_unreadCount = 0\<rparr>"
  let ?s = "(createInitialState [])\<lparr>conversations := [(js ''direct:x'', ?c)], activeConversationId := js ''direct:x''\<rparr>"
  have "map_of (conversations ?s) (activeConversationId ?s) = Some ?c" "conv_type ?c = KDirect" "truthy (conv_peerId ?c)"
    by (simp_all add: truthy_def)
  from label_matches_header [OF this] obtain a
    where "activeConversation ?s = Some a \<and> header_title a = row_label (direct_row ?s ?c)" by blast
  moreover have "conv_title ?c = []" by simp
  ultimately show ?thesis by blast
qed

definition composer_hands_on :: "bool \<Rightarrow> ComposerEvent \<Rightarrow> jsstr option \<Rightarrow> bool" where
  "composer_hands_on d e out \<longleftrightarrow> (case out of None \<Rightarrow> True
     | Some t \<Rightarrow> t \<noteq> [] \<and> trim t = t \<and> \<not> d \<and> (e = KeyDown True False \<or> e = ClickSend))"

lemma composer_step_spec: "composer_hands_on d e (snd (composer_step d e typed))"
  by (cases e) (simp_all add: composer_hands_on_def composer_submit_def trim_idem)

text \<open>The composer hands on what was typed.  Whatever the user types and presses, every text it
  hands on is trimmed and not empty, it hands on at most one text per key press or click, and
  none while it is disabled.\<close>

theorem composer_sends_trimmed:
  assumes "composer_run es typed = (left, sent)"
  shows "(\<forall>t \<in> set sent. t \<noteq> [] \<and> trim t = t)
    \<and> length sent \<le> length (filter (\<lambda>(disabled, e). \<not> disabled \<and> (e = KeyDown True False \<or> e = ClickSend)) es)"
  using assms
proof (induction es arbitrary: typed sent)
  case (Cons de es)
  obtain d e where de: "de = (d, e)" by (cases de)
  obtain v o' where step: "composer_step d e typed = (v, o')" by (cases "composer_step d e typed")
  obtain ss where rest: "composer_run es v = (left, ss)" and sent: "sent = (case o' of None \<Rightarrow> ss | Some t \<Rightarrow> t # ss)"
    using Cons.prems by (simp add: de step split: prod.splits)
  have "composer_hands_on d e o'" using step composer_step_spec [of d e typed] by simp
  with Cons.IH [OF rest] show ?case
    by (cases o') (auto simp: composer_hands_on_def sent de)
qed simp

theorem composer_sends_trimmed_witness:
  "trim (js '' hi '') \<noteq> [] \<and> length (snd (composer_run [(False, Typed (js '' hi '')), (False, KeyDown True False), (False, ClickSend)] [])) \<le> 2"
  using composer_sends_trimmed [of "[(False, Typed (js '' hi '')), (False, KeyDown True False), (False, ClickSend)]" "[]", OF prod.collapse [symmetric]]
  by (simp add: trim_def js_def js_space_def)

text \<open>A login after the client has given up hangs.  Once the client has exhausted its attempts
  (or the very first connection was refused) nothing opens a connection again; submitting the
  login form then only stores the credentials: the screen is busy, its button is disabled, no
  event of the client can happen and no error is shown.\<close>

theorem login_hangs_without_client:
  assumes "p_client p = Some c" and "k_socket c = None" and "k_reconnectTimer c = None"
    and "login_submit mode username password = Some action" and "p' = act fresh refused action p"
  shows "authenticating (p_state p') \<and> \<not> login_enabled (p_state p') username password \<and> authError (p_state p') = None
    \<and> p_client p' = Some c \<and> (\<nexists>d. client_event num c d)"
proof -
  obtain a where a: "action = DoAuthenticate a" using assms(4) by (auto simp: login_submit_def split: if_splits)
  have "\<not> isConnected c" using assms(2) by (simp add: isConnected_def)
  then have "p' = (dispatch fresh (SET_AUTHENTICATING True) p)\<lparr>p_pendingAuth := Some a\<rparr>"
    using assms(1) by (simp add: assms(5) a authenticate_def ensureClient_def connected_def Let_def)
  moreover have "\<nexists>d. client_event num c d" using assms(2,3) by (auto elim: client_eventE)
  ultimately show ?thesis using assms(1) by (simp add: login_enabled_def)
qed

theorem login_hangs_without_client_witness:
  "\<exists>p p' action. login_submit ModeLogin (js ''amy'') (js ''pw'') = Some action \<and> p' = act ([], []) None action p
     \<and> \<not> login_enabled (p_state p') (js ''amy'') (js ''pw'')"
proof -
  let ?p = "(new_provider [])\<lparr>p_client := Some (client_connect (Some []) (new_client [] None None))\<rparr>"
  obtain action where a: "login_submit ModeLogin (js ''amy'') (js ''pw'') = Some action"
    by (simp add: login_submit_def trim_def js_def js_space_def)
  have c: "p_client ?p = Some (client_connect (Some []) (new_client [] None None))"
    "k_socket (client_connect (Some []) (new_client [] None None)) = None"
    "k_reconnectTimer (client_connect (Some []) (new_client [] None None)) = None"
    by simp_all
  from login_hangs_without_client [OF c a refl, of "([], [])" None] a show ?thesis by blast
qed

end
