(* ===== verification/ChatSystem.thy ===== *)
theory ChatSystem
  imports GatewayScenario EndToEnd Views
begin

section \<open>The gateway and its browsers together\<close>

text \<open>
  One gateway with any number of browsers.  A browser's socket leads to a session of the gateway
  and receives the messages that the gateway sends there, in order, as UTF-8 text.  In between
  the gateway makes any of its steps: also for clients that are no browsers, which send what they
  want.  The system is an \<open>invariant_system\<close> whose invariant joins the gateway's with the
  browsers'.
\<close>

subsection \<open>The system\<close>

record System =
  y_gateway :: World
  y_browser :: "nat \<Rightarrow> Provider"
  y_link :: "nat \<Rightarrow> nat option"
  y_seen :: "nat \<Rightarrow> nat"

definition set_browser :: "nat \<Rightarrow> Provider \<Rightarrow> System \<Rightarrow> System" where
  "set_browser b p y = y\<lparr>y_browser := (y_browser y)(b := p)\<rparr>"

text \<open>What the gateway has sent to a session.\<close>

fun sent_to :: "nat \<Rightarrow> Effect list \<Rightarrow> ServerMessage list" where
  "sent_to r [] = []"
| "sent_to r (Sent q m # es) = (if q = r then m # sent_to r es else sent_to r es)"
| "sent_to r (_ # es) = sent_to r es"

definition wire_text :: "ServerMessage \<Rightarrow> jsstr" where
  "wire_text m = utf8_decode (utf8_encode (encodeServerMessage m))"

inductive system_step :: "Env \<Rightarrow> (jsstr \<Rightarrow> jsstr) \<Rightarrow> System \<Rightarrow> System \<Rightarrow> bool" for env num where
  gateway_moves: "gateway_step env (y_gateway y) w \<Longrightarrow> system_step env num y (y\<lparr>y_gateway := w\<rparr>)"
| user_acts: "system_step env num y (set_browser b (act fresh refused a (y_browser y b)) y)"
| browser_renders: "system_step env num y (set_browser b (render (y_browser y b)) y)"
| browser_mounts: "system_step env num y (set_browser b (ensureClient fresh refused (y_browser y b)) y)"
| socket_opens: "p_client (y_browser y b) = Some c \<Longrightarrow> k_socket c = Some SkConnecting \<Longrightarrow> \<not> w_crashed (y_gateway y) \<Longrightarrow>
    system_step env num y (set_browser b (absorb fresh (onopen (c\<lparr>k_socket := Some SkOpen\<rparr>)) (y_browser y b))
      (y\<lparr>y_gateway := onConnection env (y_gateway y), y_link := (y_link y)(b := Some (w_nsess (y_gateway y))),
         y_seen := (y_seen y)(b := 0)\<rparr>))"
| message_arrives: "p_client (y_browser y b) = Some c \<Longrightarrow> k_socket c = Some SkOpen \<Longrightarrow> y_link y b = Some r \<Longrightarrow>
    y_seen y b < length (sent_to r (w_out (y_gateway y))) \<Longrightarrow> m = sent_to r (w_out (y_gateway y)) ! y_seen y b \<Longrightarrow>
    system_step env num y (set_browser b (absorb fresh (onmessage num (Some (wire_text m)) c) (y_browser y b))
      (y\<lparr>y_seen := (y_seen y)(b := Suc (y_seen y b))\<rparr>))"
| socket_ends: "p_client (y_browser y b) = Some c \<Longrightarrow> client_event num c d \<Longrightarrow> k_socket d \<noteq> Some SkOpen \<Longrightarrow>
    system_step env num y (set_browser b (absorb fresh d (y_browser y b)) (y\<lparr>y_link := (y_link y)(b := None)\<rparr>))"

definition system_init :: "System \<Rightarrow> bool" where
  "system_init y \<longleftrightarrow> gateway_init (y_gateway y) \<and> (\<forall>b. \<exists>url. y_browser y b = new_provider url)
     \<and> y_link y = (\<lambda>_. None) \<and> y_seen y = (\<lambda>_. 0)"

subsection \<open>What the gateway announces\<close>

fun announced_ok :: "ServerMessage \<Rightarrow> bool" where
  "announced_ok (SConversationCreated c) \<longleftrightarrow> private_summary c"
| "announced_ok (SReady _ _ _ cs _) \<longleftrightarrow>
     (\<forall>c \<in> set cs. (cs_kind c = KPublic \<and> cs_id c = PUBLIC_CONVERSATION_ID) \<or> private_summary c)"
| "announced_ok _ \<longleftrightarrow> True"

definition announces_ok :: "World \<Rightarrow> bool" where
  "announces_ok w \<longleftrightarrow> (\<forall>r m. Sent r m \<in> set (w_out w) \<longrightarrow> announced_ok m)"

lemma announced_audience: "audience_ok members w (Sent r m) \<Longrightarrow> announced_ok m"
  by (cases m) auto

lemma announces_step: "announces_ok w \<Longrightarrow> gw_inv w \<Longrightarrow> gateway_step env w w' \<Longrightarrow> announces_ok w'"
  using step_out [of env w w'] announced_audience unfolding announces_ok_def by fastforce

lemma sent_to_mem: "m \<in> set (sent_to r es) \<Longrightarrow> Sent r m \<in> set es"
  by (induction r es rule: sent_to.induct) (auto split: if_splits)

subsection \<open>The view of a browser\<close>

definition view_ok :: "Provider \<Rightarrow> bool" where
  "view_ok p \<longleftrightarrow> chat_inv (p_state p) \<and> chat_wf (p_state p)"

lemma view_fields [simp]:
  "view_ok (p\<lparr>p_client := c\<rparr>) = view_ok p" "view_ok (p\<lparr>p_pendingAuth := a\<rparr>) = view_ok p"
  "view_ok (p\<lparr>p_stateRef := s\<rparr>) = view_ok p" "view_ok (p\<lparr>p_lastUsername := u\<rparr>) = view_ok p"
  by (simp_all add: view_ok_def)

lemma view_dispatch [intro]: "view_ok p \<Longrightarrow> action_ok a \<Longrightarrow> view_ok (dispatch fresh a p)"
  by (simp add: view_ok_def chat_inv_step chat_wf_step)

lemma view_through: "view_ok p \<Longrightarrow> view_ok (fst (through_client fresh (client_send m) p))"
  by (auto simp: through_client_def Let_def split: option.split prod.split)

lemma view_through': "view_ok p \<Longrightarrow> through_client fresh (client_send m) p = (p', b) \<Longrightarrow> view_ok p'"
  using view_through [of p fresh m] by simp

lemma view_event: "view_ok p \<Longrightarrow> announced_ok m \<Longrightarrow> view_ok (handleServerEvent fresh m p)"
  by (cases m) (auto simp: private_summary_def intro!: view_dispatch)

fun effect_ok :: "ClientEffect \<Rightarrow> bool" where
  "effect_ok (EventIn v) \<longleftrightarrow> (\<forall>m. server_of_json v = Some m \<longrightarrow> announced_ok m)"
| "effect_ok _ \<longleftrightarrow> True"

lemma view_status: "view_ok p \<Longrightarrow> view_ok (onStatusChange fresh st p)"
  by (auto simp: onStatusChange_def Let_def intro!: view_through view_dispatch split: option.split)

lemma view_effect: "view_ok p \<Longrightarrow> effect_ok e \<Longrightarrow> view_ok (on_effect fresh e p)"
  by (cases e) (auto simp: view_status view_event split: option.split)

lemma view_effects: "view_ok p \<Longrightarrow> \<forall>e \<in> set es. effect_ok e \<Longrightarrow> view_ok (fold (on_effect fresh) es p)"
  by (induction es arbitrary: p) (auto simp: view_effect)

lemma view_absorb:
  assumes "view_ok p" and "p_client p = Some c" and "k_out d = k_out c @ es" and "\<forall>e \<in> set es. effect_ok e"
  shows "view_ok (absorb fresh d p)"
  using assms by (simp add: absorb_def view_effects)

subsection \<open>Which operations of the client bring events\<close>

definition quiet :: "ThreadLinkClient \<Rightarrow> ThreadLinkClient \<Rightarrow> bool" where
  "quiet c d \<longleftrightarrow> (\<exists>es. k_out d = k_out c @ es \<and> (\<forall>e \<in> set es. effect_ok e))"

lemma quiet_trans: "quiet c d \<Longrightarrow> quiet d e \<Longrightarrow> quiet c e"
  unfolding quiet_def by (elim exE conjE, rule_tac x = "es @ esa" in exI) auto

lemma quiet_same: "k_out d = k_out c \<Longrightarrow> quiet c d"
  by (simp add: quiet_def)

lemma quiet_does: "effect_ok e \<Longrightarrow> quiet c (does e c)"
  by (simp add: quiet_def)

lemma quiet_status: "quiet c (setStatus st c)"
  by (simp add: quiet_def)

lemma view_quiet: "view_ok p \<Longrightarrow> p_client p = Some c \<Longrightarrow> quiet c d \<Longrightarrow> view_ok (absorb fresh d p)"
  unfolding quiet_def using view_absorb by blast

lemma quiet_clear: "quiet c (clearReconnectTimer c)"
  by (auto simp: clearReconnectTimer_def quiet_def)

lemma quiet_closeSocket: "quiet c (closeSocket u c)"
  by (auto simp: closeSocket_def Let_def quiet_def split: option.split)

lemma quiet_connect: "quiet c (client_connect refused c)"
proof -
  have "quiet c (closeSocket False (clearReconnectTimer (c\<lparr>k_intentionalClose := False\<rparr>)))"
    by (rule quiet_trans [OF quiet_trans [OF quiet_same quiet_clear] quiet_closeSocket]) simp
  then show ?thesis
    unfolding client_connect_def Let_def by (auto simp: quiet_def split: option.split)
qed

lemma quiet_schedule: "quiet c (scheduleReconnect c)"
  by (simp add: scheduleReconnect_def Let_def quiet_def)

lemma quiet_event:
  assumes "client_event num c d" and "k_socket d \<noteq> Some SkOpen"
  shows "quiet c d"
  using assms
proof cases
  case ev_close
  have "quiet c (c\<lparr>k_socket := None\<rparr>)" by (rule quiet_same) simp
  then show ?thesis
    unfolding ev_close onclose_def Let_def by (auto intro: quiet_trans quiet_status quiet_schedule)
next
  case (ev_message data)
  then show ?thesis using assms(2) by (auto simp: onmessage_def Let_def split: option.splits if_splits)
qed (use quiet_connect in \<open>auto simp: onopen_def onerror_def quiet_def\<close>)

lemma view_ensure: "view_ok p \<Longrightarrow> view_ok (ensureClient fresh refused p)"
  by (auto simp: ensureClient_def Let_def intro!: view_quiet [OF _ _ quiet_connect] split: option.split)

lemma view_startDirect:
  assumes "view_ok p"
  shows "view_ok (startDirectConversation fresh peer p)"
  using assms
  by (auto simp: startDirectConversation_def Let_def chat_directConversationId_gateway direct_not_public intro!: view_dispatch split: option.split)

lemma view_act:
  assumes "view_ok p"
  shows "view_ok (act fresh refused a p)"
proof (cases a)
  case (DoAuthenticate x)
  then show ?thesis using assms
    by (auto simp: authenticate_def Let_def intro!: view_through view_ensure view_dispatch)
next
  case (DoSendMessage x)
  then show ?thesis using assms
    by (auto simp: sendMessage_def Let_def intro!: view_through view_dispatch split: option.split ConversationKind.split)
next
  case (DoChangeNickname x)
  then show ?thesis using assms
    by (auto simp: changeNickname_def Let_def intro!: view_dispatch dest: view_through' split: prod.split)
next
  case (DoCreateGroup x y)
  then show ?thesis using assms by (auto simp: createGroup_def Let_def intro!: view_through view_dispatch)
qed (use assms in \<open>auto simp: view_startDirect intro!: view_through view_dispatch\<close>)

subsection \<open>The joint invariant\<close>

definition system_inv :: "System \<Rightarrow> bool" where
  "system_inv y \<longleftrightarrow> gw_inv (y_gateway y) \<and> announces_ok (y_gateway y) \<and> (\<forall>b. view_ok (y_browser y b))"

lemma system_inv_browser: "system_inv y \<Longrightarrow> view_ok p \<Longrightarrow> system_inv (set_browser b p y)"
  by (simp add: system_inv_def set_browser_def)

lemma system_inv_other [simp]:
  "system_inv (y\<lparr>y_seen := f\<rparr>) = system_inv y" "system_inv (y\<lparr>y_link := l\<rparr>) = system_inv y"
  by (simp_all add: system_inv_def)

lemma system_inv_gateway:
  assumes "uuids_plain env" and "system_inv y" and "gateway_step env (y_gateway y) w"
  shows "system_inv (y\<lparr>y_gateway := w\<rparr>)"
  using assms step_inv [OF assms(1,3)] announces_step [OF _ _ assms(3)] by (simp add: system_inv_def)

lemma system_inv_step:
  assumes "uuids_plain env" and "system_inv y" and "system_step env num y z"
  shows "system_inv z"
proof -
  have v: "view_ok (y_browser y b)" for b using assms(2) by (simp add: system_inv_def)
  from assms(3) show ?thesis
  proof cases
    case (gateway_moves w)
    then show ?thesis using system_inv_gateway [OF assms(1,2)] by simp
  next
    case (socket_opens b c fresh)
    let ?y = "y\<lparr>y_gateway := onConnection env (y_gateway y), y_link := (y_link y)(b := Some (w_nsess (y_gateway y))),
         y_seen := (y_seen y)(b := 0)\<rparr>"
    have "system_inv (y\<lparr>y_gateway := onConnection env (y_gateway y)\<rparr>)"
      by (rule system_inv_gateway [OF assms(1,2) accept]) (rule socket_opens)
    then have "system_inv ?y" by (simp add: system_inv_def)
    moreover have "quiet c (onopen (c\<lparr>k_socket := Some SkOpen\<rparr>))" by (simp add: onopen_def quiet_def)
    ultimately show ?thesis
      unfolding socket_opens(1) by (intro system_inv_browser view_quiet [OF v socket_opens(2)])
  next
    case (message_arrives b c r m fresh)
    have "m \<in> set (sent_to r (w_out (y_gateway y)))" using message_arrives(5,6) by simp
    then have "announced_ok m" using assms(2) by (auto dest: sent_to_mem simp: system_inv_def announces_ok_def)
    then have "quiet c (onmessage num (Some (wire_text m)) c)"
      unfolding wire_text_def browser_text [OF server_read] by (intro quiet_does) (simp add: server_read)
    then show ?thesis
      unfolding message_arrives(1) using assms(2) by (intro system_inv_browser view_quiet [OF v message_arrives(2)]) simp
  next
    case (socket_ends b c d fresh)
    then show ?thesis using assms(2)
      by (simp only: socket_ends(1)) (intro system_inv_browser view_quiet [OF v socket_ends(2) quiet_event]; simp)
  qed (use assms(2) v in \<open>auto intro!: system_inv_browser view_act view_ensure simp: render_def\<close>)
qed

lemma view_new: "view_ok (new_provider url)"
  by (auto simp: view_ok_def new_provider_def initial_inv intro!: rows.inv_init [THEN conjunct2])

interpretation system: invariant_system system_init "system_step env num" "\<lambda>y. uuids_plain env \<longrightarrow> system_inv y" for env num
proof unfold_locales
  show "uuids_plain env \<longrightarrow> system_inv y" if "system_init y" for y
  proof -
    have "view_ok (y_browser y b)" for b using that view_new by (metis system_init_def)
    with that init_inv [of "y_gateway y"] show ?thesis
      by (simp add: system_init_def system_inv_def announces_ok_def gateway_init_def)
  qed
qed (blast intro: system_inv_step)

subsection \<open>Properties\<close>

text \<open>C5: The two programs together keep every view consistent.  Whatever the users do, whatever other
  clients send to the gateway, and whenever connections open and break: in every browser each
  conversation is stored under its id, the public one and no other is public and lists exactly
  the users known to be online, the selected conversation exists and has no unread count, and
  there is a conversation to show.\<close>

theorem views_stay_consistent:
  assumes "uuids_plain env" and "system_init y0" and "(system_step env num)\<^sup>*\<^sup>* y0 y" and "s = p_state (y_browser y b)"
  shows "(\<forall>k c. map_of (conversations s) k = Some c \<longrightarrow> conv_id c = k \<and> (conv_type c = KPublic \<longleftrightarrow> k = PUBLIC_CONVERSATION_ID))
    \<and> (\<exists>p ids. map_of (conversations s) PUBLIC_CONVERSATION_ID = Some p \<and> conv_memberIds p = Some ids
          \<and> set ids = fst ` set (users s))
    \<and> (\<exists>c. map_of (conversations s) (activeConversationId s) = Some c \<and> conv_unreadCount c = 0)
    \<and> activeConversation s \<noteq> None"
proof -
  have "system_inv y" using system.inv_reachable [OF assms(2,3)] assms(1) by blast
  then have s: "chat_inv s" "chat_wf s" by (simp_all add: system_inv_def view_ok_def assms(4))
  then have c: "\<forall>k c. map_of (conversations s) k = Some c \<longrightarrow> conv_id c = k \<and> (conv_type c = KPublic \<longleftrightarrow> k = PUBLIC_CONVERSATION_ID)"
    by (simp add: chat_inv_def chat_wf_def)
  obtain p ids where p: "map_of (conversations s) PUBLIC_CONVERSATION_ID = Some p" "conv_memberIds p = Some ids" "set ids = fst ` set (users s)"
    using s(1) by (auto simp: chat_inv_def dom_map_of_conv_image_fst)
  obtain a where a: "map_of (conversations s) (activeConversationId s) = Some a" "conv_unreadCount a = 0"
    using s(1) unfolding chat_inv_def by blast
  have "activeConversation s \<noteq> None" by (simp add: activeConversation_def a(1))
  with c p a show ?thesis by blast
qed

theorem views_stay_consistent_witness:
  "\<exists>y :: System. p_client (y_browser y 0) \<noteq> None \<and> w_nsess (y_gateway y) = 1 \<and> activeConversation (p_state (y_browser y 0)) \<noteq> None"
proof -
  let ?start = "\<lparr>y_gateway = demo0, y_browser = (\<lambda>_. new_provider (js ''ws:'')), y_link = (\<lambda>_. None), y_seen = (\<lambda>_. 0)\<rparr>"
  let ?mounted = "set_browser 0 (ensureClient ([], []) None (y_browser ?start 0)) ?start"
  let ?final = "?mounted\<lparr>y_gateway := onConnection demo_env demo0\<rparr>"
  have i: "system_init ?start" using demo_init by (auto simp: system_init_def)
  have "system_step demo_env id ?start ?mounted" by (rule browser_mounts)
  moreover have "system_step demo_env id ?mounted ?final"
    by (rule gateway_moves) (simp add: set_browser_def accept demo0_def)
  ultimately have "(system_step demo_env id)\<^sup>*\<^sup>* ?start ?final" by auto
  from views_stay_consistent [OF demo_plain i this refl, of 0]
  have a: "activeConversation (p_state (y_browser ?final 0)) \<noteq> None" by blast
  have b: "p_client (y_browser ?final 0) \<noteq> None"
    by (simp add: set_browser_def ensureClient_def new_provider_def Let_def absorb_def client_connect_def closeSocket_def
        clearReconnectTimer_def new_client_def does_def setStatus_def onStatusChange_def)
  have c: "w_nsess (y_gateway ?final) = 1" by (simp add: onConnection_def Let_def next_tick_def demo0_def)
  show ?thesis by (rule exI [of _ ?final]) (intro conjI a b c)
qed

text \<open>The browser shows a group, \<open>g\<close>, and is connected.\<close>

definition shows_group :: "jsstr \<Rightarrow> Provider \<Rightarrow> bool" where
  "shows_group g p \<longleftrightarrow> connected p \<and> (\<exists>a. map_of (conversations (p_stateRef p)) (activeConversationId (p_stateRef p)) = Some a
     \<and> conv_type a = KGroup \<and> conv_id a = g)"

lemma shows_group_sends:
  assumes "shows_group g p" and "p_client p = Some c" and "trim typed \<noteq> []"
  shows "p_client (act fresh refused (DoSendMessage typed) p) =
     Some (does (SocketSend (SendMessage (TGroup g) (trim typed)) (encodeOutbound (SendMessage (TGroup g) (trim typed)))) c)"
proof -
  have "k_socket c = Some SkOpen" "connected p" using assms(1,2) by (auto simp: shows_group_def connected_def isConnected_def)
  with assms show ?thesis
    by (auto simp: shows_group_def sendMessage_def Let_def client_send_def)
qed

text \<open>What the gateway does with the frame of a group message.\<close>

lemma group_frame:
  assumes "body \<noteq> []" and "frame = encodeOutbound (SendMessage (TGroup g) body)"
    and "s_authenticated (w_sess w r)" and "s_welcomed (w_sess w r)" and "fresh_id env w"
    and "getGroup (w_db w) g = Some grp" and "s_id (w_sess w r) \<in> set (g_memberIds grp)"
    and "e_json_parse env = json_parse num" and "e_maxClientMessageBytes env = 16384"
    and "length body \<le> 2600" and "g \<noteq> []" and "length g \<le> 64"
    and "w' = onClientRaw env r (utf8_encode frame) w"
    and "i \<in> set (g_memberIds grp)" and "roster_get (w_roster w) i = Some q" and "is_open w q"
    and "m = stored env w g (w_sess w r) body"
  shows "t_messages (w_db w') = t_messages (w_db w) @ [m]"
    and "Sent q (SMessage (toSummary m)) \<in> set (drop (length (w_out w)) (w_out w'))"
proof -
  let ?msg = "SendMessage (TGroup g) body"
  have "valid_client_message ?msg" using assms(1,10,11) by (simp add: sized_def limits)
  moreover have "wire_size frame \<le> e_maxClientMessageBytes env"
    using text_message_size(3) [of g body] assms(10,12) by (simp add: assms(2,9))
  ultimately have "w' = onClientMessage env r ?msg w"
    using browser_message [of ?msg env num r w] assms(8) by (simp add: assms(2,13))
  then have w': "w' = sendGroup env r g body w" using assms(3,4) by (simp add: onClientMessage_def)
  note out = sendGroup_closed [OF assms(6,7,5) refl, of body]
  show "t_messages (w_db w') = t_messages (w_db w) @ [m]" by (simp add: w' out assms(17))
  have "q \<in> set (online_members w (g_memberIds grp))"
    using assms(14-16) by (force simp: online_members_def List.map_filter_def image_iff)
  then show "Sent q (SMessage (toSummary m)) \<in> set (drop (length (w_out w)) (w_out w'))"
    by (simp add: w' out sends_def assms(17))
qed

text \<open>A message travels from screen to screen.  When a member of a group types a text of ordinary
  length and presses send, the frame the browser writes makes the gateway store the trimmed text
  once and send it to every member online; in the browser of such a member, when the frame of
  the gateway arrives, the text is added to the group, once, under the sender's nickname, and
  marked as one's own exactly in the sender's browser.\<close>

theorem group_message_reaches_screen:
  assumes "shows_group g ps" and "p_client ps = Some cs" and "body = trim typed" and "body \<noteq> []"
    and "frame = encodeOutbound (SendMessage (TGroup g) body)"
    and "s_authenticated (w_sess w r)" and "s_welcomed (w_sess w r)" and "fresh_id env w"
    and "getGroup (w_db w) g = Some grp" and "s_id (w_sess w r) \<in> set (g_memberIds grp)"
    and "e_json_parse env = json_parse num" and "e_maxClientMessageBytes env = 16384"
    and "length body \<le> 2600" and "g \<noteq> []" and "length g \<le> 64"
    and "w' = onClientRaw env r (utf8_encode frame) w"
    and "i \<in> set (g_memberIds grp)" and "roster_get (w_roster w) i = Some q" and "is_open w q"
    and "p_client p = Some c" and "view_ok p" and "map_of (conversations (p_state p)) g = Some conv"
    and "userId (p_state p) = Some me"
  shows "p_client (act fresh refused (DoSendMessage typed) ps) = Some (does (SocketSend (SendMessage (TGroup g) body) frame) cs)
    \<and> (\<exists>m x conv'. t_messages (w_db w') = t_messages (w_db w) @ [m] \<and> m_text m = body
        \<and> Sent q (SMessage (toSummary m)) \<in> set (drop (length (w_out w)) (w_out w'))
        \<and> map_of (conversations (p_state (absorb fresh' (onmessage num (Some (wire_text (SMessage (toSummary m)))) c) p))) g = Some conv'
        \<and> conv_messages conv' = conv_messages conv @ [x] \<and> msg_content x = body
        \<and> msg_sender x = Some (s_nickname (w_sess w r)) \<and> (msg_isOwn x \<longleftrightarrow> me = s_id (w_sess w r)))"
proof -
  let ?m = "stored env w g (w_sess w r) body"
  note frame = group_frame [OF assms(4-19) refl]
  have "absorb fresh' (onmessage num (Some (wire_text (SMessage (toSummary ?m)))) c) p
      = handleServerEvent fresh' (SMessage (toSummary ?m)) (p\<lparr>p_client := Some (does (EventIn (server_json (SMessage (toSummary ?m)))) c)\<rparr>)"
    unfolding wire_text_def browser_text [OF server_read] by (simp add: absorb_def assms(20) server_read del: server_json.simps)
  then have st: "p_state (absorb fresh' (onmessage num (Some (wire_text (SMessage (toSummary ?m)))) c) p)
      = reduce_MESSAGE_RECEIVED (toSummary ?m) (p_state p)" by simp
  have "chat_inv (p_state p)" using assms(21) by (simp add: view_ok_def)
  from receive_one [OF this assms(22), of "toSummary ?m"] obtain conv'
    where "map_of (conversations (reduce_MESSAGE_RECEIVED (toSummary ?m) (p_state p))) g = Some conv'"
      "conv_messages conv' = conv_messages conv @ [messageFromSummary (toSummary ?m) me]"
    by (auto simp: assms(23) toSummary_def stored_def)
  moreover have "msg_content (messageFromSummary (toSummary ?m) me) = body"
    "msg_sender (messageFromSummary (toSummary ?m) me) = Some (s_nickname (w_sess w r))"
    "msg_isOwn (messageFromSummary (toSummary ?m) me) = (me = s_id (w_sess w r))"
    by (auto simp: messageFromSummary_def toSummary_def stored_def)
  moreover have "m_text ?m = body" by (simp add: stored_def)
  ultimately have "\<exists>m x conv'. t_messages (w_db w') = t_messages (w_db w) @ [m] \<and> m_text m = body
        \<and> Sent q (SMessage (toSummary m)) \<in> set (drop (length (w_out w)) (w_out w'))
        \<and> map_of (conversations (p_state (absorb fresh' (onmessage num (Some (wire_text (SMessage (toSummary m)))) c) p))) g = Some conv'
        \<and> conv_messages conv' = conv_messages conv @ [x] \<and> msg_content x = body
        \<and> msg_sender x = Some (s_nickname (w_sess w r)) \<and> (msg_isOwn x \<longleftrightarrow> me = s_id (w_sess w r))"
    using frame unfolding st [symmetric] by blast
  with shows_group_sends [OF assms(1,2), of typed fresh refused] assms(3,4) show ?thesis by (simp add: assms(5))
qed

theorem group_message_reaches_screen_witness:
  "\<exists>env m. t_messages (w_db (onClientRaw env 0 (utf8_encode (encodeOutbound (SendMessage (TGroup (js ''group:g'')) (js ''hi'')))) duo)) = [m]
     \<and> m_text m = js ''hi''
     \<and> Sent 1 (SMessage (toSummary m)) \<in> set (w_out (onClientRaw env 0 (utf8_encode (encodeOutbound (SendMessage (TGroup (js ''group:g'')) (js ''hi'')))) duo))"
proof -
  let ?env = "demo_env\<lparr>e_json_parse := json_parse id, e_maxClientMessageBytes := 16384\<rparr>" and ?g = "js ''group:g''"
  let ?summary = "\<lparr>cs_id = ?g, cs_kind = KGroup, cs_title = js ''g'', cs_memberIds = [js ''a'', js ''b'']\<rparr>"
  let ?before = "(createInitialState [])\<lparr>userId := Some (js ''b'')\<rparr>"
  let ?after = "chatReducer ([], []) ?before (CONVERSATION_CREATED ?summary)"
  let ?s = "?after\<lparr>activeConversationId := ?g\<rparr>"
  let ?c = "onopen ((client_connect None (new_client (js ''ws:'') None None))\<lparr>k_socket := Some SkOpen\<rparr>)"
  let ?p = "(new_provider [])\<lparr>p_client := Some ?c, p_state := ?after, p_stateRef := ?s\<rparr>"
  have open_c: "isConnected ?c" by (simp add: isConnected_def onopen_def)
  have trimmed: "js ''hi'' = trim (js ''hi'')" by (simp add: trim_def js_def js_space_def)
  have s0: "chat_inv ?before" using initial_inv [of "[]"] by (simp add: chat_inv_def)
  have s1: "chat_wf ?before"
    by (rule chat_wf_same [of "createInitialState []"]) (use view_new [of "[]"] in \<open>simp_all add: view_ok_def new_provider_def\<close>)
  have a: "action_ok (CONVERSATION_CREATED ?summary)" by (simp add: PUBLIC_CONVERSATION_ID_def)
  have v: "view_ok ?p"
    using chat_inv_step [OF s0 a] chat_wf_step [OF s0 s1 a] by (simp only: view_ok_def) simp
  obtain conv where conv: "map_of (conversations (p_state ?p)) ?g = Some conv" "conv_type conv = KGroup" "conv_id conv = ?g"
    by (simp add: reduce_CONVERSATION_CREATED_def Let_def createInitialState_def PUBLIC_CONVERSATION_ID_def conversationFromSummary_def)
  have sh: "shows_group ?g ?p" using open_c conv by (simp add: shows_group_def connected_def)
  have h: "s_authenticated (w_sess duo 0)" "s_welcomed (w_sess duo 0)" "fresh_id ?env duo"
    "s_id (w_sess duo 0) \<in> set [js ''a'', js ''b'']" "js ''b'' \<in> set [js ''a'', js ''b'']"
    "roster_get (w_roster duo) (js ''b'') = Some 1" "is_open duo 1" "userId (p_state ?p) = Some (js ''b'')"
    "e_json_parse ?env = json_parse id" "e_maxClientMessageBytes ?env = 16384" "p_client ?p = Some ?c"
    by (simp_all add: fresh_id_def duo_sessions user_session_def new_Session_def roster_get_def is_open_def
        reduce_CONVERSATION_CREATED_def Let_def del: One_nat_def)
  have l: "js ''hi'' \<noteq> []" "length (js ''hi'') \<le> 2600" "?g \<noteq> []" "length ?g \<le> 64" by simp_all
  from group_message_reaches_screen [OF sh h(11) trimmed l(1) refl h(1-3) duo_group _ h(9,10) l(2-4) refl _ h(6,7,11) v conv(1) h(8), of "([], [])" None "([], [])"] h(4,5)
  show ?thesis by (intro exI [of _ ?env]) (auto simp: duo_sessions)
qed

subsection \<open>A connection that was restored\<close>

lemma logout_frame_fits: "wire_size (encodeOutbound Logout) \<le> 200" "wire_size (encodeOutbound RequestState) \<le> 200"
  using stringify_size [OF outbound_ok [of Logout]] stringify_size [OF outbound_ok [of RequestState]]
  by (simp_all add: encodeOutbound_def tagged_def)

fun is_auth_message :: "ClientMessage \<Rightarrow> bool" where
  "is_auth_message (Register u p) \<longleftrightarrow> True"
| "is_auth_message (Login u p) \<longleftrightarrow> True"
| "is_auth_message _ \<longleftrightarrow> False"

lemma reopened_fields:
  assumes "p_client p = Some c" and "p_pendingAuth p = None" and "p1 = render (absorb fresh (onopen (c\<lparr>k_socket := Some SkOpen\<rparr>)) p)"
  shows "p_state p1 = (p_state p)\<lparr>connectionStatus := Connected\<rparr>" "p_stateRef p1 = p_state p1" "connected p1"
    "p_client p1 = Some (onopen (c\<lparr>k_socket := Some SkOpen\<rparr>))"
  using assms(1,2) by (simp_all add: assms(3) absorb_def onopen_def onStatusChange_def render_def connected_def isConnected_def Let_def)

lemma mute_session:
  assumes "e_json_parse env = json_parse num" and "e_maxClientMessageBytes env = 16384"
    and "\<forall>x \<in> set ms. valid_client_message x \<and> wire_size (encodeOutbound x) \<le> 16384 \<and> \<not> is_auth_message x"
    and "\<not> s_authenticated (w_sess w r)" and "s_ws (w_sess w r) = WsOpen"
    and "w' = fold (\<lambda>x. onClientRaw env r (utf8_encode (encodeOutbound x))) ms w"
  shows "s_pending (w_sess w' r) = s_pending (w_sess w r) @ filter (\<lambda>x. x \<noteq> Logout) ms \<and> w_db w' = w_db w
    \<and> w_out w' = w_out w @ replicate (count_list ms Logout) (Sent r (error_msg ''NOT_AUTHENTICATED'' (js ''Not logged in.'')))
    \<and> s_ws (w_sess w' r) = WsOpen \<and> \<not> s_authenticated (w_sess w' r)"
  using assms(3-6)
proof (induction ms arbitrary: w)
  case (Cons x ms)
  let ?w1 = "onClientMessage env r x w"
  have "onClientRaw env r (utf8_encode (encodeOutbound x)) w = ?w1"
    using browser_message [of x env num r w] assms(1,2) Cons.prems(1) by simp
  with Cons.prems(4) have w': "w' = fold (\<lambda>x. onClientRaw env r (utf8_encode (encodeOutbound x))) ms ?w1" by simp
  have step: "s_pending (w_sess ?w1 r) = s_pending (w_sess w r) @ filter (\<lambda>x. x \<noteq> Logout) [x]" "w_db ?w1 = w_db w"
    "w_out ?w1 = w_out w @ replicate (count_list [x] Logout) (Sent r (error_msg ''NOT_AUTHENTICATED'' (js ''Not logged in.'')))"
    "s_ws (w_sess ?w1 r) = WsOpen" "\<not> s_authenticated (w_sess ?w1 r)"
    using Cons.prems(1-3)
    by (cases x; simp add: onClientMessage_def handleLogout_def sendTo_def emit_def upd_sess_def queueUntilReady_def)+
  from Cons.IH [OF _ step(5,4) w'] Cons.prems(1) step(1-3) show ?case by (simp add: replicate_add)
qed simp

lemma refusals_keep_user:
  "userId (p_stateRef p) = Some me \<Longrightarrow> userId (p_state p) = Some me \<Longrightarrow>
     userId (p_state ((handleServerEvent fresh (error_msg code t) ^^ n) p)) = Some me
     \<and> userId (p_stateRef ((handleServerEvent fresh (error_msg code t) ^^ n) p)) = Some me"
  by (induction n) (simp_all add: error_msg_def reduce_ERROR_MESSAGE_def Let_def split: option.split)

text \<open>Where the browser sends what is typed in a conversation.\<close>

definition typed_target :: "Conversation \<Rightarrow> MessageTarget" where
  "typed_target a = (case conv_type a of KPublic \<Rightarrow> TPublic | KDirect \<Rightarrow> TDirect (the (conv_peerId a)) | KGroup \<Rightarrow> TGroup (conv_id a))"

text \<open>C40: A restored connection is mute.  When the connection of a logged-in browser has broken and the
  client's attempt to restore it succeeds, the gateway has a new session that nobody logged in,
  but the browser goes on showing the chat as connected.  What its user types in the selected
  conversation, of whatever kind (a direct one whose peer is known), is sent; the gateway stores
  nothing and answers nothing, it queues the message, and likewise every further message within its
  limits other than register, login and logout; each attempt to sign out is answered with an error, after which the user is still shown as logged in.\<close>

theorem restored_connection_is_mute:
  assumes "p_client p = Some c" and "k_socket c = Some SkConnecting" and "p_pendingAuth p = None"
    and "userId (p_state p) = Some me" and "me \<noteq> []" and "map_of (conversations (p_state p)) (activeConversationId (p_state p)) = Some a"
    and "conv_type a = KDirect \<longrightarrow> conv_peerId a \<noteq> None"
    and "e_json_parse env = json_parse num" and "e_maxClientMessageBytes env = 16384"
    and "p1 = render (absorb fresh (onopen (c\<lparr>k_socket := Some SkOpen\<rparr>)) p)" and "w1 = onConnection env w" and "r = w_nsess w"
    and "m = SendMessage (typed_target a) (trim typed)" and "p2 = act fresh refused (DoSendMessage typed) p1"
    and "\<forall>x \<in> set (m # later). valid_client_message x \<and> wire_size (encodeOutbound x) \<le> 16384 \<and> \<not> is_auth_message x"
    and "w2 = fold (\<lambda>x. onClientRaw env r (utf8_encode (encodeOutbound x))) (m # later) w1"
    and "refusal = error_msg ''NOT_AUTHENTICATED'' (js ''Not logged in.'')"
  shows "ChatApp (p_state p1) = ChatLayout \<and> connectionStatus (p_state p1) = Connected
    \<and> p_client p2 = Some (does (SocketSend m (encodeOutbound m)) (onopen (c\<lparr>k_socket := Some SkOpen\<rparr>))) \<and> p_state p2 = p_state p1
    \<and> s_pending (w_sess w2 r) = m # filter (\<lambda>x. x \<noteq> Logout) later \<and> w_db w2 = w_db w
    \<and> w_out w2 = w_out w @ replicate (count_list later Logout) (Sent r refusal) \<and> s_ws (w_sess w2 r) = WsOpen
    \<and> ChatApp (p_state ((handleServerEvent fresh refusal ^^ count_list later Logout) p2)) = ChatLayout"
proof -
  note p1 = reopened_fields [OF assms(1,3,10)]
  let ?c = "onopen (c\<lparr>k_socket := Some SkOpen\<rparr>)"
  have conv: "map_of (conversations (p_stateRef p1)) (activeConversationId (p_stateRef p1)) = Some a"
    using assms(6) by (simp add: p1)
  have m: "valid_client_message m" using assms(15) by simp
  have "k_socket ?c = Some SkOpen" by (simp add: onopen_def)
  then have p2: "p_client p2 = Some (does (SocketSend m (encodeOutbound m)) ?c)" "p_state p2 = p_state p1" "p_stateRef p2 = p_stateRef p1"
    using m conv assms(7) p1(3,4)
    by (cases "conv_type a"; auto simp: assms(13,14) typed_target_def sized_def truthy_def sendMessage_def Let_def through_client_def client_send_def)+
  have "\<not> s_authenticated (w_sess w1 r)" "s_ws (w_sess w1 r) = WsOpen" "s_pending (w_sess w1 r) = []" "w_out w1 = w_out w" "w_db w1 = w_db w"
    by (simp_all add: assms(11,12) onConnection_def Let_def next_tick_def new_Session_def)
  then have w2: "s_pending (w_sess w2 r) = m # filter (\<lambda>x. x \<noteq> Logout) later \<and> w_db w2 = w_db w
    \<and> w_out w2 = w_out w @ replicate (count_list later Logout) (Sent r refusal) \<and> s_ws (w_sess w2 r) = WsOpen"
    using mute_session [OF assms(8,9,15) _ _ assms(16)] by (simp add: assms(17)) (simp add: assms(13))
  have "userId (p_state p1) = Some me" "userId (p_stateRef p2) = Some me" "userId (p_state p2) = Some me" using assms(4) by (simp_all add: p1 p2)
  with refusals_keep_user [where p = p2 and me = me and fresh = fresh] p1(1) p2 w2 assms(5)
  show ?thesis by (simp add: ChatApp_def truthy_def assms(17))
qed

theorem restored_connection_is_mute_witness:
  "\<exists>env w (p :: Provider) m. ChatApp (p_state p) = ChatLayout
     \<and> s_pending (w_sess (fold (\<lambda>x. onClientRaw env (w_nsess w) (utf8_encode (encodeOutbound x))) [m, Logout, RequestState] (onConnection env w)) (w_nsess w))
       = [m, RequestState]"
proof -
  let ?env = "demo_env\<lparr>e_json_parse := json_parse id, e_maxClientMessageBytes := 16384\<rparr>"
  let ?c = "(client_connect None (new_client (js ''ws:'') None None))\<lparr>k_socket := Some SkConnecting\<rparr>"
  let ?state = "(createInitialState [])\<lparr>userId := Some (js ''amy'')\<rparr>"
  let ?p = "(new_provider [])\<lparr>p_client := Some ?c, p_state := ?state, p_stateRef := ?state\<rparr>"
  let ?a = "createPublicConversation []"
  have h: "p_client ?p = Some ?c" "k_socket ?c = Some SkConnecting" "p_pendingAuth ?p = None" "userId (p_state ?p) = Some (js ''amy'')"
    "js ''amy'' \<noteq> []" "map_of (conversations (p_state ?p)) (activeConversationId (p_state ?p)) = Some ?a"
    "conv_type ?a = KDirect \<longrightarrow> conv_peerId ?a \<noteq> None"
    "e_json_parse ?env = json_parse id" "e_maxClientMessageBytes ?env = 16384"
    by (simp_all add: new_provider_def createInitialState_def createPublicConversation_def)
  have t: "typed_target ?a = TPublic" "trim (js ''hi'') = js ''hi''"
    by (simp_all add: typed_target_def createPublicConversation_def trim_def js_def js_space_def)
  have l: "\<forall>x \<in> set [SendMessage (typed_target ?a) (trim (js ''hi'')), Logout, RequestState].
      valid_client_message x \<and> wire_size (encodeOutbound x) \<le> 16384 \<and> \<not> is_auth_message x"
    using logout_frame_fits text_message_size(1) [of "js ''hi''"] by (simp add: t sized_def limits)
  from restored_connection_is_mute [OF h refl refl refl refl refl l refl refl, where w = demo0 and fresh = "([], [])" and refused = None]
  show ?thesis by (intro exI [of _ ?env] exI [of _ demo0] exI [of _ "render (absorb ([], []) (onopen (?c\<lparr>k_socket := Some SkOpen\<rparr>)) ?p)"]
      exI [of _ "SendMessage (typed_target ?a) (trim (js ''hi''))"]) simp
qed

end
