(* ===== verification/Markup.thy ===== *)
theory Markup
  imports JsString
begin

section \<open>Documents: what a component renders and what a user can do with it\<close>

text \<open>
  The tree that a React component returns, for the components of frontend/components: elements
  with their attributes, texts, and the icons of the icon library, of which only the name is
  kept.  A handler is the event it stands for; \<open>'e\<close> is the type of events.  Of
  \<open>className\<close> only the part that depends on the state is kept: the rest is fixed styling.

  \<open>offers\<close> is the browser's side: the events that a user can cause on a document.  A disabled
  element gets no event.  A form is submitted by its first submit button or by the Enter key in
  one of its fields, and neither happens while that button is disabled or a field that the user
  has edited is shorter than its \<open>minLength\<close>.
\<close>

datatype 'e attr =
    OnClick 'e
  | OnChange "jsstr \<Rightarrow> 'e"
  | OnToggle 'e
  | OnKeyDown "bool \<Rightarrow> bool \<Rightarrow> 'e"
  | OnSubmit 'e
  | Disabled bool
  | SubmitButton
  | FieldValue jsstr
  | MinLength "nat option"
  | Checked bool
  | StateClass string
  | Attr string jsstr

datatype 'e dom = Text jsstr | Icon string | El string "'e attr list" "'e dom list"

text \<open>\<open>{condition && element}\<close>.\<close>

definition dom_when :: "bool \<Rightarrow> 'e dom \<Rightarrow> 'e dom list" where
  "dom_when b d = (if b then [d] else [])"

subsection \<open>The texts of a document\<close>

fun texts :: "'e dom \<Rightarrow> jsstr list" where
  "texts (Text t) = [t]"
| "texts (Icon n) = []"
| "texts (El tag attrs ds) = concat (map texts ds)"

subsection \<open>The events a document offers\<close>

definition is_disabled :: "'e attr list \<Rightarrow> bool" where
  "is_disabled attrs \<longleftrightarrow> Disabled True \<in> set attrs"

fun attr_events :: "'e attr \<Rightarrow> 'e set" where
  "attr_events (OnClick e) = {e}"
| "attr_events (OnChange f) = range f"
| "attr_events (OnToggle e) = {e}"
| "attr_events (OnKeyDown f) = {f enter shift | enter shift. True}"
| "attr_events _ = {}"

text \<open>The submit buttons in their order, with whether they are enabled.\<close>

fun submit_buttons :: "'e dom \<Rightarrow> bool list" where
  "submit_buttons (El tag attrs ds) =
     (if SubmitButton \<in> set attrs then [\<not> is_disabled attrs] else []) @ concat (map submit_buttons ds)"
| "submit_buttons _ = []"

fun field_value :: "'e attr list \<Rightarrow> jsstr" where
  "field_value [] = []"
| "field_value (FieldValue v # as) = v"
| "field_value (a # as) = field_value as"

fun field_min :: "'e attr list \<Rightarrow> nat" where
  "field_min [] = 0"
| "field_min (MinLength (Some n) # as) = n"
| "field_min (a # as) = field_min as"

fun fields_valid :: "'e dom \<Rightarrow> bool" where
  "fields_valid (El tag attrs ds) \<longleftrightarrow>
     (field_value attrs = [] \<or> field_min attrs \<le> length (field_value attrs)) \<and> (\<forall>d \<in> set ds. fields_valid d)"
| "fields_valid _ \<longleftrightarrow> True"

definition form_ready :: "'e dom list \<Rightarrow> bool" where
  "form_ready ds \<longleftrightarrow> (case concat (map submit_buttons ds) of [] \<Rightarrow> True | enabled # _ \<Rightarrow> enabled)
     \<and> (\<forall>d \<in> set ds. fields_valid d)"

definition submits :: "'e attr list \<Rightarrow> 'e set" where
  "submits attrs = {e. OnSubmit e \<in> set attrs}"

fun offers :: "'e dom \<Rightarrow> 'e set" where
  "offers (Text t) = {}"
| "offers (Icon n) = {}"
| "offers (El tag attrs ds) =
     (if is_disabled attrs then {} else \<Union> (attr_events ` set attrs))
     \<union> (if form_ready ds then submits attrs else {})
     \<union> \<Union> (offers ` set ds)"

subsection \<open>Simplification\<close>

named_theorems markup \<open>what a document says and offers\<close>

lemma disabled_simps [markup]:
  "is_disabled [] = False" "is_disabled (Disabled b # as) = (b \<or> is_disabled as)"
  "is_disabled (OnClick e # as) = is_disabled as" "is_disabled (OnChange f # as) = is_disabled as"
  "is_disabled (OnToggle e # as) = is_disabled as" "is_disabled (OnKeyDown k # as) = is_disabled as"
  "is_disabled (OnSubmit e # as) = is_disabled as" "is_disabled (SubmitButton # as) = is_disabled as"
  "is_disabled (FieldValue v # as) = is_disabled as" "is_disabled (MinLength n # as) = is_disabled as"
  "is_disabled (Checked c # as) = is_disabled as" "is_disabled (StateClass s # as) = is_disabled as"
  "is_disabled (Attr s v # as) = is_disabled as"
  by (auto simp: is_disabled_def)

lemma submits_simps [markup]:
  "submits [] = {}" "submits (OnSubmit e # as) = insert e (submits as)"
  "submits (OnClick e # as) = submits as" "submits (OnChange f # as) = submits as"
  "submits (OnToggle e # as) = submits as" "submits (OnKeyDown k # as) = submits as"
  "submits (Disabled b # as) = submits as" "submits (SubmitButton # as) = submits as"
  "submits (FieldValue v # as) = submits as" "submits (MinLength n # as) = submits as"
  "submits (Checked c # as) = submits as" "submits (StateClass s # as) = submits as"
  "submits (Attr s v # as) = submits as"
  by (auto simp: submits_def)

lemma when_simps [markup]:
  "dom_when True d = [d]" "dom_when False d = []"
  "\<Union> (offers ` set (dom_when b d)) = (if b then offers d else {})"
  "concat (map texts (dom_when b d)) = (if b then texts d else [])"
  "concat (map submit_buttons (dom_when b d)) = (if b then submit_buttons d else [])"
  "set (dom_when b d) = (if b then {d} else {})"
  by (simp_all add: dom_when_def)

lemma offers_el [markup]:
  "submits attrs = {} \<Longrightarrow> offers (El tag attrs ds) = (if is_disabled attrs then {} else \<Union> (attr_events ` set attrs)) \<union> \<Union> (offers ` set ds)"
  by simp

lemma offers_form [markup]:
  "offers (El tag [OnSubmit e] ds) = (if form_ready ds then {e} else {}) \<union> \<Union> (offers ` set ds)"
  by (simp add: markup)

declare offers.simps(3) [simp del]

end
