(* ===== verification/MessageView.thy ===== *)
theory MessageView
  imports Views
begin

section \<open>The list of messages and the nickname form (frontend/components, frontend/hooks)\<close>

text \<open>
  What the message list shows, when it scrolls (\<open>useAutoScroll\<close>), and the state of the
  nickname form.  A DOM element is a number; React makes a new one whenever the list changes
  from another view to messages.  Markup is not modelled.
\<close>

subsection \<open>MessageList.tsx\<close>

datatype ListView = NotConnected | NoMessages jsstr jsstr | Messages "Bubble list"

definition message_list :: "bool \<Rightarrow> Conversation \<Rightarrow> ListView" where
  "message_list online c =
     (if \<not> online then NotConnected
      else if length (conv_messages c) = 0
      then (case conv_type c of
          KDirect \<Rightarrow> NoMessages (js ''Message '' @ conv_title c) (js ''Send a direct message to start the conversation.'')
        | KGroup \<Rightarrow> NoMessages (js ''Say hello to '' @ conv_title c) (js ''Messages are only delivered to this group'' @ [39] @ js ''s members.'')
        | KPublic \<Rightarrow> NoMessages (js ''Public chat is quiet'') (js ''Say hello to get things started.''))
      else Messages (map bubble (conv_messages c)))"

text \<open>Only the list of messages is a scroll container.\<close>

definition has_container :: "ListView \<Rightarrow> bool" where
  "has_container v \<longleftrightarrow> (\<exists>bs. v = Messages bs)"

lemma has_container_simps [simp]: "\<not> has_container NotConnected" "\<not> has_container (NoMessages t u)" "has_container (Messages bs)"
  by (simp_all add: has_container_def)

subsection \<open>useAutoScroll.ts\<close>

record AutoScroll =
  as_container :: "nat option"
  as_elements :: nat
  as_listener :: "nat option"
  as_pinned :: bool
  as_dependency :: nat
  as_scrolled :: "nat list"

definition scrollToBottom :: "AutoScroll \<Rightarrow> AutoScroll" where
  "scrollToBottom a =
     (case as_container a of
        None \<Rightarrow> a
      | Some container \<Rightarrow> a\<lparr>as_scrolled := as_scrolled a @ [container], as_pinned := True\<rparr>)"

text \<open>The first effect runs after the first render only: its dependency is the threshold.  The
  second one runs after the first render and whenever the number of messages has changed.\<close>

definition listen_effect :: "AutoScroll \<Rightarrow> AutoScroll" where
  "listen_effect a = (case as_container a of None \<Rightarrow> a | Some container \<Rightarrow> a\<lparr>as_listener := Some container\<rparr>)"

definition follow_effect :: "AutoScroll \<Rightarrow> AutoScroll" where
  "follow_effect a = (if as_pinned a then scrollToBottom a else a)"

definition place :: "bool \<Rightarrow> AutoScroll \<Rightarrow> AutoScroll" where
  "place container a =
     (if \<not> container then a\<lparr>as_container := None\<rparr>
      else if as_container a = None then a\<lparr>as_container := Some (as_elements a), as_elements := Suc (as_elements a)\<rparr>
      else a)"

definition mount :: "ListView \<Rightarrow> nat \<Rightarrow> AutoScroll" where
  "mount view dependency = follow_effect (listen_effect (place (has_container view)
     \<lparr>as_container = None, as_elements = 0, as_listener = None, as_pinned = True, as_dependency = dependency, as_scrolled = []\<rparr>))"

definition rerender :: "ListView \<Rightarrow> nat \<Rightarrow> AutoScroll \<Rightarrow> AutoScroll" where
  "rerender view dependency a =
     (let a1 = place (has_container view) a in
      if dependency = as_dependency a1 then a1 else follow_effect (a1\<lparr>as_dependency := dependency\<rparr>))"

text \<open>The reader scrolls the container of the moment: the handler runs if it listens there.\<close>

definition handleScroll :: "int \<Rightarrow> int \<Rightarrow> int \<Rightarrow> int \<Rightarrow> AutoScroll \<Rightarrow> AutoScroll" where
  "handleScroll threshold scrollHeight scrollTop clientHeight a =
     (if as_container a \<noteq> None \<and> as_listener a = as_container a
      then a\<lparr>as_pinned := (scrollHeight - scrollTop - clientHeight \<le> threshold)\<rparr> else a)"

datatype ListEvent = Rerender ListView nat | Scroll int int int

fun list_event :: "ListEvent \<Rightarrow> AutoScroll \<Rightarrow> AutoScroll" where
  "list_event (Rerender view dependency) a = rerender view dependency a"
| "list_event (Scroll height offset client) a = handleScroll 96 height offset client a"

subsection \<open>NicknameModal.tsx\<close>

text \<open>The form while it is open: its key and the text in it.  A new key makes a new form.\<close>

definition nickname_form :: "ChatState \<Rightarrow> (jsstr \<times> jsstr) option \<Rightarrow> (jsstr \<times> jsstr) option" where
  "nickname_form state form =
     (if \<not> nicknameModalOpen state then None
      else (case form of
              None \<Rightarrow> Some (nick state, nick state)
            | Some (key, typed) \<Rightarrow> if key = nick state then Some (key, typed) else Some (nick state, nick state)))"

definition nickname_submit :: "jsstr \<times> jsstr \<Rightarrow> UserAction" where
  "nickname_submit form = DoChangeNickname (snd form)"

subsection \<open>When the list follows\<close>

definition follows :: "AutoScroll \<Rightarrow> bool" where
  "follows a \<longleftrightarrow> as_listener a = None \<and> as_pinned a"

definition attached :: "nat \<Rightarrow> AutoScroll \<Rightarrow> bool" where
  "attached e a \<longleftrightarrow> as_container a = Some e \<and> as_listener a = Some e"

lemma mount_follows: "\<not> has_container view \<Longrightarrow> follows (mount view n)"
  by (simp add: mount_def place_def listen_effect_def follow_effect_def scrollToBottom_def follows_def)

lemma event_follows: "follows a \<Longrightarrow> follows (list_event e a)"
  by (cases e) (auto simp: rerender_def place_def follow_effect_def scrollToBottom_def follows_def handleScroll_def Let_def
      split: option.split)

lemma events_follow: "follows a \<Longrightarrow> follows (fold list_event es a)"
  by (induction es arbitrary: a) (simp_all add: event_follows)

text \<open>The list overrules its reader.  If the list has no messages, or no connection, when it first
  appears, its scroll listener is never attached: whatever the reader scrolls afterwards, every
  change of the number of messages scrolls the list to its bottom.\<close>

theorem reader_is_overruled:
  assumes "\<not> has_container view" and "a = fold list_event es (mount view n)" and "as_dependency a \<noteq> k"
  shows "\<exists>e. as_scrolled (list_event (Rerender (Messages bs) k) a) = as_scrolled a @ [e]
    \<and> as_container (list_event (Rerender (Messages bs) k) a) = Some e"
proof -
  have "follows a" unfolding assms(2) by (rule events_follow [OF mount_follows [OF assms(1)]])
  then show ?thesis
    using assms(3) by (cases "as_container a")
      (auto simp: rerender_def place_def follow_effect_def scrollToBottom_def follows_def Let_def)
qed

theorem reader_is_overruled_witness:
  "\<exists>e. as_scrolled (fold list_event [Rerender (Messages []) 1, Scroll 5000 0 500, Rerender (Messages []) 2] (mount (NoMessages [] []) 0))
     = as_scrolled (fold list_event [Rerender (Messages []) 1, Scroll 5000 0 500] (mount (NoMessages [] []) 0)) @ [e]"
proof -
  let ?a = "fold list_event [Rerender (Messages []) 1, Scroll 5000 0 500] (mount (NoMessages [] []) 0)"
  have d: "as_dependency ?a \<noteq> 2"
    by (simp add: mount_def rerender_def place_def follow_effect_def listen_effect_def scrollToBottom_def handleScroll_def Let_def)
  have n: "\<not> has_container (NoMessages [] [])" by simp
  from reader_is_overruled [OF n refl d, of "[]"] show ?thesis by auto
qed

text \<open>Otherwise the list respects its reader.  While the list that first appeared with messages
  keeps them, a reader who has scrolled up by more than the threshold is left alone by any
  number of new messages, and one who is near the bottom is taken along by each.\<close>

lemma attached_run:
  assumes "attached e a"
  shows "attached e (fold (\<lambda>(bs, k). list_event (Rerender (Messages bs) k)) ms a)
    \<and> (\<not> as_pinned a \<longrightarrow> as_scrolled (fold (\<lambda>(bs, k). list_event (Rerender (Messages bs) k)) ms a) = as_scrolled a)"
  using assms
proof (induction ms arbitrary: a)
  case (Cons m ms)
  obtain bs k where m: "m = (bs, k)" by (cases m)
  let ?b = "list_event (Rerender (Messages bs) k) a"
  have "attached e ?b" "\<not> as_pinned a \<Longrightarrow> \<not> as_pinned ?b \<and> as_scrolled ?b = as_scrolled a"
    using Cons.prems(1)
    by (auto simp: attached_def rerender_def place_def follow_effect_def scrollToBottom_def Let_def)
  with Cons.IH [of ?b] show ?case by (auto simp: m)
qed simp

theorem reader_is_respected:
  assumes "a = list_event (Scroll height offset client) (mount (Messages bs) n)" and "height - offset - client > 96"
  shows "as_scrolled (fold (\<lambda>(bs, k). list_event (Rerender (Messages bs) k)) ms a) = as_scrolled a"
proof -
  have m: "attached 0 (mount (Messages bs) n)"
    by (simp add: mount_def place_def listen_effect_def follow_effect_def scrollToBottom_def attached_def)
  then have "attached 0 a" "\<not> as_pinned a"
    using assms(2) by (auto simp: assms(1) attached_def handleScroll_def)
  then show ?thesis using attached_run [of 0 a ms] by blast
qed

theorem reader_is_respected_witness:
  "as_scrolled (fold (\<lambda>(bs, k). list_event (Rerender (Messages bs) k)) [([], 2), ([], 3)]
     (list_event (Scroll 5000 0 500) (mount (Messages []) 1))) = [0]"
  using reader_is_respected [OF refl, of 5000 0 500 "[([], 2), ([], 3)]" "[]" 1]
  by (simp add: mount_def place_def listen_effect_def follow_effect_def scrollToBottom_def handleScroll_def)

end
