(* ===== verification/Components.thy ===== *)
theory Components
  imports Markup MessageView
begin

section \<open>The components (frontend/components)\<close>

text \<open>
  Every component as the document it returns, a function of the chat state that it reads through
  \<open>useChat\<close>, of its props and of its own \<open>useState\<close> values.  Icons are leaves, fixed styling
  and animation are left out, conditions, texts, accessible names and handlers are kept.  The
  parts of the environment that a component uses are in the record \<open>UiEnv\<close>: \<open>toUpperCase\<close>,
  \<open>toLowerCase\<close>, \<open>Date.toISOString\<close> and the browser's format of a time.
\<close>

record UiEnv =
  en_upper :: "jsstr \<Rightarrow> jsstr"
  en_lower :: "jsstr \<Rightarrow> jsstr"
  en_iso :: "jsstr \<Rightarrow> jsstr"
  en_time :: "jsstr \<Rightarrow> jsstr"

text \<open>What a user can cause: an operation of the context, or a change of a component's own state.
  The two sidebars (of which the mobile one lies over the page) have a search field each.\<close>

datatype PageEvent =
    Do UserAction
  | SetQuery bool jsstr
  | Compose ComposerEvent
  | SetMode Mode
  | SetUsername jsstr
  | SetPassword jsstr
  | SubmitLogin
  | SetGroupName jsstr
  | ToggleMember jsstr
  | SubmitGroup
  | SetNicknameField jsstr
  | SubmitNickname

type_synonym doc = "PageEvent dom"

subsection \<open>PresenceDot.tsx, ConnectionStatusBadge.tsx\<close>

fun presence_color :: "Presence \<Rightarrow> string" where
  "presence_color Online = ''bg-emerald-400''"
| "presence_color Away = ''bg-amber-400''"
| "presence_color Offline = ''bg-zinc-600''"

definition PresenceDot :: "Presence \<Rightarrow> doc" where
  "PresenceDot x = El ''span''
     [StateClass (presence_color x), Attr ''aria-label'' (js ''Presence: '' @ presence_name x), Attr ''title'' (presence_name x)] []"

fun status_color :: "ConnectionStatus \<Rightarrow> string" where
  "status_color Idle = ''bg-zinc-500''"
| "status_color StConnecting = ''bg-amber-400 animate-pulse''"
| "status_color Connected = ''bg-emerald-400''"
| "status_color Disconnected = ''bg-zinc-500''"
| "status_color Reconnecting = ''bg-amber-400 animate-pulse''"
| "status_color StFailed = ''bg-red-400''"

definition ConnectionStatusBadge :: "ConnectionStatus \<Rightarrow> bool \<Rightarrow> doc" where
  "ConnectionStatusBadge status compact = El ''div'' []
     (El ''span'' [StateClass (status_color status)] []
      # dom_when (\<not> compact) (El ''span'' [] [Text (getConnectionStatusLabel status)]))"

subsection \<open>MessageBubble.tsx\<close>

definition MessageBubble :: "UiEnv \<Rightarrow> bool \<Rightarrow> Message \<Rightarrow> doc" where
  "MessageBubble env showPrivacyIcon message =
     (let isSystem = (msg_kind message = CSystem); isError = (msg_kind message = CError);
          isOwn = (msg_isOwn message \<and> \<not> isSystem \<and> \<not> isError)
      in if isSystem \<or> isError
         then El ''div'' []
           [El ''div'' [StateClass (if isError then ''border-red-500/20 bg-red-500/10 text-red-300''
                else ''border-white/6 bg-white/[0.03] text-zinc-400'')]
              [Icon (if isError then ''AlertCircle'' else ''Megaphone''),
               El ''span'' [] [Text (msg_content message)]]]
         else El ''div'' [StateClass (if isOwn then ''justify-end'' else ''justify-start'')]
           [El ''div'' [StateClass (if isOwn then ''rounded-br-md bg-blue-600 text-white''
                else ''rounded-bl-md border border-white/8 bg-[#141417] text-zinc-100'')]
              (dom_when (\<not> isOwn)
                 (El ''div'' []
                    (El ''span'' [] (case msg_sender message of None \<Rightarrow> [] | Some sender \<Rightarrow> [Text sender])
                     # dom_when showPrivacyIcon (Icon ''Lock'')))
               @ [El ''p'' [] [Text (msg_content message)],
                  El ''time'' [Attr ''dateTime'' (en_iso env (msg_timestamp message)),
                               StateClass (if isOwn then ''text-blue-100/70'' else ''text-zinc-500'')]
                    [Text (en_time env (msg_timestamp message))]])])"

subsection \<open>MessageList.tsx\<close>

definition empty_icon :: "Conversation \<Rightarrow> string" where
  "empty_icon c = (if conv_type c = KDirect then ''Lock'' else if conv_type c = KGroup then ''UsersRound'' else ''Hash'')"

definition MessageList :: "UiEnv \<Rightarrow> bool \<Rightarrow> Conversation \<Rightarrow> doc" where
  "MessageList env online c =
     (let isDirect = (conv_type c = KDirect); isGroup = (conv_type c = KGroup) in
      if \<not> online
      then El ''div'' []
        [Icon ''WifiOff'',
         El ''div'' [] [El ''p'' [] [Text (js ''Disconnected'')],
                        El ''p'' [] [Text (js ''Reconnect from the sidebar to continue messaging.'')]]]
      else if length (conv_messages c) = 0
      then El ''div'' []
        [Icon (empty_icon c),
         El ''div'' []
           [El ''p'' [] [Text (if isDirect then js ''Message '' @ conv_title c
               else if isGroup then js ''Say hello to '' @ conv_title c else js ''Public chat is quiet'')],
            El ''p'' [] [Text (if isDirect then js ''Send a direct message to start the conversation.''
               else if isGroup then js ''Messages are only delivered to this group'' @ [39] @ js ''s members.''
               else js ''Say hello to get things started.'')]]]
      else El ''div'' [Attr ''aria-live'' (js ''polite''), Attr ''aria-relevant'' (js ''additions'')]
        (map (MessageBubble env isDirect) (conv_messages c)))"

definition DisconnectedBanner :: doc where
  "DisconnectedBanner = El ''div'' []
     [Icon ''MessageSquareOff'',
      El ''span'' [] [Text (js ''You are disconnected. Messages cannot be sent until reconnected.'')]]"

subsection \<open>MessageComposer.tsx\<close>

definition MessageComposer :: "bool \<Rightarrow> jsstr \<Rightarrow> jsstr \<Rightarrow> doc" where
  "MessageComposer disabled placeholder typed = El ''div'' []
     [El ''div'' []
        [El ''textarea'' [FieldValue typed, OnChange (\<lambda>t. Compose (Typed t)), OnKeyDown (\<lambda>enter shift. Compose (KeyDown enter shift)),
            Attr ''placeholder'' placeholder, Disabled disabled, Attr ''aria-label'' (js ''Message input'')] [],
         El ''button'' [OnClick (Compose ClickSend), Disabled (disabled \<or> trim typed = []),
            Attr ''aria-label'' (js ''Send message'')] [Icon ''Send'']],
      El ''p'' [] [Text (js ''Enter to send '' @ [183] @ js '' Shift+Enter for newline'')]]"

subsection \<open>ConversationHeader.tsx\<close>

definition ConversationHeader :: "ChatState \<Rightarrow> Conversation \<Rightarrow> PageEvent \<Rightarrow> doc" where
  "ConversationHeader state c onOpenSidebar =
     (let isDirect = (conv_type c = KDirect); isGroup = (conv_type c = KGroup);
          peer = (if isDirect then peer_of state c else None)
      in El ''header'' []
        [El ''button'' [OnClick onOpenSidebar, Attr ''aria-label'' (js ''Open sidebar'')] [Icon ''Menu''],
         El ''div'' [StateClass (if isDirect then ''border-violet-500/20 bg-violet-500/10''
             else if isGroup then ''border-cyan-500/20 bg-cyan-500/10'' else ''border-blue-500/20 bg-blue-500/10'')]
           (Icon (empty_icon c)
            # (case peer of None \<Rightarrow> [] | Some u \<Rightarrow> [PresenceDot (user_presence u)])),
         El ''div'' []
           [El ''h2'' [] [Text (if isDirect then conv_title c else if isGroup then conv_title c else js ''Public Chat'')],
            El ''p'' [] [Text (header_subtitle state c)]]])"

subsection \<open>Sidebar.tsx\<close>

definition SidebarSection :: "jsstr \<Rightarrow> doc list \<Rightarrow> doc list \<Rightarrow> doc" where
  "SidebarSection title action children = El ''div'' []
     (El ''div'' [] (El ''h2'' [] [Text title] # action) # children)"

definition unread_text :: "nat \<Rightarrow> jsstr" where
  "unread_text unread = (if unread > 99 then js ''99+'' else show_nat unread)"

text \<open>\<open>icon\<close> stands for the icon and its wrapper's class.\<close>

definition SidebarRow_view :: "string \<Rightarrow> SidebarRow \<Rightarrow> doc" where
  "SidebarRow_view icon row = El ''button''
     [OnClick (Do (DoSelectConversation (row_key row))),
      StateClass (if row_active row then ''bg-white/8 text-white'' else ''text-zinc-300 hover:bg-white/5'')]
     ([El ''span'' [] [Icon icon], El ''span'' [] [Text (row_label row)]]
      @ (case row_badge row of None \<Rightarrow> [] | Some x \<Rightarrow> [PresenceDot x])
      @ dom_when (row_unread row > 0) (El ''span'' [] [Text (unread_text (row_unread row))]))"

text \<open>A user who is online: the button that opens the conversation with the user.\<close>

definition initial_of :: "UiEnv \<Rightarrow> jsstr \<Rightarrow> jsstr" where
  "initial_of env name = en_upper env (take 1 name)"

definition user_button :: "UiEnv \<Rightarrow> User \<Rightarrow> doc" where
  "user_button env u = El ''button'' [OnClick (Do (DoStartDirect (user_id u)))]
     [El ''span'' [] [Text (initial_of env (user_nickname u)), PresenceDot (user_presence u)],
      El ''div'' [] [El ''p'' [] [Text (user_nickname u)], El ''p'' [] [Text (presence_name (user_presence u))]]]"

definition sidebar_head :: "ChatState \<Rightarrow> bool \<Rightarrow> doc" where
  "sidebar_head state mobile = El ''div'' []
     [El ''div'' []
       (El ''div'' [] [El ''div'' [] [Icon ''Plug''],
          El ''div'' [] [El ''h1'' [] [Text (js ''ThreadLink'')], ConnectionStatusBadge (connectionStatus state) False]]
        # dom_when mobile (El ''button'' [OnClick (Do (DoSetSidebar False)), Attr ''aria-label'' (js ''Close sidebar'')] [Icon ''X'']))]"

definition sidebar_public :: "ChatState \<Rightarrow> doc" where
  "sidebar_public state = El ''div'' []
     [El ''button'' [OnClick (Do DoOpenPublic),
         StateClass (if activeConversationId state = PUBLIC_CONVERSATION_ID then ''bg-blue-500/10 text-white''
                else ''text-zinc-300 hover:bg-white/5'')]
        [Icon ''Hash'', El ''span'' [] [Text (js ''Public Chat'')]]]"

definition sidebar_conversations :: "ChatState \<Rightarrow> doc list" where
  "sidebar_conversations state =
     dom_when (length (directConversations state) > 0)
       (SidebarSection (js ''Direct Messages'') [] (map (\<lambda>c. SidebarRow_view ''Lock'' (direct_row state c)) (directConversations state)))
     @ dom_when (length (groupConversations state) > 0)
       (SidebarSection (js ''Groups'') [] (map (\<lambda>c. SidebarRow_view ''UsersRound'' (group_row state c)) (groupConversations state)))"

definition sidebar_users :: "UiEnv \<Rightarrow> ChatState \<Rightarrow> bool \<Rightarrow> jsstr \<Rightarrow> doc" where
  "sidebar_users env state mobile query =
     (let online = (connectionStatus state = Connected);
          filtered = filteredUsers (en_lower env) query (onlineUsers state)
      in SidebarSection (js ''Online '' @ [183, 32] @ show_nat (length filtered))
        [El ''button'' [OnClick (Do (DoSetGroupModal True)), Disabled (\<not> online \<or> length (onlineUsers state) = 0),
            Attr ''aria-label'' (js ''Start a new group''), Attr ''title'' (js ''New group'')] [Icon ''Users'']]
        (El ''div'' [] [El ''div'' [] [Icon ''Search'',
            El ''input'' [FieldValue query, OnChange (SetQuery mobile), Attr ''placeholder'' (js ''Search users'')] []]]
         # (if length filtered = 0
            then [El ''p'' [] [Text (if online then js ''No other users online'' else js ''Connect to see users'')]]
            else map (user_button env) filtered)))"

text \<open>The lower part: who one is, the away toggle, the dialogs and the way out.\<close>

definition sidebar_profile :: "UiEnv \<Rightarrow> ChatState \<Rightarrow> doc" where
  "sidebar_profile env state =
     (let online = (connectionStatus state = Connected) in El ''div'' []
       [El ''div'' []
          (Text (if nick state \<noteq> [] then initial_of env (nick state) else js ''?'')
           # dom_when (truthy (userId state)) (PresenceDot (presence state))),
        El ''div'' [] [El ''p'' [] [Text (if nick state \<noteq> [] then nick state else js ''Guest'')],
           ConnectionStatusBadge (connectionStatus state) False],
        El ''button'' [OnClick (Do (DoSetPresence (toggled_presence state))), Disabled (\<not> online),
            StateClass (if presence state = Away then ''bg-amber-500/15 text-amber-300 hover:bg-amber-500/25''
                   else ''bg-white/5 text-zinc-400 hover:bg-white/10''),
            Attr ''title'' (js ''Toggle away status'')]
          [Text (if presence state = Away then js ''Away'' else js ''Set away'')]])"

definition sidebar_controls :: "ChatState \<Rightarrow> doc list" where
  "sidebar_controls state =
     (let online = (connectionStatus state = Connected) in
      [El ''div'' []
        [El ''button'' [OnClick (Do (DoSetNicknameModal True)), Disabled (\<not> online)] [Icon ''UserRound'', Text (js ''Nickname'')],
         El ''button'' [OnClick (Do (DoSetGroupModal True)), Disabled (\<not> online)] [Icon ''UserRoundCog'', Text (js ''New group'')]],
       El ''div'' [] [El ''button'' [OnClick (Do DoLogout)] [Icon ''LogOut'', Text (js ''Sign out'')]]])"

definition Sidebar :: "UiEnv \<Rightarrow> ChatState \<Rightarrow> bool \<Rightarrow> jsstr \<Rightarrow> doc" where
  "Sidebar env state mobile query =
     El ''aside'' [StateClass (if mobile then ''flex h-full w-[min(88vw,320px)] flex-col border-r border-white/8 bg-[#0a0a0b]'' else ''hidden h-full w-80 shrink-0 flex-col border-r border-white/8 bg-[#0a0a0b] lg:flex'')]
       [sidebar_head state mobile,
        El ''div'' [] (sidebar_public state # sidebar_conversations state @ [sidebar_users env state mobile query]),
        El ''div'' [] (sidebar_profile env state # sidebar_controls state)]"

subsection \<open>NewGroupModal.tsx\<close>

record GroupForm =
  gf_name :: jsstr
  gf_selected :: "jsstr list"

definition candidate_row :: "UiEnv \<Rightarrow> jsstr list \<Rightarrow> User \<Rightarrow> doc" where
  "candidate_row env selected u = El ''label'' []
     [El ''input'' [Attr ''type'' (js ''checkbox''), Checked (user_id u \<in> set selected), OnToggle (ToggleMember (user_id u))] [],
      El ''span'' [] [Text (initial_of env (user_nickname u))],
      Text (user_nickname u)]"

definition NewGroupModalForm :: "UiEnv \<Rightarrow> User list \<Rightarrow> PageEvent \<Rightarrow> GroupForm \<Rightarrow> doc" where
  "NewGroupModalForm env candidates onClose form = El ''div'' []
     [El ''button'' [OnClick onClose, Attr ''aria-label'' (js ''Close new group dialog'')] [],
      El ''div'' [Attr ''role'' (js ''dialog''), Attr ''aria-labelledby'' (js ''new-group-title'')]
        [El ''div'' []
           [El ''div'' [] [El ''h2'' [Attr ''id'' (js ''new-group-title'')] [Text (js ''New group'')],
              El ''p'' [] [Text (js ''Only online users can be added right now.'')]],
            El ''button'' [OnClick onClose, Attr ''aria-label'' (js ''Close'')] [Icon ''X'']],
         El ''form'' [OnSubmit SubmitGroup]
           [El ''label'' [Attr ''for'' (js ''group-name'')] [Text (js ''Group name'')],
            El ''input'' [Attr ''id'' (js ''group-name''), FieldValue (gf_name form), OnChange SetGroupName,
              Attr ''placeholder'' (js ''e.g. Engineering'')] [],
            El ''p'' [] [Text (js ''Members ('' @ show_nat (length (gf_selected form)) @ js '' selected)'')],
            El ''div'' []
              (if length candidates = 0 then [El ''p'' [] [Text (js ''No other users are online right now.'')]]
               else map (candidate_row env (gf_selected form)) candidates),
            El ''div'' []
              [El ''button'' [OnClick onClose] [Text (js ''Cancel'')],
               El ''button'' [SubmitButton, Disabled (\<not> canCreate (gf_name form) (gf_selected form))]
                 [Icon ''Users'', Text (js ''Create group'')]]]]]"

definition NewGroupModalHost :: "UiEnv \<Rightarrow> ChatState \<Rightarrow> GroupForm option \<Rightarrow> doc list" where
  "NewGroupModalHost env state form =
     (if \<not> newGroupModalOpen state then []
      else (case form of None \<Rightarrow> []
        | Some f \<Rightarrow> [NewGroupModalForm env (onlineUsers state) (Do (DoSetGroupModal False)) f]))"

subsection \<open>NicknameModal.tsx\<close>

definition NicknameModalForm :: "PageEvent \<Rightarrow> jsstr option \<Rightarrow> jsstr \<Rightarrow> doc" where
  "NicknameModalForm onClose error typed = El ''div'' []
     [El ''button'' [OnClick onClose, Attr ''aria-label'' (js ''Close nickname dialog'')] [],
      El ''div'' [Attr ''role'' (js ''dialog''), Attr ''aria-labelledby'' (js ''nickname-title'')]
        [El ''div'' []
           [El ''div'' [] [El ''h2'' [Attr ''id'' (js ''nickname-title'')] [Text (js ''Change nickname'')],
              El ''p'' [] [Text (js ''This updates your display name for everyone in the chat.'')]],
            El ''button'' [OnClick onClose, Attr ''aria-label'' (js ''Close'')] [Icon ''X'']],
         El ''form'' [OnSubmit SubmitNickname]
           (El ''label'' [Attr ''for'' (js ''nickname-input'')] [Text (js ''Nickname'')]
            # El ''input'' [Attr ''id'' (js ''nickname-input''), FieldValue typed, OnChange SetNicknameField] []
            # dom_when (truthy error) (El ''p'' [Attr ''role'' (js ''alert'')] [Text (the error)])
            @ [El ''div'' []
                [El ''button'' [OnClick onClose] [Text (js ''Cancel'')],
                 El ''button'' [SubmitButton] [Text (js ''Save'')]]])]]"

text \<open>The form is the one of \<open>nickname_form\<close>: its key and what is typed.\<close>

definition NicknameModalHost :: "ChatState \<Rightarrow> (jsstr \<times> jsstr) option \<Rightarrow> doc list" where
  "NicknameModalHost state form =
     (if \<not> nicknameModalOpen state then []
      else (case form of None \<Rightarrow> []
        | Some (key, typed) \<Rightarrow> [NicknameModalForm (Do (DoSetNicknameModal False)) (lastError state) typed]))"

subsection \<open>LoginScreen.tsx\<close>

record LoginForm =
  lf_mode :: Mode
  lf_username :: jsstr
  lf_password :: jsstr

definition login_tab :: "Mode \<Rightarrow> LoginForm \<Rightarrow> jsstr \<Rightarrow> jsstr \<Rightarrow> doc" where
  "login_tab mode form name label = El ''button''
     [OnClick (SetMode mode), Attr ''aria-label'' name,
      StateClass (if lf_mode form = mode then ''bg-blue-600 text-white'' else ''text-zinc-400 hover:text-white'')]
     [Text label]"

definition login_field :: "string \<Rightarrow> jsstr \<Rightarrow> string \<Rightarrow> PageEvent attr list \<Rightarrow> doc" where
  "login_field ident label icon attrs = El ''div'' []
     [El ''label'' [Attr ''for'' (js ident)] [Text label],
      El ''div'' [] [Icon icon, El ''input'' (Attr ''id'' (js ident) # attrs) []]]"

definition login_button :: "ChatState \<Rightarrow> LoginForm \<Rightarrow> doc" where
  "login_button state form =
     (let isBusy = authenticating state in
      El ''button'' [SubmitButton, Disabled (isBusy \<or> trim (lf_username form) = [] \<or> lf_password form = [])]
        (if isBusy
         then [Icon ''Loader2'', Text ((if lf_mode form = ModeLogin then js ''Signing in'' else js ''Creating account'') @ [8230])]
         else [Text (if lf_mode form = ModeLogin then js ''Sign in'' else js ''Create account'')]))"

definition LoginScreen_view :: "ChatState \<Rightarrow> LoginForm \<Rightarrow> doc" where
  "LoginScreen_view state form =
     (let isBusy = authenticating state; registering = (lf_mode form = ModeRegister) in
      El ''div'' [] [El ''div'' []
       [El ''div'' [] [El ''div'' [] [Icon ''Plug''], El ''h1'' [] [Text (js ''ThreadLink'')],
          El ''p'' [] [Text (if lf_mode form = ModeLogin then js ''Sign in to continue the conversation.''
                             else js ''Create an account to get started.'')]],
        El ''div'' [] [login_tab ModeLogin form (js ''Switch to sign in'') (js ''Sign in''),
                       login_tab ModeRegister form (js ''Switch to create account'') (js ''Create account'')],
        El ''form'' [OnSubmit SubmitLogin]
          ([login_field ''username'' (js ''Username'') ''UserRound''
              [Attr ''type'' (js ''text''), FieldValue (lf_username form), OnChange SetUsername,
               Attr ''placeholder'' (js ''Choose a username''), Disabled isBusy, Attr ''autocomplete'' (js ''username'')],
            login_field ''password'' (js ''Password'') ''Lock''
              [Attr ''type'' (js ''password''), FieldValue (lf_password form), OnChange SetPassword,
               Attr ''placeholder'' (if registering then js ''At least 8 characters'' else js ''Your password''), Disabled isBusy,
               Attr ''autocomplete'' (if lf_mode form = ModeLogin then js ''current-password'' else js ''new-password''),
               MinLength (if registering then Some 8 else None)]]
           @ dom_when (truthy (authError state)) (El ''div'' [Attr ''role'' (js ''alert'')] [Text (the (authError state))])
           @ [login_button state form])]])"

end
