(* ===== verification/Page.thy ===== *)
theory Page
  imports Components
begin

section \<open>The page: layout, forms, and what a user can do (frontend/components, frontend/app)\<close>

text \<open>
  The whole page of a browser: the provider of the context below the root layout, and the
  \<open>useState\<close> values of the components that are mounted.  The page on the screen is the one of
  the last render; a render mounts the components that appear, with new values, and forgets those
  that disappear.  A user acts on the page that is on the screen, and only through what it offers;
  React renders before it handles the next action of the user.  Events of the socket and the timer
  come at any time.
\<close>

subsection \<open>ChatLayout.tsx, ChatApp.tsx, app/page.tsx, app/layout.tsx\<close>

record ChatForms =
  cf_query :: jsstr
  cf_mobileQuery :: "jsstr option"
  cf_composer :: jsstr
  cf_group :: "GroupForm option"
  cf_nickname :: "(jsstr \<times> jsstr) option"

definition ChatLayout_view :: "UiEnv \<Rightarrow> ChatState \<Rightarrow> Conversation \<Rightarrow> ChatForms \<Rightarrow> doc" where
  "ChatLayout_view env state active forms =
     (let online = (connectionStatus state = Connected) in
      El ''div'' []
       (Sidebar env state False (cf_query forms)
        # (if sidebarOpen state then
             [El ''div'' []
               [El ''button'' [OnClick (Do (DoSetSidebar False)), Attr ''aria-label'' (js ''Close sidebar overlay'')] [],
                El ''div'' [] [Sidebar env state True (case cf_mobileQuery forms of None \<Rightarrow> [] | Some q \<Rightarrow> q)]]]
           else [])
        @ [El ''main'' []
             (ConversationHeader state active (Do (DoSetSidebar True))
              # dom_when (disconnected_banner state) DisconnectedBanner
              @ [MessageList env online active,
                 MessageComposer (\<not> online) (composerPlaceholder active) (cf_composer forms)])]
        @ NicknameModalHost state (cf_nickname forms)
        @ NewGroupModalHost env state (cf_group forms)))"

text \<open>What is mounted, and the page.  The provider's \<open>p_stateRef\<close> is the state that was rendered;
  \<open>pg_stored\<close> is the user name in local storage when the page was loaded, which a login
  overwrites.\<close>

datatype Mounted = AtLogin LoginForm | AtChat ChatForms

record Page =
  pg_provider :: Provider
  pg_mounted :: Mounted
  pg_stored :: "jsstr option"

abbreviation shown :: "Page \<Rightarrow> ChatState" where
  "shown pg \<equiv> p_stateRef (pg_provider pg)"

definition RootLayout :: "doc list \<Rightarrow> doc" where
  "RootLayout children = El ''html'' [Attr ''lang'' (js ''en'')] [El ''body'' [] children]"

text \<open>\<open>ChatApp\<close> takes the layout if there is a user id; the document is empty if the active
  conversation does not exist, in which case the component throws.\<close>

definition page_view :: "UiEnv \<Rightarrow> Page \<Rightarrow> doc" where
  "page_view env pg = RootLayout
     (case pg_mounted pg of
        AtLogin form \<Rightarrow> [LoginScreen_view (shown pg) form]
      | AtChat forms \<Rightarrow> (case activeConversation (shown pg) of
            None \<Rightarrow> []
          | Some active \<Rightarrow> [ChatLayout_view env (shown pg) active forms]))"

subsection \<open>Rendering: which components are mounted\<close>

definition new_login :: "jsstr option \<Rightarrow> LoginForm" where
  "new_login stored = \<lparr>lf_mode = ModeLogin, lf_username = loadLastUsername stored, lf_password = []\<rparr>"

definition new_forms :: ChatForms where
  "new_forms = \<lparr>cf_query = [], cf_mobileQuery = None, cf_composer = [], cf_group = None, cf_nickname = None\<rparr>"

definition remount :: "'a \<Rightarrow> bool \<Rightarrow> 'a option \<Rightarrow> 'a option" where
  "remount new is_open before = (if \<not> is_open then None else case before of None \<Rightarrow> Some new | Some old \<Rightarrow> Some old)"

definition mount_forms :: "ChatState \<Rightarrow> ChatForms \<Rightarrow> ChatForms" where
  "mount_forms state f =
     f\<lparr>cf_mobileQuery := remount [] (sidebarOpen state) (cf_mobileQuery f),
       cf_group := remount \<lparr>gf_name = [], gf_selected = []\<rparr> (newGroupModalOpen state) (cf_group f),
       cf_nickname := nickname_form state (cf_nickname f)\<rparr>"

definition mount_page :: "jsstr option \<Rightarrow> ChatState \<Rightarrow> Mounted \<Rightarrow> Mounted" where
  "mount_page stored state m =
     (case ChatApp state of
        ChatLayout \<Rightarrow> AtChat (mount_forms state (case m of AtLogin _ \<Rightarrow> new_forms | AtChat f \<Rightarrow> f))
      | LoginScreen \<Rightarrow> AtLogin (case m of AtLogin f \<Rightarrow> f | AtChat _ \<Rightarrow> new_login stored))"

definition stored_username :: "Page \<Rightarrow> jsstr option" where
  "stored_username pg = (case p_lastUsername (pg_provider pg) of None \<Rightarrow> pg_stored pg | Some name \<Rightarrow> Some name)"

definition page_render :: "Page \<Rightarrow> Page" where
  "page_render pg =
     (let p = render (pg_provider pg)
      in pg\<lparr>pg_provider := p, pg_mounted := mount_page (stored_username pg) (p_state p) (pg_mounted pg)\<rparr>)"

definition new_page :: "jsstr \<Rightarrow> jsstr option \<Rightarrow> Page" where
  "new_page url stored = \<lparr>pg_provider = new_provider url, pg_mounted = AtLogin (new_login stored), pg_stored = stored\<rparr>"

subsection \<open>The handlers of the page\<close>

text \<open>The new values of the forms and the operation that is called, if any.\<close>

fun login_event :: "PageEvent \<Rightarrow> LoginForm \<Rightarrow> LoginForm \<times> UserAction option" where
  "login_event (SetMode m) f = (f\<lparr>lf_mode := m\<rparr>, None)"
| "login_event (SetUsername t) f = (f\<lparr>lf_username := t\<rparr>, None)"
| "login_event (SetPassword t) f = (f\<lparr>lf_password := t\<rparr>, None)"
| "login_event SubmitLogin f = (f, login_submit (lf_mode f) (lf_username f) (lf_password f))"
| "login_event (Do a) f = (f, Some a)"
| "login_event _ f = (f, None)"

fun chat_event :: "ChatState \<Rightarrow> PageEvent \<Rightarrow> ChatForms \<Rightarrow> ChatForms \<times> UserAction option" where
  "chat_event state (SetQuery mobile t) f =
     (if mobile then f\<lparr>cf_mobileQuery := Some t\<rparr> else f\<lparr>cf_query := t\<rparr>, None)"
| "chat_event state (Compose e) f =
     (let (v, sent) = composer_step (connectionStatus state \<noteq> Connected) e (cf_composer f)
      in (f\<lparr>cf_composer := v\<rparr>, map_option DoSendMessage sent))"
| "chat_event state (SetGroupName t) f = (f\<lparr>cf_group := map_option (\<lambda>g. g\<lparr>gf_name := t\<rparr>) (cf_group f)\<rparr>, None)"
| "chat_event state (ToggleMember i) f =
     (f\<lparr>cf_group := map_option (\<lambda>g. g\<lparr>gf_selected := toggle i (gf_selected g)\<rparr>) (cf_group f)\<rparr>, None)"
| "chat_event state SubmitGroup f =
     (f, case cf_group f of None \<Rightarrow> None | Some g \<Rightarrow> group_submit (gf_name g) (gf_selected g))"
| "chat_event state (SetNicknameField t) f = (f\<lparr>cf_nickname := map_option (\<lambda>(key, _). (key, t)) (cf_nickname f)\<rparr>, None)"
| "chat_event state SubmitNickname f = (f, map_option nickname_submit (cf_nickname f))"
| "chat_event state (Do a) f = (f, Some a)"
| "chat_event state _ f = (f, None)"

fun mounted_event :: "ChatState \<Rightarrow> PageEvent \<Rightarrow> Mounted \<Rightarrow> Mounted \<times> UserAction option" where
  "mounted_event state e (AtLogin f) = map_prod AtLogin id (login_event e f)"
| "mounted_event state e (AtChat f) = map_prod AtChat id (chat_event state e f)"

definition page_event :: "jsstr \<times> jsstr \<Rightarrow> jsstr option \<Rightarrow> PageEvent \<Rightarrow> Page \<Rightarrow> Page" where
  "page_event fresh refused e pg =
     (let (m, called) = mounted_event (shown pg) e (pg_mounted pg);
          p = pg_provider pg
      in page_render (pg\<lparr>pg_provider := (case called of None \<Rightarrow> p | Some a \<Rightarrow> act fresh refused a p), pg_mounted := m\<rparr>))"

subsection \<open>Runs of a page\<close>

text \<open>\<open>page_run\<close> with the trace of the operations that the user's actions have called.\<close>

inductive page_run :: "(jsstr \<Rightarrow> jsstr) \<Rightarrow> UiEnv \<Rightarrow> UserAction list \<Rightarrow> Page \<Rightarrow> bool" for num env where
  loaded: "page_run num env [] (new_page url stored)"
| rendered: "page_run num env acts pg \<Longrightarrow> page_run num env acts (page_render pg)"
| mounted: "page_run num env acts pg \<Longrightarrow>
    page_run num env acts (pg\<lparr>pg_provider := ensureClient fresh refused (pg_provider pg)\<rparr>)"
| user: "page_run num env acts pg \<Longrightarrow> e \<in> offers (page_view env pg) \<Longrightarrow>
    page_run num env (acts @ (case snd (mounted_event (shown pg) e (pg_mounted pg)) of None \<Rightarrow> [] | Some a \<Rightarrow> [a]))
      (page_event fresh refused e pg)"
| socket: "page_run num env acts pg \<Longrightarrow> p_client (pg_provider pg) = Some c \<Longrightarrow> client_event num c d \<Longrightarrow>
    page_run num env acts (pg\<lparr>pg_provider := absorb fresh d (pg_provider pg)\<rparr>)"

text \<open>One step of a page, with the actions of the user in it, and what comes later.\<close>

inductive page_step :: "(jsstr \<Rightarrow> jsstr) \<Rightarrow> UiEnv \<Rightarrow> Page \<Rightarrow> UserAction list \<Rightarrow> Page \<Rightarrow> bool" for num env where
  step_rendered: "page_step num env pg [] (page_render pg)"
| step_mounted: "page_step num env pg [] (pg\<lparr>pg_provider := ensureClient fresh refused (pg_provider pg)\<rparr>)"
| step_user: "e \<in> offers (page_view env pg) \<Longrightarrow>
    page_step num env pg (case snd (mounted_event (shown pg) e (pg_mounted pg)) of None \<Rightarrow> [] | Some a \<Rightarrow> [a]) (page_event fresh refused e pg)"
| step_socket: "p_client (pg_provider pg) = Some c \<Longrightarrow> client_event num c d \<Longrightarrow>
    page_step num env pg [] (pg\<lparr>pg_provider := absorb fresh d (pg_provider pg)\<rparr>)"

inductive page_later :: "(jsstr \<Rightarrow> jsstr) \<Rightarrow> UiEnv \<Rightarrow> Page \<Rightarrow> UserAction list \<Rightarrow> Page \<Rightarrow> bool" for num env pg where
  later_now: "page_later num env pg [] pg"
| later_step: "page_later num env pg acts pg1 \<Longrightarrow> page_step num env pg1 as pg2 \<Longrightarrow> page_later num env pg (acts @ as) pg2"

lemma step_run: "page_step num env pg as pg' \<Longrightarrow> page_run num env acts pg \<Longrightarrow> page_run num env (acts @ as) pg'"
  by (cases rule: page_step.cases) (auto intro: page_run.intros)

lemma later_run: "page_later num env pg as pg' \<Longrightarrow> page_run num env acts pg \<Longrightarrow> page_run num env (acts @ as) pg'"
  by (induction rule: page_later.induct) (auto simp flip: append_assoc intro: step_run)

subsection \<open>What the documents offer\<close>

lemma offers_badge [markup]: "offers (PresenceDot x) = {}" "offers (ConnectionStatusBadge st b) = {}"
  by (simp_all add: PresenceDot_def ConnectionStatusBadge_def markup)

lemma offers_row [markup]: "offers (SidebarRow_view icon row) = {Do (DoSelectConversation (row_key row))}"
  by (cases "row_badge row") (simp_all add: SidebarRow_view_def markup)

lemma offers_user [markup]: "offers (user_button env u) = {Do (DoStartDirect (user_id u))}"
  by (simp add: user_button_def markup)

lemma offers_section [markup]:
  "offers (SidebarSection t action children) = \<Union> (offers ` set action) \<union> \<Union> (offers ` set children)"
  by (auto simp: SidebarSection_def markup)

lemma offers_conversations [markup]:
  "\<Union> (offers ` set (sidebar_conversations state)) = (\<lambda>row. Do (DoSelectConversation (row_key row))) ` set (sidebar_rows state)"
  by (auto simp: sidebar_conversations_def sidebar_rows_def markup)

definition sidebar_events :: "UiEnv \<Rightarrow> ChatState \<Rightarrow> bool \<Rightarrow> jsstr \<Rightarrow> PageEvent set" where
  "sidebar_events env state mobile query =
     {Do DoOpenPublic, Do DoLogout} \<union> range (SetQuery mobile)
     \<union> (\<lambda>row. Do (DoSelectConversation (row_key row))) ` set (sidebar_rows state)
     \<union> (\<lambda>u. Do (DoStartDirect (user_id u))) ` set (filteredUsers (en_lower env) query (onlineUsers state))
     \<union> (if connectionStatus state = Connected
        then {Do (DoSetPresence (toggled_presence state)), Do (DoSetNicknameModal True), Do (DoSetGroupModal True)} else {})
     \<union> (if mobile then {Do (DoSetSidebar False)} else {})"

lemma offers_users:
  "offers (sidebar_users env state mobile query) = range (SetQuery mobile)
     \<union> (\<lambda>u. Do (DoStartDirect (user_id u))) ` set (filteredUsers (en_lower env) query (onlineUsers state))
     \<union> (if connectionStatus state = Connected \<and> onlineUsers state \<noteq> [] then {Do (DoSetGroupModal True)} else {})"
  by (auto simp: sidebar_users_def Let_def markup)

lemma offers_parts:
  "offers (sidebar_head state mobile) = (if mobile then {Do (DoSetSidebar False)} else {})"
  "offers (sidebar_public state) = {Do DoOpenPublic}"
  "offers (sidebar_profile env state) =
     (if connectionStatus state = Connected then {Do (DoSetPresence (toggled_presence state))} else {})"
  "\<Union> (offers ` set (sidebar_controls state)) = {Do DoLogout} \<union>
     (if connectionStatus state = Connected then {Do (DoSetNicknameModal True), Do (DoSetGroupModal True)} else {})"
  by (simp_all add: sidebar_head_def sidebar_public_def sidebar_profile_def sidebar_controls_def Let_def markup insert_commute)

lemma offers_sidebar: "offers (Sidebar env state mobile query) = sidebar_events env state mobile query"
proof -
  have "offers (Sidebar env state mobile query) = offers (sidebar_head state mobile) \<union> offers (sidebar_public state)
      \<union> \<Union> (offers ` set (sidebar_conversations state)) \<union> offers (sidebar_users env state mobile query)
      \<union> offers (sidebar_profile env state) \<union> \<Union> (offers ` set (sidebar_controls state))"
    by (simp add: Sidebar_def markup Un_ac)
  then show ?thesis by (auto simp: offers_parts offers_conversations offers_users sidebar_events_def)
qed

lemma offers_bubble [markup]: "offers (MessageBubble env b m) = {}"
  by (auto simp: MessageBubble_def Let_def markup split: option.split)

lemma offers_list [markup]: "offers (MessageList env online c) = {}"
  by (auto simp: MessageList_def Let_def markup)

lemma offers_banner [markup]: "offers DisconnectedBanner = {}"
  by (simp add: DisconnectedBanner_def markup)

lemma offers_header: "offers (ConversationHeader state c e) = {e}"
  by (auto simp: ConversationHeader_def Let_def markup split: option.split)

definition composer_events :: "bool \<Rightarrow> jsstr \<Rightarrow> PageEvent set" where
  "composer_events disabled typed =
     (if disabled then {}
      else range (\<lambda>t. Compose (Typed t)) \<union> {Compose (KeyDown enter shift) | enter shift. True}
        \<union> (if trim typed = [] then {} else {Compose ClickSend}))"

lemma offers_composer: "offers (MessageComposer disabled placeholder typed) = composer_events disabled typed"
  by (auto simp: MessageComposer_def composer_events_def markup)

definition nickname_events :: "(jsstr \<times> jsstr) option \<Rightarrow> PageEvent set" where
  "nickname_events form =
     (if form = None then {} else {Do (DoSetNicknameModal False), SubmitNickname} \<union> range SetNicknameField)"

lemma offers_nickname:
  assumes "\<not> nicknameModalOpen state \<Longrightarrow> form = None"
  shows "\<Union> (offers ` set (NicknameModalHost state form)) = nickname_events form"
proof (cases form)
  case (Some kt)
  then have "nicknameModalOpen state" using assms by blast
  then show ?thesis
    by (cases kt; cases "truthy (lastError state)")
      (simp_all add: NicknameModalHost_def NicknameModalForm_def nickname_events_def Some form_ready_def markup insert_commute)
qed (simp add: NicknameModalHost_def nickname_events_def)

definition group_events :: "ChatState \<Rightarrow> GroupForm option \<Rightarrow> PageEvent set" where
  "group_events state form =
     (case form of None \<Rightarrow> {}
      | Some f \<Rightarrow> {Do (DoSetGroupModal False)} \<union> range SetGroupName
          \<union> (\<lambda>u. ToggleMember (user_id u)) ` set (onlineUsers state)
          \<union> (if canCreate (gf_name f) (gf_selected f) then {SubmitGroup} else {}))"

lemma candidate_rows:
  "offers (candidate_row env sel u) = {ToggleMember (user_id u)}" "submit_buttons \<circ> candidate_row env sel = (\<lambda>u. [])"
  "fields_valid (candidate_row env sel u)" "concat (map (\<lambda>u. []) us) = []"
  by (auto simp: candidate_row_def markup)

lemma offers_group:
  assumes "\<not> newGroupModalOpen state \<Longrightarrow> form = None"
  shows "\<Union> (offers ` set (NewGroupModalHost env state form)) = group_events state form"
proof (cases form)
  case (Some f)
  then have o: "newGroupModalOpen state" using assms by blast
  have u: "(\<Union>u\<in>us. {g u :: PageEvent}) = g ` us" for g and us :: "User set" by blast
  show ?thesis
    by (cases "length (onlineUsers state) = 0")
      (simp_all add: o u NewGroupModalHost_def NewGroupModalForm_def group_events_def Some form_ready_def markup candidate_rows
        insert_commute Un_ac)
qed (simp add: NewGroupModalHost_def group_events_def)

definition chat_events :: "UiEnv \<Rightarrow> ChatState \<Rightarrow> ChatForms \<Rightarrow> PageEvent set" where
  "chat_events env state forms =
     sidebar_events env state False (cf_query forms)
     \<union> (if sidebarOpen state then {Do (DoSetSidebar False)}
          \<union> sidebar_events env state True (case cf_mobileQuery forms of None \<Rightarrow> [] | Some q \<Rightarrow> q) else {})
     \<union> {Do (DoSetSidebar True)} \<union> composer_events (connectionStatus state \<noteq> Connected) (cf_composer forms)
     \<union> nickname_events (cf_nickname forms) \<union> group_events state (cf_group forms)"

definition forms_match :: "ChatState \<Rightarrow> ChatForms \<Rightarrow> bool" where
  "forms_match state forms \<longleftrightarrow> (cf_nickname forms \<noteq> None \<longleftrightarrow> nicknameModalOpen state)
     \<and> (cf_group forms \<noteq> None \<longleftrightarrow> newGroupModalOpen state) \<and> (cf_mobileQuery forms \<noteq> None \<longleftrightarrow> sidebarOpen state)
     \<and> (case cf_group forms of None \<Rightarrow> True | Some g \<Rightarrow> distinct (gf_selected g))"

lemma offers_layout:
  assumes "forms_match state forms"
  shows "offers (ChatLayout_view env state active forms) = chat_events env state forms"
proof -
  have "\<Union> (offers ` set (NicknameModalHost state (cf_nickname forms))) = nickname_events (cf_nickname forms)"
    by (rule offers_nickname) (use assms in \<open>unfold forms_match_def, blast\<close>)
  moreover have "\<Union> (offers ` set (NewGroupModalHost env state (cf_group forms))) = group_events state (cf_group forms)"
    by (rule offers_group) (use assms in \<open>unfold forms_match_def, blast\<close>)
  moreover have "offers (ChatLayout_view env state active forms) = sidebar_events env state False (cf_query forms)
     \<union> (if sidebarOpen state then {Do (DoSetSidebar False)}
          \<union> sidebar_events env state True (case cf_mobileQuery forms of None \<Rightarrow> [] | Some q \<Rightarrow> q) else {})
     \<union> ({Do (DoSetSidebar True)} \<union> composer_events (connectionStatus state \<noteq> Connected) (cf_composer forms))
     \<union> \<Union> (offers ` set (NicknameModalHost state (cf_nickname forms)))
     \<union> \<Union> (offers ` set (NewGroupModalHost env state (cf_group forms)))"
    by (simp add: ChatLayout_view_def Let_def markup offers_sidebar offers_header offers_composer Un_ac)
  ultimately show ?thesis by (simp only: chat_events_def Un_assoc)
qed

definition login_events :: "ChatState \<Rightarrow> LoginForm \<Rightarrow> PageEvent set" where
  "login_events state form =
     {SetMode ModeLogin, SetMode ModeRegister}
     \<union> (if authenticating state then {} else range SetUsername \<union> range SetPassword)
     \<union> (if \<not> authenticating state \<and> trim (lf_username form) \<noteq> [] \<and> lf_password form \<noteq> []
           \<and> (lf_mode form = ModeRegister \<longrightarrow> 8 \<le> length (lf_password form)) then {SubmitLogin} else {})"

lemma login_field_parts:
  "submit_buttons (login_field i l c attrs) = (if SubmitButton \<in> set attrs then [\<not> is_disabled attrs] else [])"
  "fields_valid (login_field i l c attrs) \<longleftrightarrow> field_value attrs = [] \<or> field_min attrs \<le> length (field_value attrs)"
  "submits attrs = {} \<Longrightarrow> offers (login_field i l c attrs) = (if is_disabled attrs then {} else \<Union> (attr_events ` set attrs))"
  by (auto simp: login_field_def markup)

lemma login_button_parts:
  "submit_buttons (login_button state form) = [\<not> (authenticating state \<or> trim (lf_username form) = [] \<or> lf_password form = [])]"
  "fields_valid (login_button state form)" "offers (login_button state form) = {}"
  by (simp_all add: login_button_def Let_def markup)

lemma login_tab_offers: "offers (login_tab m form n l) = {SetMode m}"
  by (simp add: login_tab_def markup)

lemma field_min_option [simp]: "field_min (MinLength n # as) = (case n of None \<Rightarrow> field_min as | Some k \<Rightarrow> k)"
  by (cases n) simp_all

lemma offers_login: "offers (LoginScreen_view state form) = login_events state form"
  by (cases "truthy (authError state)"; cases "lf_mode form"; cases "authenticating state")
    (auto simp: LoginScreen_view_def Let_def login_events_def markup login_field_parts login_button_parts login_tab_offers
      form_ready_def)

subsection \<open>The page agrees with the state it shows\<close>

definition page_match :: "Page \<Rightarrow> bool" where
  "page_match pg \<longleftrightarrow> (case pg_mounted pg of
       AtLogin f \<Rightarrow> ChatApp (shown pg) = LoginScreen
     | AtChat f \<Rightarrow> ChatApp (shown pg) = ChatLayout \<and> forms_match (shown pg) f)"

definition selection_ok :: "Mounted \<Rightarrow> bool" where
  "selection_ok m \<longleftrightarrow> (case m of AtLogin _ \<Rightarrow> True
     | AtChat f \<Rightarrow> (case cf_group f of None \<Rightarrow> True | Some g \<Rightarrow> distinct (gf_selected g)))"

lemma page_render_fields [simp]:
  "pg_provider (page_render pg) = render (pg_provider pg)" "pg_stored (page_render pg) = pg_stored pg"
  "pg_mounted (page_render pg) = mount_page (stored_username pg) (p_state (pg_provider pg)) (pg_mounted pg)"
  by (simp_all add: page_render_def Let_def stored_username_def render_def)

lemma mount_forms_match:
  assumes "case cf_group f of None \<Rightarrow> True | Some g \<Rightarrow> distinct (gf_selected g)"
  shows "forms_match state (mount_forms state f)"
proof -
  have "cf_nickname (mount_forms state f) \<noteq> None \<longleftrightarrow> nicknameModalOpen state"
    by (auto simp: mount_forms_def nickname_form_def split: option.split)
  with assms show ?thesis
    by (auto simp: forms_match_def mount_forms_def remount_def split: option.splits)
qed

lemma render_match: "selection_ok (pg_mounted pg) \<Longrightarrow> page_match (page_render pg)"
  by (cases "pg_mounted pg"; cases "ChatApp (p_state (pg_provider pg))")
    (simp_all add: page_match_def mount_page_def selection_ok_def mount_forms_match new_forms_def)

lemma event_selection:
  "selection_ok m \<Longrightarrow> mounted_event state e m = (m', a) \<Longrightarrow> selection_ok m'"
proof (cases m)
  case (AtChat f)
  assume "selection_ok m" "mounted_event state e m = (m', a)"
  with AtChat show ?thesis
    by (cases e) (auto simp: selection_ok_def toggle_def split: option.splits if_splits prod.splits)
next
  case (AtLogin f)
  assume "mounted_event state e m = (m', a)"
  with AtLogin show ?thesis by (cases "login_event e f") (auto simp: selection_ok_def)
qed

lemma page_match_selection: "page_match pg \<Longrightarrow> selection_ok (pg_mounted pg)"
  by (auto simp: page_match_def selection_ok_def forms_match_def split: Mounted.split)

lemma page_match_provider: "p_stateRef p = shown pg \<Longrightarrow> page_match (pg\<lparr>pg_provider := p\<rparr>) = page_match pg"
  by (simp add: page_match_def split: Mounted.split)

lemma fold_stateRef [simp]: "p_stateRef (fold (on_effect fresh) es p) = p_stateRef p"
  by (induction es arbitrary: p) (simp_all add: effect_fields)

lemma absorb_stateRef [simp]: "p_stateRef (absorb fresh d p) = p_stateRef p"
  by (simp add: absorb_def split: option.split)

lemma ensure_stateRef [simp]: "p_stateRef (ensureClient fresh refused p) = p_stateRef p"
  by (simp add: ensureClient_def Let_def split: option.split)

lemma event_match: "page_match pg \<Longrightarrow> page_match (page_event fresh refused e pg)"
  unfolding page_event_def Let_def
  using event_selection [OF page_match_selection] by (auto intro!: render_match split: prod.split) 

lemma run_match: "page_run num env acts pg \<Longrightarrow> page_match pg"
proof (induction rule: page_run.induct)
  case (loaded url stored)
  then show ?case by (simp add: page_match_def new_page_def new_provider_def ChatApp_def truthy_def createInitialState_def)
next
  case (rendered acts pg)
  then show ?case by (intro render_match page_match_selection)
next
  case (user acts pg e fresh refused)
  then show ?case by (intro event_match)
qed (simp_all add: page_match_provider)

lemma page_offers:
  assumes "page_match pg" and "activeConversation (shown pg) \<noteq> None"
  shows "offers (page_view env pg) = (case pg_mounted pg of AtLogin f \<Rightarrow> login_events (shown pg) f
    | AtChat f \<Rightarrow> chat_events env (shown pg) f)"
  using assms by (auto simp: page_view_def RootLayout_def page_match_def markup offers_login offers_layout split: Mounted.split)

end
