(* ===== verification/PageSafety.thy ===== *)
theory PageSafety
  imports Page
begin

section \<open>What a page can do\<close>

text \<open>
  A contract for invariants of the provider (\<open>provider_invariant\<close>): what the reducer, a render,
  a message and a move of the client keep is kept by every operation of the context and every
  callback.  The two invariants that the pages rest on are interpretations: the public
  conversation exists, and everything that was sent is well formed.  The contract of a guarded
  form says that what a form hands on has passed the checks of its document.
\<close>

subsection \<open>What the client has sent\<close>

definition sends_of :: "ThreadLinkClient \<Rightarrow> ClientMessage set" where
  "sends_of c = {m. \<exists>frame. SocketSend m frame \<in> set (k_out c)}"

lemma sends_does [simp]: "sends_of (does e c) = sends_of c \<union> (case e of SocketSend m f \<Rightarrow> {m} | _ \<Rightarrow> {})"
  by (auto simp: sends_of_def split: ClientEffect.split)

lemma sends_fields [simp]:
  "sends_of (c\<lparr>k_socket := so\<rparr>) = sends_of c" "sends_of (c\<lparr>k_status := st\<rparr>) = sends_of c"
  "sends_of (c\<lparr>k_reconnectTimer := t\<rparr>) = sends_of c" "sends_of (c\<lparr>k_reconnectAttempts := n\<rparr>) = sends_of c"
  "sends_of (c\<lparr>k_intentionalClose := b\<rparr>) = sends_of c" "sends_of (new_client url r k) = {}"
  by (simp_all add: sends_of_def new_client_def)

lemma sends_ops [simp]:
  "sends_of (setStatus st c) = sends_of c" "sends_of (clearReconnectTimer c) = sends_of c" "sends_of (closeSocket u c) = sends_of c"
  "sends_of (client_connect refused c) = sends_of c" "sends_of (scheduleReconnect c) = sends_of c"
  by (simp_all add: setStatus_def clearReconnectTimer_def closeSocket_def client_connect_def scheduleReconnect_def Let_def
      split: option.split)

lemma sends_send: "sends_of (fst (client_send m c)) \<subseteq> insert m (sends_of c)"
  by (auto simp: client_send_def)

lemma sends_event: "client_event num c d \<Longrightarrow> sends_of d = sends_of c"
  by (induction rule: client_event.induct)
    (auto simp: onopen_def onmessage_def onerror_def onclose_def Let_def split: option.split)

subsection \<open>Invariants of the provider\<close>

text \<open>The messages that an operation may send.\<close>

definition call_good :: "(ClientMessage \<Rightarrow> bool) \<Rightarrow> UserAction \<Rightarrow> bool" where
  "call_good good a \<longleftrightarrow> (case a of
       DoAuthenticate x \<Rightarrow> good (auth_message x)
     | DoLogout \<Rightarrow> good Logout
     | DoSendMessage t \<Rightarrow> trim t = [] \<or> good (SendMessage TPublic (trim t)) \<and> (\<forall>peer. good (SendMessage (TDirect peer) (trim t)))
         \<and> (\<forall>g. good (SendMessage (TGroup g) (trim t)))
     | DoChangeNickname n \<Rightarrow> trim n = [] \<or> good (SetNickname (trim n))
     | DoSetPresence x \<Rightarrow> good (SetPresence x)
     | DoCreateGroup n ids \<Rightarrow> trim n = [] \<or> ids = [] \<or> good (CreateGroup (trim n) ids)
     | _ \<Rightarrow> True)"

locale provider_invariant =
  fixes inv :: "Provider \<Rightarrow> bool" and good :: "ClientMessage \<Rightarrow> bool"
  assumes inv_new: "inv (new_provider url)"
    and inv_dispatch: "inv p \<Longrightarrow> inv (dispatch fresh action p)"
    and inv_render: "inv p \<Longrightarrow> inv (render p)"
    and inv_username: "inv p \<Longrightarrow> inv (p\<lparr>p_lastUsername := u\<rparr>)"
    and inv_through: "inv p \<Longrightarrow> good m \<Longrightarrow> inv (fst (through_client fresh (client_send m) p))"
    and inv_pending: "inv p \<Longrightarrow> p_pendingAuth p = Some x \<Longrightarrow> good (auth_message x) \<and> inv (p\<lparr>p_pendingAuth := None\<rparr>)"
    and inv_wait: "inv p \<Longrightarrow> good (auth_message x) \<Longrightarrow> inv (p\<lparr>p_pendingAuth := Some x\<rparr>)"
    and inv_client: "inv p \<Longrightarrow> p_client p = Some c \<Longrightarrow> sends_of d = sends_of c \<Longrightarrow> inv (p\<lparr>p_client := Some d\<rparr>)"
    and inv_first: "inv p \<Longrightarrow> p_client p = None \<Longrightarrow> sends_of d = {} \<Longrightarrow> inv (p\<lparr>p_client := Some d\<rparr>)"
begin

lemma inv_status: "inv p \<Longrightarrow> inv (onStatusChange fresh st p)"
proof -
  assume p: "inv p"
  then have "inv (dispatch fresh (SET_STATUS st) p)" by (rule inv_dispatch)
  with p inv_pending [OF this] show ?thesis
    by (auto simp: onStatusChange_def Let_def intro!: inv_dispatch inv_through split: option.split)
qed

lemma inv_effect: "inv p \<Longrightarrow> inv (on_effect fresh e p)"
proof (cases e)
  case (EventIn v)
  have "inv p \<Longrightarrow> inv (handleServerEvent fresh m p)" for m
    by (cases m) (auto intro!: inv_dispatch inv_username)
  then show "inv p \<Longrightarrow> ?thesis" using EventIn by (simp split: option.split)
qed (auto intro: inv_status inv_dispatch)

lemma inv_absorb: "inv p \<Longrightarrow> p_client p = Some c \<Longrightarrow> sends_of d = sends_of c \<Longrightarrow> inv (absorb fresh d p)"
proof -
  have "inv q \<Longrightarrow> inv (fold (on_effect fresh) es q)" for q es
    by (induction es arbitrary: q) (auto intro: inv_effect)
  then show "inv p \<Longrightarrow> p_client p = Some c \<Longrightarrow> sends_of d = sends_of c \<Longrightarrow> ?thesis"
    by (simp add: absorb_def inv_client)
qed

lemma inv_ensure: "inv p \<Longrightarrow> inv (ensureClient fresh refused p)"
  by (auto simp: ensureClient_def Let_def intro!: inv_absorb inv_first split: option.split)

lemma inv_act:
  assumes "inv p" and "call_good good a"
  shows "inv (act fresh refused a p)"
proof (cases a)
  case (DoAuthenticate x)
  with assms show ?thesis
    by (auto simp: call_good_def authenticate_def Let_def intro!: inv_through inv_wait inv_ensure inv_dispatch)
next
  case (DoSendMessage t)
  with assms show ?thesis
    by (auto simp: call_good_def sendMessage_def Let_def intro!: inv_through inv_dispatch split: option.split ConversationKind.split)
next
  case (DoChangeNickname n)
  have "inv p'" if "trim n \<noteq> []" "through_client fresh (client_send (SetNickname (trim n))) p = (p', b)" for p' b
    using inv_through [OF assms(1), of "SetNickname (trim n)" fresh] that assms(2) DoChangeNickname by (simp add: call_good_def)
  with DoChangeNickname assms(1) show ?thesis by (auto simp: changeNickname_def Let_def intro!: inv_dispatch split: prod.split)
next
  case (DoStartDirect peer)
  with assms show ?thesis
    by (auto simp: startDirectConversation_def Let_def intro!: inv_dispatch split: option.split)
next
  case (DoCreateGroup n ids)
  with assms show ?thesis by (auto simp: call_good_def createGroup_def Let_def intro!: inv_through inv_dispatch)
qed (use assms in \<open>auto simp: call_good_def intro!: inv_through inv_dispatch\<close>)

end

text \<open>The public conversation is always there, so the page always has an active conversation.\<close>

definition has_public :: "ChatState \<Rightarrow> bool" where
  "has_public s \<longleftrightarrow> map_of (conversations s) PUBLIC_CONVERSATION_ID \<noteq> None"

lemma map_public_domain: "map_of (map_public f convs) k \<noteq> None \<longleftrightarrow> map_of convs k \<noteq> None"
  by (auto simp: map_public_get)

lemma has_public_step: "has_public s \<Longrightarrow> has_public (chatReducer fresh s a)"
proof (cases a)
  case (USER_UPDATE u)
  assume "has_public s"
  with USER_UPDATE show ?thesis
    by (simp only: has_public_def chatReducer.simps reduce_USER_UPDATE_def Let_def) (simp add: map_public_domain del: not_None_eq)
qed (auto simp: has_public_def reduce_READY_def ready_messages_get ready_conversations_get reduce_USER_OFFLINE_def map_public_get
    reduce_CONVERSATION_CREATED_def reduce_MESSAGE_RECEIVED_def reduce_ERROR_MESSAGE_def reduce_SET_ACTIVE_def
    reduce_LOGGED_OUT_def Let_def alist.get_put split: option.split)

definition both_public :: "Provider \<Rightarrow> bool" where
  "both_public p \<longleftrightarrow> has_public (p_state p) \<and> has_public (p_stateRef p)"

interpretation public: provider_invariant both_public "\<lambda>_. True"
proof unfold_locales
  show "both_public (new_provider url)" for url
    by (simp add: both_public_def has_public_def new_provider_def createInitialState_def)
  show "both_public (fst (through_client fresh (client_send m) p))" if "both_public p" for p fresh m
    using that by (auto simp: both_public_def has_public_def through_client_def Let_def split: option.split prod.split)
qed (auto simp: both_public_def render_def intro: has_public_step)

text \<open>What is sent has passed the forms.\<close>

fun well_formed :: "ClientMessage \<Rightarrow> bool" where
  "well_formed (Register u p) \<longleftrightarrow> u \<noteq> [] \<and> trim u = u \<and> 8 \<le> length p"
| "well_formed (Login u p) \<longleftrightarrow> u \<noteq> [] \<and> trim u = u \<and> p \<noteq> []"
| "well_formed (SetNickname n) \<longleftrightarrow> n \<noteq> [] \<and> trim n = n"
| "well_formed (SendMessage t text) \<longleftrightarrow> text \<noteq> [] \<and> trim text = text"
| "well_formed (CreateGroup name ids) \<longleftrightarrow> name \<noteq> [] \<and> trim name = name \<and> ids \<noteq> [] \<and> distinct ids"
| "well_formed (SetPresence x) \<longleftrightarrow> x \<noteq> Offline"
| "well_formed _ \<longleftrightarrow> True"

definition sends_well :: "Provider \<Rightarrow> bool" where
  "sends_well p \<longleftrightarrow> (\<forall>c. p_client p = Some c \<longrightarrow> (\<forall>m \<in> sends_of c. well_formed m))
     \<and> (\<forall>a. p_pendingAuth p = Some a \<longrightarrow> well_formed (auth_message a))"

interpretation sending: provider_invariant sends_well well_formed
proof unfold_locales
  show "sends_well (fst (through_client fresh (client_send m) p))" if "sends_well p" "well_formed m" for p fresh m
    using that sends_send [of m] by (auto simp: sends_well_def)
qed (auto simp: sends_well_def render_def new_provider_def)

subsection \<open>What the page calls\<close>

lemma login_calls:
  assumes "e \<in> login_events state f" and "snd (login_event e f) = Some a"
  shows "call_good well_formed a"
proof -
  have "e = SubmitLogin" "lf_mode f = ModeRegister \<longrightarrow> 8 \<le> length (lf_password f)"
    using assms by (auto simp: login_events_def split: if_splits)
  with assms(2) show ?thesis
    by (cases "lf_mode f") (auto simp: login_submit_def call_good_def auth_message_def trim_idem split: if_splits)
qed

lemma composer_calls: "snd (composer_step d e typed) = Some t \<Longrightarrow> t \<noteq> [] \<and> trim t = t"
  using composer_step_spec [of d e typed] by (simp add: composer_hands_on_def)

lemma sidebar_calls: "Do a \<in> sidebar_events env state mobile query \<Longrightarrow> call_good well_formed a"
  by (auto simp: sidebar_events_def call_good_def toggled_presence_def split: if_splits)

lemma chat_calls:
  assumes "forms_match state f" and "e \<in> chat_events env state f" and "snd (chat_event state e f) = Some a"
  shows "call_good well_formed a"
proof (cases e)
  case (Do b)
  with assms(2,3) show ?thesis
    using sidebar_calls
    by (auto simp: chat_events_def composer_events_def nickname_events_def group_events_def call_good_def split: if_splits option.splits)
next
  case (Compose x)
  then obtain t where a: "a = DoSendMessage t" "snd (composer_step (connectionStatus state \<noteq> Connected) x (cf_composer f)) = Some t"
    using assms(3) by (auto split: prod.splits)
  with composer_calls [OF a(2)] show ?thesis by (simp add: call_good_def)
next
  case SubmitGroup
  then obtain g where "cf_group f = Some g" "group_submit (gf_name g) (gf_selected g) = Some a"
    using assms(3) by (auto split: option.splits)
  with assms(1) show ?thesis
    by (auto simp: forms_match_def group_submit_def canCreate_def call_good_def trim_idem split: if_splits)
next
  case SubmitNickname
  with assms(3) show ?thesis by (auto simp: call_good_def nickname_submit_def trim_idem)
qed (use assms(3) in \<open>auto split: if_splits\<close>)

lemma run_public: "page_run num env acts pg \<Longrightarrow> both_public (pg_provider pg)"
proof (induction rule: page_run.induct)
  case (socket acts pg c d fresh)
  then show ?case using public.inv_absorb sends_event by simp
next
  case (user acts pg e fresh refused)
  then have "both_public (act fresh refused a (pg_provider pg))" for a
    by (intro public.inv_act) (auto simp: call_good_def split: UserAction.split)
  with user.IH show ?case
    by (auto simp: page_event_def Let_def intro!: public.inv_render split: prod.split option.split)
qed (auto simp: new_page_def intro: public.inv_new public.inv_render public.inv_ensure)

lemma public_active: "has_public s \<Longrightarrow> activeConversation s \<noteq> None"
  by (auto simp: has_public_def activeConversation_def split: option.split)

lemma run_offers:
  assumes "page_run num env acts pg"
  shows "offers (page_view env pg) = (case pg_mounted pg of AtLogin f \<Rightarrow> login_events (shown pg) f
    | AtChat f \<Rightarrow> chat_events env (shown pg) f)"
  using run_public [OF assms] run_match [OF assms] by (intro page_offers public_active) (auto simp: both_public_def)

lemma run_calls:
  assumes "page_run num env acts pg" and "e \<in> offers (page_view env pg)"
    and "snd (mounted_event (shown pg) e (pg_mounted pg)) = Some a"
  shows "call_good well_formed a"
proof (cases "pg_mounted pg")
  case (AtLogin f)
  with assms(2,3) show ?thesis
    by (intro login_calls [of e "shown pg" f]) (auto simp: run_offers [OF assms(1)])
next
  case (AtChat f)
  with run_match [OF assms(1)] have "forms_match (shown pg) f" by (simp add: page_match_def)
  with AtChat assms(2,3) show ?thesis
    by (intro chat_calls [of "shown pg" f e env]) (auto simp: run_offers [OF assms(1)])
qed

lemma run_sends: "page_run num env acts pg \<Longrightarrow> sends_well (pg_provider pg)"
proof (induction rule: page_run.induct)
  case (socket acts pg c d fresh)
  then show ?case using sending.inv_absorb sends_event by simp
next
  case (user acts pg e fresh refused)
  have "sends_well (act fresh refused a (pg_provider pg))" if "snd (mounted_event (shown pg) e (pg_mounted pg)) = Some a" for a
    using user.IH run_calls [OF user.hyps that] by (rule sending.inv_act)
  with user.IH show ?case
    by (auto simp: page_event_def Let_def intro!: sending.inv_render split: prod.split option.split)
qed (auto simp: new_page_def intro: sending.inv_new sending.inv_render sending.inv_ensure)

end
