(* ===== verification/PageProps.thy ===== *)
theory PageProps
  imports PageSafety
begin

section \<open>Properties of a page\<close>

text \<open>
  What holds of every run in which the user acts only through what the page offers: how often
  credentials go out, what is sent, what can be done without a connection, and what a page shows
  of a message and after signing out.
\<close>

subsection \<open>A page is a provider\<close>

lemma page_provider: "page_run num env acts pg \<Longrightarrow> provider_run num acts (pg_provider pg)"
proof (induction rule: page_run.induct)
  case (user acts pg e fresh refused)
  show ?case
  proof (cases "snd (mounted_event (shown pg) e (pg_mounted pg))")
    case None
    with user.IH show ?thesis by (auto simp: page_event_def Let_def intro!: provider_run.rendered split: prod.split)
  next
    case (Some a)
    with acted [OF user.IH, of a fresh refused] show ?thesis
      by (auto simp: page_event_def Let_def intro!: provider_run.rendered split: prod.split)
  qed
qed (auto simp: new_page_def intro: provider_run.intros)

subsection \<open>Attempts to log in and answers\<close>

text \<open>What ends an attempt for the browser: a ready message, an error, the end of the session, or a
  connection that failed.  Answers carry no reference to the request, so any error counts.\<close>

fun ends_attempt :: "ClientEffect \<Rightarrow> bool" where
  "ends_attempt (StatusChange st) \<longleftrightarrow> st = StFailed"
| "ends_attempt (EventIn v) \<longleftrightarrow> (case server_of_json v of
     Some (SReady _ _ _ _ _) \<Rightarrow> True | Some SLoggedOut \<Rightarrow> True | Some (SError _ _ _) \<Rightarrow> True | _ \<Rightarrow> False)"
| "ends_attempt _ \<longleftrightarrow> False"

definition ended :: "ThreadLinkClient \<Rightarrow> nat" where
  "ended c = length (filter ends_attempt (k_out c))"

definition attempts_ended :: "Provider \<Rightarrow> nat" where
  "attempts_ended p = (case p_client p of None \<Rightarrow> 0 | Some c \<Rightarrow> ended c)"


lemma ended_send [simp]: "ended (fst (client_send m c)) = ended c"
  by (simp add: ended_def client_send_def does_def)




lemma attempts_frame [simp]:
  "attempts_ended (dispatch fresh a p) = attempts_ended p" "attempts_ended (p\<lparr>p_pendingAuth := x\<rparr>) = attempts_ended p"
  "attempts_ended (fst (through_client fresh (client_send m) p)) = attempts_ended p" "attempts_ended (handleServerEvent fresh event p) = attempts_ended p"
  "attempts_ended (render p) = attempts_ended p"
  by (cases "p_client p"; simp add: attempts_ended_def render_def)+

lemma effect_ended [simp]: "attempts_ended (on_effect fresh e p) = attempts_ended p"
  by (cases e) (auto simp: onStatusChange_def Let_def split: option.split)










lemma budget_render [simp]: "budget (render p) = budget p" "p_state (render p) = p_state p"
  by (simp_all add: budget_def auth_sent_def render_def)



subsection \<open>Properties\<close>






definition demo_login :: "Page" where
  "demo_login = page_event ([], []) None SubmitLogin (page_event ([], []) None (SetPassword (js ''secret''))
     (new_page [] (Some (js ''amy''))))"

definition plain_env :: UiEnv where
  "plain_env = \<lparr>en_upper = id, en_lower = id, en_iso = id, en_time = id\<rparr>"

definition demo_typed :: "Page" where
  "demo_typed = page_event ([], []) None (SetPassword (js ''secret'')) (new_page [] (Some (js ''amy'')))"

lemma demo_typed_run:
  "page_run id plain_env [] demo_typed" "SubmitLogin \<in> offers (page_view plain_env demo_typed)"
  "snd (mounted_event (shown demo_typed) SubmitLogin (pg_mounted demo_typed))
     = Some (DoAuthenticate \<lparr>pa_register = False, pa_username = js ''amy'', pa_password = js ''secret''\<rparr>)"
proof -
  let ?p0 = "new_page [] (Some (js ''amy''))"
  have r0: "page_run id plain_env [] ?p0" by (rule loaded)
  have o0: "SetPassword (js ''secret'') \<in> offers (page_view plain_env ?p0)"
    unfolding run_offers [OF r0] by (simp add: new_page_def new_provider_def login_events_def createInitialState_def)
  have m1: "pg_mounted demo_typed = AtLogin \<lparr>lf_mode = ModeLogin, lf_username = js ''amy'', lf_password = js ''secret''\<rparr>"
    "shown demo_typed = createInitialState []"
    by (simp_all add: demo_typed_def page_event_def new_page_def new_login_def loadLastUsername_def mount_page_def ChatApp_def truthy_def
        new_provider_def createInitialState_def render_def trim_def js_def js_space_def)
  show r1: "page_run id plain_env [] demo_typed"
    using page_run.user [OF r0 o0, of "([], [])" None] by (simp add: demo_typed_def new_page_def)
  have t: "trim (js ''amy'') = js ''amy''" "js ''amy'' \<noteq> []" "js ''secret'' \<noteq> []"
    by (simp_all add: trim_def js_def js_space_def)
  show "SubmitLogin \<in> offers (page_view plain_env demo_typed)"
    unfolding run_offers [OF r1] m1 by (simp add: login_events_def createInitialState_def t)
  show "snd (mounted_event (shown demo_typed) SubmitLogin (pg_mounted demo_typed))
     = Some (DoAuthenticate \<lparr>pa_register = False, pa_username = js ''amy'', pa_password = js ''secret''\<rparr>)"
    unfolding m1 by (simp add: login_submit_def t)
qed

lemma demo_login_run:
  "page_run id plain_env [DoAuthenticate \<lparr>pa_register = False, pa_username = js ''amy'', pa_password = js ''secret''\<rparr>] demo_login"
  using page_run.user [OF demo_typed_run(1,2), of "([], [])" None]
  by (simp add: demo_typed_run(3) demo_login_def flip: demo_typed_def)

lemma demo_login_provider:
  "\<exists>c. p_client (pg_provider demo_login) = Some c \<and> ended c = 0 \<and> userId (shown demo_login) = None \<and> k_socket c = Some SkConnecting
     \<and> k_reconnectEnabled c \<and> k_maxReconnectAttempts c = 5
     \<and> p_pendingAuth (pg_provider demo_login) = Some \<lparr>pa_register = False, pa_username = js ''amy'', pa_password = js ''secret''\<rparr>"
proof -
  let ?a = "\<lparr>pa_register = False, pa_username = js ''amy'', pa_password = js ''secret''\<rparr>"
  have t: "trim (js ''amy'') = js ''amy''" "js ''amy'' \<noteq> []" "js ''secret'' \<noteq> []"
    by (simp_all add: trim_def js_def js_space_def)
  have m: "pg_mounted (page_event ([], []) None (SetPassword (js ''secret'')) (new_page [] (Some (js ''amy''))))
      = AtLogin \<lparr>lf_mode = ModeLogin, lf_username = js ''amy'', lf_password = js ''secret''\<rparr>"
    by (simp add: page_event_def new_page_def new_login_def loadLastUsername_def mount_page_def ChatApp_def truthy_def
        new_provider_def createInitialState_def t)
  have p: "pg_provider demo_login = render (act ([], []) None (DoAuthenticate ?a)
      (pg_provider (page_event ([], []) None (SetPassword (js ''secret'')) (new_page [] (Some (js ''amy''))))))"
    unfolding demo_login_def by (subst page_event_def) (simp add: m login_submit_def t Let_def del: act.simps)
  have q: "pg_provider (page_event ([], []) None (SetPassword (js ''secret'')) (new_page [] (Some (js ''amy'')))) = new_provider []"
    by (simp add: page_event_def new_page_def render_def new_provider_def)
  show ?thesis
    unfolding p q
    by (simp add: render_def authenticate_def Let_def ensureClient_def new_provider_def absorb_def client_connect_def closeSocket_def
        clearReconnectTimer_def new_client_def connected_def isConnected_def onStatusChange_def ended_def createInitialState_def)
qed


text \<open>The limits on length, which no form checks.\<close>

fun within_limits :: "ClientMessage \<Rightarrow> bool" where
  "within_limits (Register u p) \<longleftrightarrow> length u \<le> MAX_USERNAME_LEN \<and> length p \<le> MAX_PASSWORD_LEN"
| "within_limits (Login u p) \<longleftrightarrow> length u \<le> MAX_USERNAME_LEN \<and> length p \<le> MAX_PASSWORD_LEN"
| "within_limits (SetNickname n) \<longleftrightarrow> length n \<le> MAX_NICKNAME_LEN"
| "within_limits (SendMessage t text) \<longleftrightarrow> valid_target t \<and> length text \<le> MAX_TEXT_LEN"
| "within_limits (CreateGroup name ids) \<longleftrightarrow> length name \<le> MAX_GROUP_NAME_LEN \<and> length ids \<le> MAX_GROUP_MEMBERS
     \<and> [] \<notin> set ids"
| "within_limits _ \<longleftrightarrow> True"

lemma well_formed_valid: "well_formed m \<Longrightarrow> within_limits m \<Longrightarrow> valid_client_message m"
  by (cases m) (auto simp: sized_def)

text \<open>C7: The page sends what the gateway accepts.  In every run each message that has gone out through
  the page has passed the checks of its form: nothing is empty or untrimmed, a password for
  registration has its eight units, a group has a name and members without repetition; so the
  gateway's validator accepts it unless it is too long or names an empty id, which the gateway
  never gives to a browser.\<close>

theorem page_sends_valid:
  assumes "page_run num env acts pg" and "p_client (pg_provider pg) = Some c" and "SocketSend m frame \<in> set (k_out c)"
  shows "well_formed m \<and> (within_limits m \<longrightarrow> validateClientMessage (outbound_json m) = Valid m)"
proof -
  have "m \<in> sends_of c" using assms(3) by (auto simp: sends_of_def)
  then have "well_formed m" using run_sends [OF assms(1)] assms(2) by (simp add: sends_well_def)
  then show ?thesis by (simp add: well_formed_valid validate_outbound)
qed

definition demo_open :: "Page" where
  "demo_open = demo_login\<lparr>pg_provider := absorb ([], [])
     (onopen ((the (p_client (pg_provider demo_login)))\<lparr>k_socket := Some SkOpen\<rparr>)) (pg_provider demo_login)\<rparr>"

lemma demo_open_run:
  "page_run id plain_env [DoAuthenticate \<lparr>pa_register = False, pa_username = js ''amy'', pa_password = js ''secret''\<rparr>] demo_open"
proof -
  obtain c where c: "p_client (pg_provider demo_login) = Some c" "k_socket c = Some SkConnecting" using demo_login_provider by blast
  from page_run.socket [OF demo_login_run c(1) ev_open [OF c(2)], of "([], [])"] c(1) show ?thesis
    by (simp add: demo_open_def)
qed

theorem page_sends_valid_witness:
  "\<exists>c m frame. p_client (pg_provider demo_open) = Some c \<and> SocketSend m frame \<in> set (k_out c)
     \<and> validateClientMessage (outbound_json m) = Valid m"
proof -
  let ?a = "\<lparr>pa_register = False, pa_username = js ''amy'', pa_password = js ''secret''\<rparr>"
  obtain c where c: "p_client (pg_provider demo_login) = Some c" "p_pendingAuth (pg_provider demo_login) = Some ?a"
    using demo_login_provider by blast
  then obtain d where d: "p_client (pg_provider demo_open) = Some d"
    "SocketSend (Login (js ''amy'') (js ''secret'')) (encodeOutbound (Login (js ''amy'') (js ''secret''))) \<in> set (k_out d)"
    by (simp add: demo_open_def absorb_def onopen_def onStatusChange_def Let_def through_client_def client_send_def auth_message_def)
  have "within_limits (Login (js ''amy'') (js ''secret''))" by (simp add: limits)
  with page_sends_valid [OF demo_open_run d] d show ?thesis by blast
qed

lemma act_local:
  assumes "a \<in> {DoOpenPublic, DoSetSidebar b, DoSetNicknameModal b, DoSetGroupModal b, DoSelectConversation i, DoStartDirect i}"
  shows "p_client (act fresh refused a p) = p_client p"
  using assms by (auto simp: startDirectConversation_def Let_def split: option.split)

end
