(* ===== verification/PageSystem.thy ===== *)
theory PageSystem
  imports ChatSystem PageProps
begin

section \<open>From page to page\<close>

text \<open>
  The pages of two users and the gateway between them: what one user types and sends is on the
  other's page.  Also what a page shows without a connection and after signing out.
\<close>

subsection \<open>A page hears the gateway\<close>

definition page_hears :: "jsstr \<times> jsstr \<Rightarrow> (jsstr \<Rightarrow> jsstr) \<Rightarrow> ServerMessage \<Rightarrow> Page \<Rightarrow> Page" where
  "page_hears fresh num m pg =
     (case p_client (pg_provider pg) of
        None \<Rightarrow> pg
      | Some c \<Rightarrow> page_render (pg\<lparr>pg_provider := absorb fresh (onmessage num (Some (wire_text m)) c) (pg_provider pg)\<rparr>))"

lemma absorb_hears:
  "p_client p = Some c \<Longrightarrow> absorb fresh (onmessage num (Some (wire_text m)) c) p
     = handleServerEvent fresh m (p\<lparr>p_client := Some (does (EventIn (server_json m)) c)\<rparr>)"
  unfolding wire_text_def browser_text [OF server_read]
  by (simp add: absorb_def server_read del: server_json.simps)

lemma run_hears:
  assumes "page_run num env acts pg" and "p_client (pg_provider pg) = Some c" and "k_socket c = Some SkOpen"
  shows "page_run num env acts (page_hears fresh num m pg)"
  using page_run.rendered [OF page_run.socket [OF assms(1,2) ev_message [OF assms(3)]]] assms(2)
  by (simp add: page_hears_def)

lemma hears_provider:
  assumes "p_client (pg_provider pg) = Some c"
  shows "pg_provider (page_hears fresh num m pg)
    = render (handleServerEvent fresh m ((pg_provider pg)\<lparr>p_client := Some (does (EventIn (server_json m)) c)\<rparr>))"
  by (simp add: page_hears_def assms absorb_hears del: handleServerEvent.simps)

subsection \<open>What the page shows\<close>

lemma texts_dom: "El tag attrs ds = d \<Longrightarrow> x \<in> set ds \<Longrightarrow> t \<in> set (texts x) \<Longrightarrow> t \<in> set (texts d)"
  by auto

lemma texts_bubble: "msg_content m \<in> set (texts (MessageBubble env b m))"
  by (simp add: MessageBubble_def Let_def)

lemma texts_bubble_sender:
  assumes "msg_kind m = CChat" and "\<not> msg_isOwn m" and "msg_sender m = Some n"
  shows "n \<in> set (texts (MessageBubble env b m))"
  using assms by (simp add: MessageBubble_def Let_def markup)

lemma texts_list:
  assumes "m \<in> set (conv_messages c)" and "t \<in> set (texts (MessageBubble env (conv_type c = KDirect) m))"
  shows "t \<in> set (texts (MessageList env True c))"
  using assms by (auto simp: MessageList_def Let_def)

lemma texts_layout:
  "t \<in> set (texts (MessageList env (connectionStatus state = Connected) active)) \<Longrightarrow> t \<in> set (texts (ChatLayout_view env state active forms))"
  "t \<in> set (texts (Sidebar env state False (cf_query forms))) \<Longrightarrow> t \<in> set (texts (ChatLayout_view env state active forms))"
  by (simp_all add: ChatLayout_view_def Let_def)

lemma active_messages:
  assumes "map_of (conversations s) (activeConversationId s) = Some c"
  shows "\<exists>a. activeConversation s = Some a \<and> conv_messages a = conv_messages c \<and> conv_type a = conv_type c"
  using assms by (simp add: activeConversation_def)

text \<open>A message of the selected conversation is on the page, while there is a connection.\<close>

lemma page_shows_message:
  assumes "pg_mounted pg = AtChat f" and "connectionStatus (shown pg) = Connected"
    and "map_of (conversations (shown pg)) (activeConversationId (shown pg)) = Some c" and "m \<in> set (conv_messages c)"
    and "t \<in> set (texts (MessageBubble env (conv_type c = KDirect) m))"
  shows "t \<in> set (texts (page_view env pg))"
proof -
  obtain a where a: "activeConversation (shown pg) = Some a" "conv_messages a = conv_messages c" "conv_type a = conv_type c"
    using active_messages [OF assms(3)] by blast
  have "t \<in> set (texts (MessageList env (connectionStatus (shown pg) = Connected) a))"
    using texts_list [of m a t env] assms(2,4,5) a(2,3) by simp
  from texts_layout(1) [OF this] show ?thesis by (simp add: page_view_def RootLayout_def assms(1) a(1))
qed

lemma texts_row: "row_unread row > 0 \<Longrightarrow> unread_text (row_unread row) \<in> set (texts (SidebarRow_view icon row))"
  "row_label row \<in> set (texts (SidebarRow_view icon row))"
  by (simp_all add: SidebarRow_view_def markup)

lemma texts_rows:
  assumes "row \<in> set (sidebar_rows state)" and "\<And>icon. t \<in> set (texts (SidebarRow_view icon row))"
  shows "t \<in> set (texts (Sidebar env state mobile query))"
proof -
  consider c where "c \<in> set (directConversations state)" "row = direct_row state c"
    | c where "c \<in> set (groupConversations state)" "row = group_row state c"
    using assms(1) by (auto simp: sidebar_rows_def)
  then have "\<exists>d \<in> set (sidebar_conversations state). t \<in> set (texts d)"
  proof cases
    case (1 c)
    then have "length (directConversations state) > 0" by (cases "directConversations state") simp_all
    with 1 assms(2) show ?thesis by (auto simp: sidebar_conversations_def SidebarSection_def markup)
  next
    case (2 c)
    then have "length (groupConversations state) > 0" by (cases "groupConversations state") simp_all
    with 2 assms(2) show ?thesis by (auto simp: sidebar_conversations_def SidebarSection_def markup)
  qed
  then show ?thesis by (auto simp: Sidebar_def)
qed

text \<open>Unread messages of another conversation are counted in its row.\<close>

lemma page_shows_unread:
  assumes "pg_mounted pg = AtChat f" and "activeConversation (shown pg) = Some a" and "chat_inv (shown pg)" and "chat_wf (shown pg)"
    and "map_of (conversations (shown pg)) k = Some c" and "k \<noteq> PUBLIC_CONVERSATION_ID" and "conv_unreadCount c > 0"
  shows "unread_text (conv_unreadCount c) \<in> set (texts (page_view env pg))"
proof -
  have k: "conv_id c = k" using assms(3,5) by (simp add: chat_inv_def)
  then have "c \<in> set (map snd (conversations (shown pg)))" using assms(5) unfolding wf_values(1) [OF assms(3,4)] by simp
  moreover have "conv_type c \<noteq> KPublic" using assms(4-6) by (simp add: chat_wf_def)
  ultimately have "c \<in> set (directConversations (shown pg)) \<or> c \<in> set (groupConversations (shown pg))"
    by (cases "conv_type c") (simp_all add: directConversations_def groupConversations_def)
  then have "direct_row (shown pg) c \<in> set (sidebar_rows (shown pg)) \<or> group_row (shown pg) c \<in> set (sidebar_rows (shown pg))"
    by (auto simp: sidebar_rows_def)
  moreover have "row_unread (direct_row (shown pg) c) = conv_unreadCount c" "row_unread (group_row (shown pg) c) = conv_unreadCount c"
    by (simp_all add: direct_row_def group_row_def)
  ultimately obtain row where row: "row \<in> set (sidebar_rows (shown pg))" "row_unread row = conv_unreadCount c" by blast
  have "unread_text (conv_unreadCount c) \<in> set (texts (SidebarRow_view icon row))" for icon
    using texts_row(1) [of row icon] row(2) assms(7) by simp
  from texts_layout(2) [OF texts_rows [OF row(1) this]] show ?thesis by (simp add: page_view_def RootLayout_def assms(1,2))
qed

subsection \<open>A page without a connection\<close>

lemma stored_provider:
  "stored_username (pg\<lparr>pg_provider := q\<rparr>) = (case p_lastUsername q of None \<Rightarrow> pg_stored pg | Some n \<Rightarrow> Some n)"
  by (simp add: stored_username_def split: option.split)

lemma compose_offline:
  "connectionStatus state \<noteq> Connected \<Longrightarrow> Compose x \<notin> chat_events env state f"
  by (auto simp: chat_events_def sidebar_events_def composer_events_def nickname_events_def group_events_def
      split: if_splits option.splits)

lemma act_offline:
  assumes "Do a \<in> chat_events env state f" and "connectionStatus state \<noteq> Connected" and "a \<noteq> DoLogout"
  shows "p_client (act fresh refused a p) = p_client p"
proof -
  have "\<exists>b i. a \<in> {DoOpenPublic, DoSetSidebar b, DoSetNicknameModal b, DoSetGroupModal b, DoSelectConversation i, DoStartDirect i}"
    using assms by (auto simp: chat_events_def sidebar_events_def composer_events_def nickname_events_def group_events_def
        split: if_splits option.splits)
  then show ?thesis using act_local by blast
qed

text \<open>A render keeps the composer, or the page leaves the chat because there is no user id.\<close>

definition keeps_draft :: "Page \<Rightarrow> jsstr \<Rightarrow> bool" where
  "keeps_draft pg typed \<longleftrightarrow> (case pg_mounted pg of
       AtChat f \<Rightarrow> cf_composer f = typed
     | AtLogin l \<Rightarrow> \<not> truthy (userId (p_state (pg_provider pg))))"

lemma render_draft: "pg_mounted pg = AtChat f \<Longrightarrow> keeps_draft (page_render pg) (cf_composer f)"
  by (simp add: keeps_draft_def page_render_def Let_def mount_page_def mount_forms_def ChatApp_def)

lemma step_draft:
  assumes "page_run num env acts pg" and "pg_mounted pg = AtChat f" and "connectionStatus (shown pg) \<noteq> Connected"
    and "page_step num env pg as pg'"
  shows "keeps_draft pg' (cf_composer f)"
  using assms(4)
proof cases
  case (step_user e fresh refused)
  have "e \<in> chat_events env (shown pg) f" using step_user(3) assms(2) by (simp add: run_offers [OF assms(1)])
  then have "e \<noteq> Compose x" for x using compose_offline [OF assms(3)] by auto
  then have "cf_composer (fst (chat_event (shown pg) e f)) = cf_composer f" by (cases e) auto
  moreover have "\<exists>q. page_event fresh refused e pg = page_render (q\<lparr>pg_mounted := AtChat (fst (chat_event (shown pg) e f))\<rparr>)"
    by (cases "chat_event (shown pg) e f") (auto simp: page_event_def assms(2) Let_def)
  ultimately show ?thesis
    using render_draft [where f = "fst (chat_event (shown pg) e f)"] by (auto simp: step_user(2))
qed (use render_draft [OF assms(2)] in \<open>simp_all add: keeps_draft_def assms(2)\<close>)

lemma failed_attempt_page:
  assumes "page_run num env acts pg" and "pg_mounted pg = AtChat f"
    and "p_client (pg_provider pg) = Some c" and "k_socket c = Some SkConnecting"
  shows "pg_mounted (page_render (pg\<lparr>pg_provider := absorb fresh (onerror (c\<lparr>k_socket := Some SkClosed\<rparr>)) (pg_provider pg)\<rparr>))
    = AtLogin (new_login (stored_username pg))"
proof -
  let ?q = "absorb fresh (onerror (c\<lparr>k_socket := Some SkClosed\<rparr>)) (pg_provider pg)"
  have "client_inv c" using run_ok [OF page_provider [OF assms(1)]] assms(3) by (simp add: client_ok_def)
  then have "k_status c = StConnecting" using assms(4) by (simp add: client_inv_def)
  then have o: "k_out (onerror (c\<lparr>k_socket := Some SkClosed\<rparr>)) = k_out c @ [StatusChange StFailed, ErrorOut (js ''WebSocket connection error'')]"
    by (simp add: onerror_def)
  have u: "truthy (userId (shown pg))" using run_match [OF assms(1)] assms(2) by (simp add: page_match_def ChatApp_def split: if_splits)
  have "userId (p_state ?q) = None" "p_lastUsername ?q = p_lastUsername (pg_provider pg)"
    using u by (simp_all add: absorb_def assms(3) o onStatusChange_def Let_def reduce_LOGGED_OUT_def dispatch_def split: option.split)
  then show ?thesis
    by (simp add: page_render_def Let_def mount_page_def ChatApp_def truthy_def assms(2) stored_provider)
      (simp add: stored_username_def)
qed

text \<open>C28: A draft outlives a lost connection, but not a failed attempt to restore it.  On a chat page that
  shows no connection the user can neither type into the composer nor send from it, and what else
  the page offers, apart from signing out and submitting an open dialog, does not touch the
  client.  Whatever comes next, an action of the user, an event of the socket, the timer or a
  render, what was typed stays as it is while the page is the chat, and the page leaves the chat
  only when the user id is gone from the state.  The failure of a single attempt to reconnect is
  enough for that, whatever attempts remain: the page is then the login page and the draft is lost.\<close>

theorem offline_page_keeps_draft:
  assumes "page_run num env acts pg" and "pg_mounted pg = AtChat f" and "connectionStatus (shown pg) \<noteq> Connected"
    and "page_step num env pg as pg'"
  shows "(\<forall>x. Compose x \<notin> offers (page_view env pg))
    \<and> (\<forall>e \<in> offers (page_view env pg). e \<notin> {Do DoLogout, SubmitNickname, SubmitGroup} \<longrightarrow>
        p_client (pg_provider (page_event fresh refused e pg)) = p_client (pg_provider pg))
    \<and> (case pg_mounted pg' of
         AtChat f' \<Rightarrow> cf_composer f' = cf_composer f
       | AtLogin l \<Rightarrow> \<not> truthy (userId (p_state (pg_provider pg'))))
    \<and> (\<forall>c. p_client (pg_provider pg) = Some c \<and> k_socket c = Some SkConnecting \<longrightarrow>
        pg_mounted (page_render (pg\<lparr>pg_provider := absorb fresh (onerror (c\<lparr>k_socket := Some SkClosed\<rparr>)) (pg_provider pg)\<rparr>))
          = AtLogin (new_login (stored_username pg)))"
proof -
  have ev: "offers (page_view env pg) = chat_events env (shown pg) f" by (simp add: run_offers [OF assms(1)] assms(2))
  have n: "Compose x \<notin> offers (page_view env pg)" for x unfolding ev by (rule compose_offline [OF assms(3)])
  have c: "p_client (pg_provider (page_event fresh refused e pg)) = p_client (pg_provider pg)"
    if e: "e \<in> offers (page_view env pg)" "e \<notin> {Do DoLogout, SubmitNickname, SubmitGroup}" for e
  proof (cases "snd (chat_event (shown pg) e f)")
    case None
    then show ?thesis by (cases "chat_event (shown pg) e f") (simp add: assms(2) page_event_def Let_def)
  next
    case (Some a)
    then have a: "e = Do a" using n e by (cases e) (auto split: if_splits)
    have "p_client (act fresh refused a (pg_provider pg)) = p_client (pg_provider pg)"
      using act_offline [OF _ assms(3), of a env f fresh refused "pg_provider pg"] e by (auto simp: a ev)
    then show ?thesis by (simp add: assms(2) a page_event_def Let_def del: act.simps)
  qed
  show ?thesis
    using n c step_draft [OF assms] failed_attempt_page [OF assms(1,2), of _ fresh] by (auto simp: keeps_draft_def)
qed

definition demo_ready :: "Page" where
  "demo_ready = page_hears ([], []) id (SReady (js ''a'') (js ''amy'') [] [] []) demo_open"

definition demo_lost :: "Page" where
  "demo_lost = page_render (demo_ready\<lparr>pg_provider := absorb ([], [])
     (onclose (the (p_client (pg_provider demo_ready)))) (pg_provider demo_ready)\<rparr>)"

definition retrying :: "ThreadLinkClient \<Rightarrow> bool" where
  "retrying c \<longleftrightarrow> k_reconnectEnabled c \<and> k_reconnectAttempts c < k_maxReconnectAttempts c"

lemma retrying_frame [simp]: "retrying (does e c) = retrying c" "retrying (fst (client_send m c)) = retrying c"
  by (simp_all add: retrying_def does_def client_send_def)

lemma demo_open_client:
  "\<exists>c. p_client (pg_provider demo_open) = Some c \<and> k_socket c = Some SkOpen \<and> retrying c"
proof -
  obtain c where c: "p_client (pg_provider demo_login) = Some c" "k_reconnectEnabled c" "k_maxReconnectAttempts c = 5"
    using demo_login_provider by blast
  let ?c = "onopen (c\<lparr>k_socket := Some SkOpen\<rparr>)"
  have r: "retrying ?c" "k_socket ?c = Some SkOpen"
    using c(2,3) by (simp_all add: onopen_def setStatus_def retrying_def does_def)
  have "k_out ?c = k_out c @ [StatusChange Connected]" by (simp add: onopen_def setStatus_def does_def)
  then have "p_client (pg_provider demo_open) = p_client (onStatusChange ([], []) Connected ((pg_provider demo_login)\<lparr>p_client := Some ?c\<rparr>))"
    by (simp add: demo_open_def absorb_def c(1))
  then have "p_client (pg_provider demo_open) = Some ?c \<or> (\<exists>m. p_client (pg_provider demo_open) = Some (fst (client_send m ?c)))"
    by (auto simp: onStatusChange_def Let_def split: option.splits)
  with r show ?thesis by auto
qed

lemma demo_ready_facts:
  "\<exists>c f. page_run id plain_env [DoAuthenticate \<lparr>pa_register = False, pa_username = js ''amy'', pa_password = js ''secret''\<rparr>] demo_ready
     \<and> p_client (pg_provider demo_ready) = Some c \<and> k_socket c = Some SkOpen \<and> retrying c \<and> pg_mounted demo_ready = AtChat f
     \<and> userId (p_state (pg_provider demo_ready)) = Some (js ''a'') \<and> p_pendingAuth (pg_provider demo_ready) = None"
proof -
  obtain c where c: "p_client (pg_provider demo_open) = Some c" "k_socket c = Some SkOpen" "retrying c" using demo_open_client by blast
  note p = hears_provider [OF c(1), of "([], [])" id "SReady (js ''a'') (js ''amy'') [] [] []"]
  have u: "userId (p_state (pg_provider demo_ready)) = Some (js ''a'')" "p_stateRef (pg_provider demo_ready) = p_state (pg_provider demo_ready)"
    "p_client (pg_provider demo_ready) = Some (does (EventIn (server_json (SReady (js ''a'') (js ''amy'') [] [] []))) c)"
    by (simp_all add: demo_ready_def p reduce_READY_def del: server_json.simps)
  have r: "page_run id plain_env [DoAuthenticate \<lparr>pa_register = False, pa_username = js ''amy'', pa_password = js ''secret''\<rparr>] demo_ready"
    unfolding demo_ready_def by (rule run_hears [OF demo_open_run c(1,2)])
  have "ChatApp (shown demo_ready) = ChatLayout" using u by (simp add: ChatApp_def truthy_def)
  then obtain f where "pg_mounted demo_ready = AtChat f" using run_match [OF r] by (auto simp: page_match_def split: Mounted.splits)
  moreover have "k_socket (does (EventIn (server_json (SReady (js ''a'') (js ''amy'') [] [] []))) c) = Some SkOpen"
    using c(2) by (simp add: does_def)
  moreover have "p_pendingAuth (pg_provider demo_ready) = None"
  proof -
    have "k_out (onopen (x\<lparr>k_socket := Some SkOpen\<rparr>)) = k_out x @ [StatusChange Connected]" for x
      by (simp add: onopen_def setStatus_def does_def)
    then have "p_pendingAuth (pg_provider demo_open) = None"
      using demo_login_provider by (auto simp: demo_open_def absorb_def effect_fields(3) simp del: on_effect.simps)
    then show ?thesis by (simp add: demo_ready_def p render_def)
  qed
  ultimately show ?thesis using r u c(3) retrying_frame(1) by blast
qed

lemma demo_lost_facts:
  "\<exists>f. page_run id plain_env [DoAuthenticate \<lparr>pa_register = False, pa_username = js ''amy'', pa_password = js ''secret''\<rparr>] demo_lost
     \<and> pg_mounted demo_lost = AtChat f \<and> connectionStatus (shown demo_lost) \<noteq> Connected"
proof -
  obtain c f where c: "page_run id plain_env [DoAuthenticate \<lparr>pa_register = False, pa_username = js ''amy'', pa_password = js ''secret''\<rparr>] demo_ready"
    "p_client (pg_provider demo_ready) = Some c" "k_socket c = Some SkOpen" "retrying c"
    "userId (p_state (pg_provider demo_ready)) = Some (js ''a'')" "p_pendingAuth (pg_provider demo_ready) = None"
    using demo_ready_facts by blast
  have r: "page_run id plain_env [DoAuthenticate \<lparr>pa_register = False, pa_username = js ''amy'', pa_password = js ''secret''\<rparr>] demo_lost"
    unfolding demo_lost_def c(2) option.sel using c(3) by (intro page_run.rendered page_run.socket [OF c(1,2)] ev_close) simp
  have "\<exists>st es. k_out (onclose c) = k_out c @ StatusChange st # es \<and> st \<in> {Disconnected, Reconnecting}
      \<and> (es = [] \<or> (\<exists>n. es = [SetTimeout n]))"
    using c(4) by (simp add: onclose_def Let_def retrying_def scheduleReconnect_def setStatus_def does_def)
  then obtain st es where st: "k_out (onclose c) = k_out c @ StatusChange st # es" "st \<in> {Disconnected, Reconnecting}"
    "es = [] \<or> (\<exists>n. es = [SetTimeout n])" by blast
  have "p_state (absorb ([], []) (onclose c) (pg_provider demo_ready)) = (p_state (pg_provider demo_ready))\<lparr>connectionStatus := st\<rparr>"
    using st(2,3) by (auto simp: absorb_def c(2,6) st(1) onStatusChange_def Let_def)
  then have s: "connectionStatus (shown demo_lost) \<noteq> Connected" "userId (shown demo_lost) = Some (js ''a'')"
    using st(2) c(5) by (auto simp: demo_lost_def c(2))
  then have "ChatApp (shown demo_lost) = ChatLayout" by (simp add: ChatApp_def truthy_def)
  then obtain f where "pg_mounted demo_lost = AtChat f" using run_match [OF r] by (auto simp: page_match_def split: Mounted.splits)
  with r s show ?thesis by blast
qed

theorem offline_page_keeps_draft_witness:
  "\<exists>f f'. pg_mounted demo_lost = AtChat f \<and> pg_mounted (page_render demo_lost) = AtChat f' \<and> cf_composer f' = cf_composer f
     \<and> Compose ClickSend \<notin> offers (page_view plain_env demo_lost)"
proof -
  obtain f where f: "page_run id plain_env [DoAuthenticate \<lparr>pa_register = False, pa_username = js ''amy'', pa_password = js ''secret''\<rparr>] demo_lost"
    "pg_mounted demo_lost = AtChat f" "connectionStatus (shown demo_lost) \<noteq> Connected"
    using demo_lost_facts by blast
  have "ChatApp (shown demo_lost) = ChatLayout" using run_match [OF f(1)] f(2) by (simp add: page_match_def)
  moreover have "p_state (pg_provider demo_lost) = shown demo_lost" by (simp add: demo_lost_def page_render_def Let_def)
  ultimately have "\<exists>f'. pg_mounted (page_render demo_lost) = AtChat f'"
    by (simp add: page_render_def Let_def mount_page_def f(2))
  then show ?thesis using offline_page_keeps_draft [OF f step_rendered, of "([], [])" None] f(2) by fastforce
qed

subsection \<open>Signing out\<close>

lemma login_view_fields:
  "authenticating s = authenticating t \<Longrightarrow> authError s = authError t \<Longrightarrow> LoginScreen_view s form = LoginScreen_view t form"
  by (simp add: LoginScreen_view_def login_button_def)

definition with_error :: "jsstr option \<Rightarrow> Page \<Rightarrow> Page" where
  "with_error err pg = (let p = pg_provider pg in pg\<lparr>pg_provider :=
     p\<lparr>p_state := (p_state p)\<lparr>authError := err\<rparr>, p_stateRef := (p_stateRef p)\<lparr>authError := err\<rparr>\<rparr>\<rparr>)"

lemma with_error_None: "with_error None (new_page url name) = new_page url name"
  by (simp add: with_error_def Let_def new_page_def new_provider_def createInitialState_def)

lemma signed_out_state:
  assumes "p_client (pg_provider pg) = Some c" and "pg' = page_hears fresh num SLoggedOut pg"
  shows "p_state (pg_provider pg') = reduce_LOGGED_OUT (p_state (pg_provider pg))" "shown pg' = p_state (pg_provider pg')"
  by (simp_all add: assms(2) hears_provider [OF assms(1)])

lemma signed_out_view:
  assumes "pg_mounted pg = AtChat f" and "p_client (pg_provider pg) = Some c" and "pg' = page_hears fresh num SLoggedOut pg"
  shows "page_view env pg' = page_view env (with_error (authError (p_state (pg_provider pg))) (new_page url (stored_username pg)))"
proof -
  note s = signed_out_state [OF assms(2,3)]
  have n: "p_lastUsername (handleServerEvent fresh SLoggedOut q) = p_lastUsername q" for q
    by (simp add: dispatch_def)
  have "ChatApp (reduce_LOGGED_OUT t) = LoginScreen" for t by (simp add: ChatApp_def truthy_def reduce_LOGGED_OUT_def)
  then have m: "pg_mounted pg' = AtLogin (new_login (stored_username pg))"
    by (simp add: assms page_hears_def absorb_hears mount_page_def stored_provider n del: handleServerEvent.simps)
      (simp add: dispatch_def stored_username_def)
  have "LoginScreen_view (shown pg') form = LoginScreen_view ((createInitialState url)\<lparr>authError := authError (p_state (pg_provider pg))\<rparr>) form" for form
    by (rule login_view_fields) (simp_all add: s reduce_LOGGED_OUT_def createInitialState_def)
  then show ?thesis
    unfolding page_view_def m by (simp add: new_page_def new_provider_def with_error_def Let_def)
qed

text \<open>C29: Signing out leaves nothing of the session behind.  When the gateway confirms that the user has
  signed out, the page is the page of a browser that has just been opened with the stored user name,
  in its texts, its fields and its controls: no message, name or conversation of the session is on
  it, and nothing that was typed.  The one exception is the error text of the login page, which
  signing out does not clear: if there is one in the state, it is shown.\<close>

theorem signed_out_page_is_new:
  assumes "page_run num env acts pg" and "pg_mounted pg = AtChat f" and "p_client (pg_provider pg) = Some c"
    and "pg' = page_hears fresh num SLoggedOut pg"
  shows "page_view env pg' = page_view env (with_error (authError (p_state (pg_provider pg))) (new_page url (stored_username pg)))
    \<and> (authError (p_state (pg_provider pg)) = None \<longrightarrow> page_view env pg' = page_view env (new_page url (stored_username pg)))
    \<and> userId (p_state (pg_provider pg')) = None \<and> users (p_state (pg_provider pg')) = []
    \<and> conversations (p_state (pg_provider pg')) = [(PUBLIC_CONVERSATION_ID, createPublicConversation [])]"
  using signed_out_view [OF assms(2-4), of env url] signed_out_state [OF assms(3,4)] with_error_None
  by (simp add: reduce_LOGGED_OUT_def)

theorem signed_out_page_is_new_witness:
  "\<exists>f. pg_mounted demo_ready = AtChat f
     \<and> page_view plain_env (page_hears ([], []) id SLoggedOut demo_ready) = page_view plain_env (new_page [] (stored_username demo_ready))"
proof -
  obtain c f where c: "page_run id plain_env [DoAuthenticate \<lparr>pa_register = False, pa_username = js ''amy'', pa_password = js ''secret''\<rparr>] demo_ready"
    "p_client (pg_provider demo_ready) = Some c" "pg_mounted demo_ready = AtChat f"
    using demo_ready_facts by blast
  obtain d where "p_client (pg_provider demo_open) = Some d" using demo_open_client by blast
  then have e: "authError (p_state (pg_provider demo_ready)) = None"
    by (simp add: demo_ready_def hears_provider reduce_READY_def)
  from signed_out_page_is_new [OF c(1,3,2) refl, of "([], [])"] c(3) e show ?thesis by blast
qed

text \<open>How such an error text gets there: an error that arrives after the ready message but before React
  has rendered is taken for an error of the login, since the rendered state has no user yet.  The
  user then chats and signs out, and the login page shows the text as an alert.\<close>

definition hears_unrendered :: "ServerMessage \<Rightarrow> Page \<Rightarrow> Page" where
  "hears_unrendered m pg = (case p_client (pg_provider pg) of
       None \<Rightarrow> pg
     | Some c \<Rightarrow> pg\<lparr>pg_provider := absorb ([], []) (onmessage id (Some (wire_text m)) c) (pg_provider pg)\<rparr>)"

definition demo_late_error :: "Page" where
  "demo_late_error = page_render (hears_unrendered (error_msg ''NOT_A_MEMBER'' (js ''late''))
     (hears_unrendered (SReady (js ''a'') (js ''amy'') [] [] []) demo_open))"

lemma unrendered_facts:
  assumes "page_run id env acts pg" and "p_client (pg_provider pg) = Some c" and "k_socket c = Some SkOpen"
  shows "page_run id env acts (hears_unrendered m pg)"
    and "p_client (pg_provider (hears_unrendered m pg)) = Some (does (EventIn (server_json m)) c)"
    and "shown (hears_unrendered m pg) = shown pg"
    and "p_state (pg_provider (hears_unrendered m pg))
      = p_state (handleServerEvent ([], []) m ((pg_provider pg)\<lparr>p_client := Some (does (EventIn (server_json m)) c)\<rparr>))"
proof -
  show "page_run id env acts (hears_unrendered m pg)"
    using page_run.socket [OF assms(1,2) ev_message [OF assms(3)]] assms(2) by (simp add: hears_unrendered_def)
  let ?p = "(pg_provider pg)\<lparr>p_client := Some (does (EventIn (server_json m)) c)\<rparr>"
  have h: "pg_provider (hears_unrendered m pg) = handleServerEvent ([], []) m ?p"
    by (simp add: hears_unrendered_def assms(2) absorb_hears del: server_json.simps handleServerEvent.simps)
  then show "p_state (pg_provider (hears_unrendered m pg)) = p_state (handleServerEvent ([], []) m ?p)" by simp
  show "p_client (pg_provider (hears_unrendered m pg)) = Some (does (EventIn (server_json m)) c)" "shown (hears_unrendered m pg) = shown pg"
    unfolding h by (cases m; simp)+
qed

theorem late_error_survives_logout:
  "\<exists>acts f. page_run id plain_env acts demo_late_error \<and> pg_mounted demo_late_error = AtChat f
     \<and> js ''late'' \<in> set (texts (page_view plain_env (page_hears ([], []) id SLoggedOut demo_late_error)))"
proof -
  obtain c where c: "p_client (pg_provider demo_open) = Some c" "k_socket c = Some SkOpen" using demo_open_client by blast
  let ?m1 = "SReady (js ''a'') (js ''amy'') [] [] []" and ?m2 = "error_msg ''NOT_A_MEMBER'' (js ''late'')"
  let ?h = "hears_unrendered ?m1 demo_open"
  have u: "userId (shown demo_open) = None"
    using demo_login_provider by (auto simp: demo_open_def)
  note f1 = unrendered_facts [OF demo_open_run c, of ?m1]
  have "k_socket (does (EventIn (server_json ?m1)) c) = Some SkOpen" using c(2) by (simp add: does_def)
  note f2 = unrendered_facts [OF f1(1,2) this, of ?m2]
  let ?pg = "hears_unrendered ?m2 ?h"
  have st: "userId (p_state (pg_provider ?pg)) = Some (js ''a'')" "authError (p_state (pg_provider ?pg)) = Some (js ''late'')"
    unfolding f2(4) using f1(3,4) u by (simp_all add: error_msg_def reduce_READY_def)
  then have "\<exists>f. pg_mounted demo_late_error = AtChat f"
    by (simp add: demo_late_error_def page_render_def Let_def mount_page_def ChatApp_def truthy_def)
  then obtain f where f: "pg_mounted demo_late_error = AtChat f" by blast
  have d: "p_client (pg_provider demo_late_error) = p_client (pg_provider ?pg)" "authError (p_state (pg_provider demo_late_error)) = Some (js ''late'')"
    using st(2) by (simp_all add: demo_late_error_def)
  have r: "page_run id plain_env [DoAuthenticate \<lparr>pa_register = False, pa_username = js ''amy'', pa_password = js ''secret''\<rparr>] demo_late_error"
    unfolding demo_late_error_def by (rule page_run.rendered [OF f2(1)])
  have "js ''late'' \<in> set (texts (page_view plain_env (with_error (Some (js ''late'')) (new_page [] x))))" for x
    by (simp add: page_view_def with_error_def Let_def new_page_def RootLayout_def LoginScreen_view_def truthy_def new_provider_def markup)
  with signed_out_view [OF f d(1) [unfolded f2(2)] refl, of plain_env "([], [])" id "[]"] r f d(2) show ?thesis by auto
qed

subsection \<open>A message from page to page\<close>

lemma composer_sends:
  assumes "page_run num env acts pg" and "pg_mounted pg = AtChat f" and "connectionStatus (shown pg) = Connected"
    and "trim (cf_composer f) \<noteq> []"
  shows "Compose ClickSend \<in> offers (page_view env pg)"
    and "pg_provider (page_event fresh refused (Compose ClickSend) pg) =
      render (act fresh refused (DoSendMessage (trim (cf_composer f))) (pg_provider pg))"
    and "pg_mounted (page_event fresh refused (Compose ClickSend) pg) = AtChat f' \<Longrightarrow> cf_composer f' = []"
  using assms(2-4)
  by (auto simp: run_offers [OF assms(1)] chat_events_def composer_events_def page_event_def Let_def composer_submit_def
      mount_page_def mount_forms_def split: Screen.splits)

text \<open>What the page of a user shows when a message of another conversation member arrives.\<close>

lemma page_shows_received:
  assumes "view_ok (pg_provider pg)" and "p_client (pg_provider pg) = Some c" and "pg' = page_hears fresh num (SMessage m) pg"
    and "map_of (conversations (p_state (pg_provider pg))) (ms_conversationId m) = Some conv"
    and "ms_conversationId m \<noteq> PUBLIC_CONVERSATION_ID" and "connectionStatus (p_state (pg_provider pg)) = Connected"
    and "userId (p_state (pg_provider pg)) = Some me" and "me \<noteq> []"
  shows "if activeConversationId (p_state (pg_provider pg)) = ms_conversationId m
     then ms_text m \<in> set (texts (page_view env pg'))
       \<and> (ms_kind m = Chat \<and> ms_senderId m \<noteq> Some me \<longrightarrow> set_option (ms_senderUsername m) \<subseteq> set (texts (page_view env pg')))
     else unread_text (Suc (conv_unreadCount conv)) \<in> set (texts (page_view env pg'))"
proof -
  let ?s = "p_state (pg_provider pg)" and ?k = "ms_conversationId m"
  have i: "chat_inv ?s" "chat_wf ?s" using assms(1) by (simp_all add: view_ok_def)
  have s: "shown pg' = reduce_MESSAGE_RECEIVED m ?s"
    by (simp add: assms(3) hears_provider [OF assms(2)])
  have j: "chat_inv (shown pg')" "chat_wf (shown pg')"
    using chat_inv_step [OF i(1), of "MESSAGE_RECEIVED m"] chat_wf_step [OF i, of "MESSAGE_RECEIVED m"] by (simp_all add: s)
  have f: "connectionStatus (shown pg') = Connected" "userId (shown pg') = userId ?s" "activeConversationId (shown pg') = activeConversationId ?s"
    using assms(6) by (simp_all add: s reduce_MESSAGE_RECEIVED_def Let_def)
  obtain conv' where c': "map_of (conversations (shown pg')) ?k = Some conv'"
    "conv_messages conv' = conv_messages conv @ [messageFromSummary m me]"
    "conv_unreadCount conv' = (if activeConversationId ?s = ?k then 0 else conv_unreadCount conv + 1)"
    using receive_one [OF i(1) assms(4), of m] by (auto simp: s assms(7))
  have "ChatApp (p_state (pg_provider pg')) = ChatLayout"
    using assms(7,8) f(2) by (simp add: ChatApp_def truthy_def assms(3) hears_provider [OF assms(2)])
  then obtain forms where m: "pg_mounted pg' = AtChat forms"
    by (simp add: assms(2,3) page_hears_def mount_page_def)
  show ?thesis
  proof (cases "activeConversationId ?s = ?k")
    case True
    have x: "messageFromSummary m me \<in> set (conv_messages conv')" by (simp add: c'(2))
    have c: "map_of (conversations (shown pg')) (activeConversationId (shown pg')) = Some conv'"
      using c'(1) True by (simp add: f(3))
    note on_page = page_shows_message [OF m f(1) c x]
    have "ms_text m \<in> set (texts (page_view env pg'))"
      using on_page texts_bubble [of "messageFromSummary m me"] by (simp add: messageFromSummary_def)
    moreover have "n \<in> set (texts (page_view env pg'))" if "ms_kind m = Chat" "ms_senderId m \<noteq> Some me" "ms_senderUsername m = Some n" for n
      by (rule on_page, rule texts_bubble_sender) (use that in \<open>simp_all add: messageFromSummary_def\<close>)
    ultimately show ?thesis using True by auto
  next
    case False
    have "activeConversation (shown pg') \<noteq> None"
      using j(1) by (intro public_active) (auto simp: chat_inv_def has_public_def)
    then obtain a where "activeConversation (shown pg') = Some a" by blast
    with page_shows_unread [OF m _ j c'(1) assms(5)] c'(3) False show ?thesis by auto
  qed
qed

text \<open>C6: What one user types, the other reads.  A member of a group has typed a text of ordinary length into
  the composer: the page offers to send it; the click writes one frame and empties the composer; the
  frame makes the gateway store the trimmed text once and send it to every member online; and when it
  arrives in the browser of such a member, the text is on that member's page, under the sender's
  nickname if it is somebody else's, or, if another conversation is selected, counted in the row
  of the group.\<close>

theorem typed_message_is_shown:
  assumes "page_run num uenv acts ps" and "pg_mounted ps = AtChat f" and "connectionStatus (shown ps) = Connected"
    and "shows_group g (pg_provider ps)" and "p_client (pg_provider ps) = Some cs" and "body = trim (cf_composer f)" and "body \<noteq> []"
    and "frame = encodeOutbound (SendMessage (TGroup g) body)" and "ps' = page_event fresh refused (Compose ClickSend) ps"
    and "s_authenticated (w_sess w r)" and "s_welcomed (w_sess w r)" and "fresh_id env w"
    and "getGroup (w_db w) g = Some grp" and "s_id (w_sess w r) \<in> set (g_memberIds grp)"
    and "e_json_parse env = json_parse num" and "e_maxClientMessageBytes env = 16384"
    and "length body \<le> 2600" and "g \<noteq> []" and "length g \<le> 64" and "g \<noteq> PUBLIC_CONVERSATION_ID"
    and "w' = onClientRaw env r (utf8_encode frame) w"
    and "i \<in> set (g_memberIds grp)" and "roster_get (w_roster w) i = Some q" and "is_open w q"
    and "p_client (pg_provider pr) = Some c" and "view_ok (pg_provider pr)"
    and "map_of (conversations (p_state (pg_provider pr))) g = Some conv" and "connectionStatus (p_state (pg_provider pr)) = Connected"
    and "userId (p_state (pg_provider pr)) = Some me" and "me \<noteq> []"
  shows "Compose ClickSend \<in> offers (page_view uenv ps)
    \<and> p_client (pg_provider ps') = Some (does (SocketSend (SendMessage (TGroup g) body) frame) cs)
    \<and> (\<forall>f'. pg_mounted ps' = AtChat f' \<longrightarrow> cf_composer f' = [])
    \<and> (\<exists>m pr'. t_messages (w_db w') = t_messages (w_db w) @ [m] \<and> m_text m = body
        \<and> Sent q (SMessage (toSummary m)) \<in> set (drop (length (w_out w)) (w_out w'))
        \<and> pr' = page_hears fresh' num (SMessage (toSummary m)) pr
        \<and> (if activeConversationId (p_state (pg_provider pr)) = g
           then body \<in> set (texts (page_view uenv pr'))
             \<and> (me \<noteq> s_id (w_sess w r) \<longrightarrow> s_nickname (w_sess w r) \<in> set (texts (page_view uenv pr')))
           else unread_text (Suc (conv_unreadCount conv)) \<in> set (texts (page_view uenv pr'))))"
proof -
  have t: "trim (cf_composer f) \<noteq> []" using assms(6,7) by simp
  note send = composer_sends [OF assms(1-3) t]
  have body: "body = trim body" by (simp add: assms(6) trim_idem)
  have "p_client (act fresh refused (DoSendMessage body) (pg_provider ps)) = Some (does (SocketSend (SendMessage (TGroup g) body) frame) cs)"
    using shows_group_sends [OF assms(4,5), of body fresh refused] assms(7) body by (simp add: assms(8))
  then have sent: "p_client (pg_provider ps') = Some (does (SocketSend (SendMessage (TGroup g) body) frame) cs)"
    by (simp add: assms(9) send(2) assms(6) del: act.simps)
  let ?m = "stored env w g (w_sess w r) body"
  note stored = group_frame [OF assms(7,8,10-19,21-24) refl]
  have m: "ms_conversationId (toSummary ?m) = g" "ms_kind (toSummary ?m) = Chat" "ms_senderId (toSummary ?m) = Some (s_id (w_sess w r))"
    "ms_senderUsername (toSummary ?m) = Some (s_nickname (w_sess w r))" "ms_text (toSummary ?m) = body" "m_text ?m = body"
    by (simp_all add: toSummary_def stored_def)
  let ?pr = "page_hears fresh' num (SMessage (toSummary ?m)) pr"
  have conv: "map_of (conversations (p_state (pg_provider pr))) (ms_conversationId (toSummary ?m)) = Some conv"
    "ms_conversationId (toSummary ?m) \<noteq> PUBLIC_CONVERSATION_ID" using assms(20,27) by (simp_all add: m)
  have "if activeConversationId (p_state (pg_provider pr)) = g
      then body \<in> set (texts (page_view uenv ?pr))
        \<and> (me \<noteq> s_id (w_sess w r) \<longrightarrow> s_nickname (w_sess w r) \<in> set (texts (page_view uenv ?pr)))
      else unread_text (Suc (conv_unreadCount conv)) \<in> set (texts (page_view uenv ?pr))"
    using page_shows_received [OF assms(26,25) refl conv assms(28-30), where fresh = fresh' and num = num and env = uenv] by (auto simp: m split: if_splits)
  moreover have "cf_composer f' = []" if "pg_mounted ps' = AtChat f'" for f'
    using send(3) that by (simp add: assms(9))
  ultimately show ?thesis using send(1) sent stored m(6) by blast
qed

definition demo_summary :: ConversationSummary where
  "demo_summary = \<lparr>cs_id = js ''group:g'', cs_kind = KGroup, cs_title = js ''g'', cs_memberIds = [js ''a'', js ''b'']\<rparr>"

definition demo_group :: Page where
  "demo_group = page_hears ([], []) id (SConversationCreated demo_summary) demo_ready"

definition demo_typed :: Page where
  "demo_typed = page_event ([], []) None (Compose (Typed (js ''hi'')))
     (page_event ([], []) None (Do (DoSelectConversation (js ''group:g''))) demo_group)"

lemma demo_open_connected:
  "connectionStatus (p_state (pg_provider demo_open)) = Connected"
  "\<exists>c. p_client (pg_provider demo_open) = Some c \<and> k_socket c = Some SkOpen \<and> k_status c = Connected"
proof -
  obtain c where c: "p_client (pg_provider demo_login) = Some c" using demo_login_provider by blast
  let ?c = "onopen (c\<lparr>k_socket := Some SkOpen\<rparr>)" and ?p = "pg_provider demo_login"
  have k: "k_out ?c = k_out c @ [StatusChange Connected]" "k_socket ?c = Some SkOpen" "k_status ?c = Connected"
    by (simp_all add: onopen_def setStatus_def does_def)
  have p: "pg_provider demo_open = onStatusChange ([], []) Connected (?p\<lparr>p_client := Some ?c\<rparr>)"
    using k(1) by (simp add: demo_open_def absorb_def c)
  then show "connectionStatus (p_state (pg_provider demo_open)) = Connected"
    by (simp add: onStatusChange_def Let_def through_client_def client_send_def k(2) split: option.split)
  have "p_client (pg_provider demo_open) = Some ?c \<or> (\<exists>m. p_client (pg_provider demo_open) = Some (fst (client_send m ?c)))"
    by (auto simp: p onStatusChange_def Let_def split: option.splits)
  then show "\<exists>c. p_client (pg_provider demo_open) = Some c \<and> k_socket c = Some SkOpen \<and> k_status c = Connected"
    using k by auto
qed

definition demo_acts :: "UserAction list" where
  "demo_acts = [DoAuthenticate \<lparr>pa_register = False, pa_username = js ''amy'', pa_password = js ''secret''\<rparr>,
     DoSelectConversation (js ''group:g'')]"

lemma demo_typed_facts:
  "\<exists>c f. page_run id plain_env demo_acts demo_typed \<and> pg_mounted demo_typed = AtChat f \<and> cf_composer f = js ''hi''
     \<and> connectionStatus (shown demo_typed) = Connected \<and> shows_group (js ''group:g'') (pg_provider demo_typed)
     \<and> p_client (pg_provider demo_typed) = Some c"
proof -
  let ?g = "js ''group:g''" and ?me = "js ''a''"
  let ?a = "DoAuthenticate \<lparr>pa_register = False, pa_username = js ''amy'', pa_password = js ''secret''\<rparr>"
  obtain c where c: "p_client (pg_provider demo_open) = Some c" "k_socket c = Some SkOpen" "k_status c = Connected"
    using demo_open_connected by blast
  let ?c = "does (EventIn (server_json (SReady ?me (js ''amy'') [] [] []))) c"
  have ready: "p_client (pg_provider demo_ready) = Some ?c"
    "p_state (pg_provider demo_ready) = reduce_READY ?me (js ''amy'') [] [] [] (p_state (pg_provider demo_open))"
    by (simp_all add: demo_ready_def hears_provider [OF c(1)] del: server_json.simps)
  let ?d = "does (EventIn (server_json (SConversationCreated demo_summary))) ?c"
  let ?s = "reduce_CONVERSATION_CREATED demo_summary (p_state (pg_provider demo_ready))"
  have d: "isConnected ?d" using c(2,3) by (simp add: isConnected_def does_def)
  have group: "p_client (pg_provider demo_group) = Some ?d" "p_state (pg_provider demo_group) = ?s" "shown demo_group = ?s"
    by (simp_all add: demo_group_def hears_provider [OF ready(1)] del: server_json.simps)
  have run: "page_run id plain_env [?a] demo_group"
    unfolding demo_group_def
  proof (rule run_hears [OF _ ready(1)])
    show "page_run id plain_env [?a] demo_ready" using demo_ready_facts by blast
    show "k_socket ?c = Some SkOpen" using c(2) by (simp add: does_def)
  qed
  obtain v where v: "map_of (conversations ?s) ?g = Some v" "conv_type v = KGroup" "conv_id v = ?g"
    by (simp add: ready(2) reduce_READY_def reduce_CONVERSATION_CREATED_def Let_def demo_summary_def ready_conversations_def
        conversationFromSummary_def PUBLIC_CONVERSATION_ID_def)
  have s: "connectionStatus ?s = Connected" "userId ?s = Some ?me"
    using demo_open_connected(1) by (simp_all add: ready(2) reduce_READY_def reduce_CONVERSATION_CREATED_def Let_def)
  have vs: "v \<in> set (groupConversations ?s)"
    using v map_of_SomeD [OF v(1)] by (force simp: groupConversations_def)
  then have row: "group_row ?s v \<in> set (sidebar_rows ?s)" by (auto simp: sidebar_rows_def)
  obtain f where f: "pg_mounted demo_group = AtChat f"
    using run_match [OF run] s(2) by (auto simp: page_match_def group(3) ChatApp_def truthy_def split: Mounted.splits)
  have "Do (DoSelectConversation ?g) = (\<lambda>row. Do (DoSelectConversation (row_key row))) (group_row ?s v)"
    by (simp add: group_row_def v(3))
  then have o1: "Do (DoSelectConversation ?g) \<in> offers (page_view plain_env demo_group)"
    unfolding run_offers [OF run] f group(3) Mounted.case chat_events_def sidebar_events_def using row by blast
  let ?pg = "page_event ([], []) None (Do (DoSelectConversation ?g)) demo_group"
  let ?t = "reduce_SET_ACTIVE ?g ?s"
  have run1: "page_run id plain_env demo_acts ?pg"
    using page_run.user [OF run o1, of "([], [])" None] by (simp add: f demo_acts_def del: page_event_def)
  have pg: "p_client (pg_provider ?pg) = Some ?d" "p_state (pg_provider ?pg) = ?t" "shown ?pg = ?t"
    using group by (simp_all add: page_event_def f)
  have t: "connectionStatus ?t = Connected" "userId ?t = Some ?me" "activeConversationId ?t = ?g"
    "map_of (conversations ?t) ?g = Some (v\<lparr>conv_unreadCount := 0\<rparr>)"
    using s v(1) by (simp_all add: reduce_SET_ACTIVE_def alist.get_put)
  obtain f1 where f1: "pg_mounted ?pg = AtChat f1"
    using run_match [OF run1] t(2) by (auto simp: page_match_def pg(3) ChatApp_def truthy_def split: Mounted.splits)
  have o2: "Compose (Typed (js ''hi'')) \<in> offers (page_view plain_env ?pg)"
    unfolding run_offers [OF run1] by (simp add: f1 pg(3) chat_events_def composer_events_def t(1))
  have run2: "page_run id plain_env demo_acts demo_typed"
    using page_run.user [OF run1 o2, of "([], [])" None] by (simp add: f1 demo_typed_def pg(3) t(1))
  have fin: "p_client (pg_provider demo_typed) = Some ?d" "shown demo_typed = ?t"
    using pg by (simp_all add: demo_typed_def page_event_def [of _ _ "Compose _"] f1)
  obtain f2 where f2: "pg_mounted demo_typed = AtChat f2" "cf_composer f2 = js ''hi''"
    using t(1,2) pg by (simp add: demo_typed_def page_event_def [of _ _ "Compose _"] f1 mount_page_def ChatApp_def truthy_def mount_forms_def)
  have "shows_group ?g (pg_provider demo_typed)"
    using d t(3,4) v(2,3) by (simp add: shows_group_def connected_def fin)
  with run2 f2 fin t(1) show ?thesis by auto
qed

lemma demo_receiver:
  "\<exists>(pr :: Page) c conv. p_client (pg_provider pr) = Some c \<and> view_ok (pg_provider pr)
     \<and> map_of (conversations (p_state (pg_provider pr))) (js ''group:g'') = Some conv
     \<and> connectionStatus (p_state (pg_provider pr)) = Connected \<and> userId (p_state (pg_provider pr)) = Some (js ''b'')
     \<and> activeConversationId (p_state (pg_provider pr)) = js ''group:g''"
proof -
  let ?before = "(createInitialState [])\<lparr>userId := Some (js ''b''), connectionStatus := Connected\<rparr>"
  let ?mid = "chatReducer ([], []) ?before (CONVERSATION_CREATED demo_summary)"
  let ?after = "chatReducer ([], []) ?mid (SET_ACTIVE_CONVERSATION (js ''group:g''))"
  let ?c = "onopen ((client_connect None (new_client (js ''ws:'') None None))\<lparr>k_socket := Some SkOpen\<rparr>)"
  let ?pr = "\<lparr>pg_provider = (new_provider [])\<lparr>p_client := Some ?c, p_state := ?after, p_stateRef := ?after\<rparr>,
     pg_mounted = AtChat new_forms, pg_stored = None\<rparr> :: Page"
  have s0: "chat_inv ?before" using initial_inv [of "[]"] by (simp add: chat_inv_def)
  have s1: "chat_wf ?before"
    by (rule chat_wf_same [of "createInitialState []"]) (use view_new [of "[]"] in \<open>simp_all add: view_ok_def new_provider_def\<close>)
  have a: "action_ok (CONVERSATION_CREATED demo_summary)" "action_ok (SET_ACTIVE_CONVERSATION (js ''group:g''))"
    by (simp_all add: PUBLIC_CONVERSATION_ID_def demo_summary_def)
  have m: "chat_inv ?mid" "chat_wf ?mid" by (rule chat_inv_step [OF s0 a(1)], rule chat_wf_step [OF s0 s1 a(1)])
  have v: "view_ok (pg_provider ?pr)"
    using chat_inv_step [OF m(1) a(2)] chat_wf_step [OF m a(2)] by (simp only: view_ok_def) simp
  obtain conv where conv: "map_of (conversations ?mid) (js ''group:g'') = Some conv"
    by (simp add: reduce_CONVERSATION_CREATED_def Let_def createInitialState_def demo_summary_def PUBLIC_CONVERSATION_ID_def conversationFromSummary_def)
  then have t: "map_of (conversations ?after) (js ''group:g'') = Some (conv\<lparr>conv_unreadCount := 0\<rparr>)"
    "connectionStatus ?after = Connected" "userId ?after = Some (js ''b'')" "activeConversationId ?after = js ''group:g''"
    by (simp_all add: reduce_SET_ACTIVE_def alist.get_put) (simp_all add: reduce_CONVERSATION_CREATED_def Let_def)
  show ?thesis
    by (rule exI [of _ ?pr], rule exI [of _ ?c], rule exI [of _ "conv\<lparr>conv_unreadCount := 0\<rparr>"]) (use v t in simp)
qed

theorem typed_message_is_shown_witness:
  "\<exists>env m (pr :: Page). Compose ClickSend \<in> offers (page_view plain_env demo_typed)
     \<and> t_messages (w_db (onClientRaw env 0 (utf8_encode (encodeOutbound (SendMessage (TGroup (js ''group:g'')) (js ''hi'')))) duo)) = [m]
     \<and> js ''hi'' \<in> set (texts (page_view plain_env (page_hears ([], []) id (SMessage (toSummary m)) pr)))"
proof -
  let ?env = "demo_env\<lparr>e_json_parse := json_parse id, e_maxClientMessageBytes := 16384\<rparr>" and ?g = "js ''group:g''"
  obtain cs f where s: "page_run id plain_env demo_acts demo_typed" "pg_mounted demo_typed = AtChat f" "cf_composer f = js ''hi''"
    "connectionStatus (shown demo_typed) = Connected" "shows_group ?g (pg_provider demo_typed)" "p_client (pg_provider demo_typed) = Some cs"
    using demo_typed_facts by blast
  obtain pr :: Page and c conv where r: "p_client (pg_provider pr) = Some c" "view_ok (pg_provider pr)"
    "map_of (conversations (p_state (pg_provider pr))) ?g = Some conv" "connectionStatus (p_state (pg_provider pr)) = Connected"
    "userId (p_state (pg_provider pr)) = Some (js ''b'')" "activeConversationId (p_state (pg_provider pr)) = ?g"
    using demo_receiver by blast
  have h: "s_authenticated (w_sess duo 0)" "s_welcomed (w_sess duo 0)" "fresh_id ?env duo"
    "s_id (w_sess duo 0) \<in> set [js ''a'', js ''b'']" "js ''b'' \<in> set [js ''a'', js ''b'']"
    "roster_get (w_roster duo) (js ''b'') = Some 1" "is_open duo 1"
    "e_json_parse ?env = json_parse id" "e_maxClientMessageBytes ?env = 16384" "t_messages (w_db duo) = []"
    by (simp_all add: fresh_id_def duo_sessions user_session_def new_Session_def roster_get_def is_open_def del: One_nat_def)
  have l: "js ''hi'' = trim (cf_composer f)" "js ''hi'' \<noteq> []" "length (js ''hi'') \<le> 2600" "?g \<noteq> []" "length ?g \<le> 64" "?g \<noteq> PUBLIC_CONVERSATION_ID"
    "js ''b'' \<noteq> []"
    by (simp_all add: s(3) PUBLIC_CONVERSATION_ID_def) (simp_all add: trim_def js_def js_space_def)
  from typed_message_is_shown [OF s(1,2,4-6) l(1,2) refl refl h(1-3) duo_group _ h(8,9) l(3-6) refl _ h(6,7) r(1-5) l(7),
      of "([], [])" None "([], [])"] h(4,5,10) r(6)
  show ?thesis by (intro exI [of _ ?env]) (auto simp: duo_sessions)
qed

end
