(* ===== verification/StackLogin.thy ===== *)
theory StackLogin
  imports Stack BackendServerLines EndToEnd PageSystem
begin

section \<open>A login, from the browser to the C++ server and back\<close>

text \<open>
  Logging in involves all three processes: the browser's message, the key derivation, a TCP
  connection, the server's WELCOME with a default nickname, the gateway's \<open>/nick\<close>, the server's
  NICK, and the ready message that opens the chat.  Here it is followed through the step relation
  of the whole, from any reachable state in which the account may log in.
\<close>

subsection \<open>Steps of the server\<close>

lemma works_quiet:
  assumes "sv_tasks (st_server y) t = task # ts" and "run_task cfg id task (st_server y) = (sv', new)" and "sv_out sv' = sv_out (st_server y)"
  shows "stack_step env cfg y (y\<lparr>st_server := set_tasks t (new @ ts) sv'\<rparr>)"
proof -
  have "stack_step env cfg y (server_moves (set_tasks t (new @ ts) sv') y)"
    by (rule server_works [OF refl assms(1) _ assms(2)]) simp
  then show ?thesis by (simp add: server_moves_def assms(3))
qed

lemma works_writes:
  assumes "sv_tasks (st_server y) t = WriteFrame fd p # ts" and "fd \<in> set (sv_open (st_server y))" and "length p \<le> max_message_size cfg"
  shows "stack_step env cfg y (deliver (Frame fd p) (y\<lparr>st_server := set_tasks t ts ((st_server y)\<lparr>sv_out := sv_out (st_server y) @ [Frame fd p]\<rparr>)\<rparr>))"
proof -
  let ?sv = "(st_server y)\<lparr>sv_out := sv_out (st_server y) @ [Frame fd p]\<rparr>"
  have "run_task cfg id (WriteFrame fd p) (st_server y) = (?sv, [])" using assms(2,3) by simp
  then have "stack_step env cfg y (server_moves (set_tasks t ([] @ ts) ?sv) y)"
    by (intro server_works [OF refl assms(1)]) simp_all
  then show ?thesis by (simp add: server_moves_def)
qed

lemma works_ignores:
  assumes "sv_tasks (st_server y) t = WriteFrame fd p # ts" and "fd \<notin> set (sv_open (st_server y))"
  shows "stack_step env cfg y (y\<lparr>st_server := set_tasks t ts (st_server y)\<rparr>)"
  using works_quiet [OF assms(1), of cfg "st_server y" "[]"] assms(2) by simp

text \<open>A handler writes one frame to each of a list of clients; what comes of it for one connection
  of the gateway that only \<open>fd\<close> leads to.\<close>

definition sole_peer :: "nat \<Rightarrow> nat \<Rightarrow> Stack \<Rightarrow> bool" where
  "sole_peer fd c y \<longleftrightarrow> st_peer y fd = Some c \<and> (\<forall>g. st_peer y g = Some c \<longrightarrow> g = fd)"

lemma deliver_frame [simp]:
  "st_peer (deliver (Frame g p) y) = st_peer y" "st_backlog (deliver (Frame g p) y) = st_backlog y" "st_up (deliver (Frame g p) y) = st_up y"
  by (simp_all split: option.split)

lemma deliver_down: "sole_peer fd c y \<Longrightarrow> st_down (deliver (Frame g p) y) c = st_down y c @ framed (if g = fd then [p] else [])"
  by (auto simp: sole_peer_def split: option.split)

declare deliver.simps [simp del]

definition wrote_all :: "nat \<Rightarrow> bytes \<Rightarrow> nat list \<Rightarrow> Thread \<Rightarrow> Task list \<Rightarrow> nat \<Rightarrow> Stack \<Rightarrow> Stack \<Rightarrow> bool" where
  "wrote_all fd p gs t ts c y z \<longleftrightarrow> st_gateway z = st_gateway y \<and> st_peer z = st_peer y \<and> st_backlog z = st_backlog y \<and> st_up z = st_up y
    \<and> st_down z c = st_down y c @ framed (replicate (count_list gs fd) p)
    \<and> sv_clients (st_server z) = sv_clients (st_server y) \<and> sv_open (st_server z) = sv_open (st_server y)
    \<and> sv_tasks (st_server z) = (sv_tasks (st_server y))(t := ts)"

lemma write_all:
  assumes "sv_tasks (st_server y) t = map (\<lambda>g. WriteFrame g p) gs @ ts" and "length p \<le> max_message_size cfg" and "sole_peer fd c y"
    and "fd \<in> set (sv_open (st_server y))"
  shows "\<exists>z. (stack_step env cfg)\<^sup>*\<^sup>* y z \<and> wrote_all fd p gs t ts c y z"
  using assms
proof (induction gs arbitrary: y)
  case Nil
  then show ?case by (intro exI [of _ y]) (auto simp: wrote_all_def)
next
  case (Cons g gs)
  let ?rest = "map (\<lambda>g. WriteFrame g p) gs @ ts"
  have t: "sv_tasks (st_server y) t = WriteFrame g p # ?rest" using Cons.prems(1) by simp
  obtain y' where y': "stack_step env cfg y y'" "st_gateway y' = st_gateway y" "st_peer y' = st_peer y" "st_backlog y' = st_backlog y" "st_up y' = st_up y"
    "st_down y' c = st_down y c @ framed (if g = fd then [p] else [])" "sv_clients (st_server y') = sv_clients (st_server y)"
    "sv_open (st_server y') = sv_open (st_server y)" "sv_tasks (st_server y') = (sv_tasks (st_server y))(t := ?rest)"
  proof (cases "g \<in> set (sv_open (st_server y))")
    case True
    let ?y = "y\<lparr>st_server := set_tasks t ?rest ((st_server y)\<lparr>sv_out := sv_out (st_server y) @ [Frame g p]\<rparr>)\<rparr>"
    have "sole_peer fd c ?y" using Cons.prems(3) by (simp add: sole_peer_def)
    note d = deliver_down [OF this, of g p]
    show ?thesis by (rule that [OF works_writes [OF t True Cons.prems(2)]]) (use d in simp_all)
  next
    case False
    then have "g \<noteq> fd" using Cons.prems(4) by auto
    then show ?thesis by (intro that [OF works_ignores [OF t False]]) simp_all
  qed
  have "\<exists>z. (stack_step env cfg)\<^sup>*\<^sup>* y' z \<and> wrote_all fd p gs t ts c y' z"
    by (rule Cons.IH) (use y' Cons.prems(2-4) in \<open>simp_all add: sole_peer_def\<close>)
  then obtain z where z: "(stack_step env cfg)\<^sup>*\<^sup>* y' z" "wrote_all fd p gs t ts c y' z" by blast
  have "wrote_all fd p (g # gs) t ts c y z" using z(2) y' unfolding wrote_all_def by simp
  with converse_rtranclp_into_rtranclp [of "stack_step env cfg", OF y'(1) z(1)] show ?case by blast
qed

subsection \<open>The server welcomes a connection\<close>

lemma update_last: "fd \<notin> fst ` set cs \<Longrightarrow> AList.update fd r (cs @ [(fd, q)]) = cs @ [(fd, r)]"
  by (induction cs) auto

lemma accepted:
  assumes "length (sv_clients sv) < max_clients cfg" and "n = assign_default_nickname sv" and "fd \<notin> fst ` set (sv_clients sv)"
  shows "sv_clients (accept_one cfg fd sv) = sv_clients sv @ [(fd, \<lparr>cr_nickname = n, cr_welcomed = False\<rparr>)]"
    and "sv_tasks (accept_one cfg fd sv) = (sv_tasks sv)(Acceptor := [SendTo fd (asc ''WELCOME '' @ n), MarkWelcomed fd, Spawn fd,
          Broadcast (asc ''SYS '' @ n @ asc '' has joined.'') (Some fd)])"
    and "sv_open (accept_one cfg fd sv) = sv_open sv @ [fd]" and "sv_reading (accept_one cfg fd sv) = sv_reading sv"
    and "find_client fd (accept_one cfg fd sv) = Some \<lparr>cr_nickname = n, cr_welcomed = False\<rparr>"
proof -
  have "map_of (sv_clients sv) fd = None" using assms(3) by (simp add: map_of_eq_None_iff)
  with assms show "sv_clients (accept_one cfg fd sv) = sv_clients sv @ [(fd, \<lparr>cr_nickname = n, cr_welcomed = False\<rparr>)]"
    "sv_tasks (accept_one cfg fd sv) = (sv_tasks sv)(Acceptor := [SendTo fd (asc ''WELCOME '' @ n), MarkWelcomed fd, Spawn fd,
          Broadcast (asc ''SYS '' @ n @ asc '' has joined.'') (Some fd)])"
    "sv_open (accept_one cfg fd sv) = sv_open sv @ [fd]" "sv_reading (accept_one cfg fd sv) = sv_reading sv"
    "find_client fd (accept_one cfg fd sv) = Some \<lparr>cr_nickname = n, cr_welcomed = False\<rparr>"
    by (simp_all add: accept_one_def Let_def find_client_def map_add_def)
qed

definition connected_as :: "nat \<Rightarrow> nat \<Rightarrow> bytes \<Rightarrow> (nat \<times> ClientRecord) list \<Rightarrow> Stack \<Rightarrow> bool" where
  "connected_as fd c n cs z \<longleftrightarrow> sole_peer fd c z \<and> sv_clients (st_server z) = cs @ [(fd, \<lparr>cr_nickname = n, cr_welcomed = True\<rparr>)]
     \<and> fd \<in> set (sv_open (st_server z)) \<and> fd \<in> set (sv_reading (st_server z)) \<and> sv_tasks (st_server z) (Handler fd) = []"

lemma welcome_phase:
  assumes "sv_running (st_server y)" and "sv_tasks (st_server y) Acceptor = []" and "sv_tasks (st_server y) (Handler fd) = []"
    and "fd \<notin> set (sv_open (st_server y))" and "length (sv_clients (st_server y)) < max_clients cfg" and "fd \<notin> fst ` set (sv_clients (st_server y))"
    and "st_backlog y = before @ [c]" and "\<forall>g. st_peer y g \<noteq> Some c" and "n = assign_default_nickname (st_server y)"
    and "length (asc ''WELCOME '' @ n) \<le> max_message_size cfg"
  shows "\<exists>z. (stack_step env cfg)\<^sup>*\<^sup>* y z \<and> st_gateway z = st_gateway y \<and> st_up z = st_up y
    \<and> st_down z c = st_down y c @ framed [asc ''WELCOME '' @ n] \<and> connected_as fd c n (sv_clients (st_server y)) z"
proof -
  let ?W = "asc ''WELCOME '' @ n" and ?J = "Broadcast (asc ''SYS '' @ n @ asc '' has joined.'') (Some fd)"
  let ?R = "\<lambda>b. \<lparr>cr_nickname = n, cr_welcomed = b\<rparr>"
  note a = accepted [OF assms(5,9,6)]
  define y1 where "y1 = y\<lparr>st_server := accept_one cfg fd (st_server y), st_backlog := before, st_peer := (st_peer y)(fd \<mapsto> c)\<rparr>"
  have s1: "stack_step env cfg y y1"
    using server_accepts [OF refl, of y before c "[]" fd env cfg] assms by (simp add: y1_def)
  have p1: "sole_peer fd c y1" using assms(8) by (simp add: y1_def sole_peer_def)
  define y2 where "y2 = y1\<lparr>st_server := set_tasks Acceptor [WriteFrame fd ?W, MarkWelcomed fd, Spawn fd, ?J] (st_server y1)\<rparr>"
  have s2: "stack_step env cfg y1 y2"
    unfolding y2_def using works_quiet [of y1 Acceptor "SendTo fd ?W" "[MarkWelcomed fd, Spawn fd, ?J]" cfg "st_server y1" "[WriteFrame fd ?W]" env]
    by (simp add: y1_def a)
  define sv3 where "sv3 = set_tasks Acceptor [MarkWelcomed fd, Spawn fd, ?J] ((st_server y2)\<lparr>sv_out := sv_out (st_server y2) @ [Frame fd ?W]\<rparr>)"
  define y3 where "y3 = deliver (Frame fd ?W) (y2\<lparr>st_server := sv3\<rparr>)"
  have s3: "stack_step env cfg y2 y3"
    unfolding y3_def sv3_def by (rule works_writes) (use assms(10) in \<open>simp_all add: y2_def y1_def a\<close>)
  have sv3: "sv_clients sv3 = sv_clients (st_server y) @ [(fd, ?R False)]" "sv_open sv3 = sv_open (st_server y) @ [fd]"
    "sv_reading sv3 = sv_reading (st_server y)" "find_client fd sv3 = Some (?R False)"
    "sv_tasks sv3 = (sv_tasks (st_server y))(Acceptor := [MarkWelcomed fd, Spawn fd, ?J])"
    using a by (simp_all add: sv3_def y2_def y1_def find_client_def)
  define sv4 where "sv4 = set_tasks Acceptor [Spawn fd, ?J] (set_client fd (?R True) sv3)"
  define y4 where "y4 = y3\<lparr>st_server := sv4\<rparr>"
  have s4: "stack_step env cfg y3 y4"
    using works_quiet [of y3 Acceptor "MarkWelcomed fd" "[Spawn fd, ?J]" cfg "set_client fd (?R True) sv3" "[]" env] sv3
    by (simp add: y4_def sv4_def y3_def)
  define sv5 where "sv5 = set_tasks Acceptor [?J] (sv4\<lparr>sv_reading := sv_reading sv4 @ [fd]\<rparr>)"
  define y5 where "y5 = y4\<lparr>st_server := sv5\<rparr>"
  have s5: "stack_step env cfg y4 y5"
    using works_quiet [of y4 Acceptor "Spawn fd" "[?J]" cfg "sv4\<lparr>sv_reading := sv_reading sv4 @ [fd]\<rparr>" "[]" env]
    by (simp add: y5_def sv5_def y4_def) (simp add: sv4_def)
  have "(stack_step env cfg)\<^sup>*\<^sup>* y y5" using s1 s2 s3 s4 s5 by (meson rtranclp.rtrancl_into_rtrancl rtranclp.rtrancl_refl)
  moreover have "st_gateway y5 = st_gateway y" "st_up y5 = st_up y" by (simp_all add: y5_def y4_def y3_def y2_def y1_def)
  moreover have "st_down y5 c = st_down y c @ framed [?W]"
  proof -
    have "sole_peer fd c (y2\<lparr>st_server := sv3\<rparr>)" using p1 by (simp add: y2_def sole_peer_def)
    from deliver_down [OF this, of fd ?W] show ?thesis by (simp add: y5_def y4_def y3_def) (simp add: y2_def y1_def)
  qed
  moreover have "connected_as fd c n (sv_clients (st_server y)) y5"
    using p1 assms(3,6) sv3 by (simp add: connected_as_def sole_peer_def y5_def sv5_def y4_def sv4_def y3_def y2_def update_last)
  ultimately show ?thesis by blast
qed

subsection \<open>The server gives the account its name\<close>

lemma name_bytes:
  assumes "USERNAME_RE u"
  shows "is_valid_nickname (utf8_encode u)" and "utf8_decode (utf8_encode u) = u" and "widen (utf8_encode u) = u"
proof -
  have a: "unat x < 128" if "x \<in> set u" for x
    using assms that name_unit_small [of x] by (auto simp: USERNAME_RE_def list_all_iff)
  have "utf8_encode v = map ucast v \<and> widen (map ucast v) = v" if "\<forall>x \<in> set v. unat x < 128" for v :: jsstr
    using that
  proof (induction v)
    case (Cons x v)
    then have "unat (ucast x :: 8 word) = unat x" by (simp add: unsigned_ucast_eq take_bit_nat_eq_self)
    then have "ucast (ucast x :: 8 word) = x" by (simp add: word_unat_eq_iff unat_widen del: unsigned_ucast_eq)
    with Cons show ?case by (simp add: encode_Cons)
  qed simp
  with a show w: "widen (utf8_encode u) = u" by simp
  then show v: "is_valid_nickname (utf8_encode u)" using assms by (simp add: nickname_name)
  show "utf8_decode (utf8_encode u) = u" using decode_nickname_end [OF v] w by simp
qed

lemma nickname_word:
  assumes "is_valid_nickname n"
  shows "read_word n = (n, [])"
proof -
  have s: "\<not> is_space b" if "b \<in> set n" for b
  proof -
    have "username_unit (ucast b)" using assms that name_byte by (auto simp: is_valid_nickname_def)
    then have "33 \<le> unat b" using unat_widen [of b] by (auto simp: username_unit_def word_le_nat_alt)
    then show ?thesis by (auto simp: is_space_def word_le_nat_alt)
  qed
  have "n \<noteq> []" using assms by (simp add: is_valid_nickname_def)
  then have "dropWhile is_space n = n" using s by (cases n) auto
  moreover have "takeWhile (\<lambda>b. \<not> is_space b) n = n" "dropWhile (\<lambda>b. \<not> is_space b) n = []"
    using s by (simp_all add: takeWhile_eq_all_conv dropWhile_eq_Nil_conv)
  ultimately show ?thesis by (simp add: read_word_def)
qed

lemma nick_line:
  assumes "USERNAME_RE u"
  shows "handle_line (formatNickCommand u) = CmdNick u"
proof -
  have "username_unit (last u)" using assms name_nonempty [OF assms] by (auto simp: USERNAME_RE_def list_all_iff)
  then have "\<not> eol (last u)" by (auto simp: eol_def username_unit_def)
  moreover have "\<not> eol (last (js ''x''))" by (simp add: js_def eol_def)
  ultimately show ?thesis
    using commands_understood [OF name_nonempty [OF assms] name_space [OF assms], of "js ''x''"] by simp
qed

lemma rename_phase:
  assumes c: "connected_as fd c n cs y" and up: "st_up y c = framed [utf8_encode (formatNickCommand u)]" and u: "USERNAME_RE u"
    and free: "\<forall>(g, q) \<in> set cs. cr_nickname q \<noteq> utf8_encode u" and fd: "fd \<notin> fst ` set cs"
    and fits: "length (utf8_encode (formatNickCommand u)) \<le> max_message_size cfg" "length (asc ''NICK '' @ n @ asc '' '' @ utf8_encode u) \<le> max_message_size cfg"
  shows "\<exists>z. (stack_step env cfg)\<^sup>*\<^sup>* y z \<and> st_gateway z = st_gateway y
    \<and> st_down z c = st_down y c @ framed [asc ''NICK '' @ n @ asc '' '' @ utf8_encode u]
    \<and> find_client fd (st_server z) = Some \<lparr>cr_nickname = utf8_encode u, cr_welcomed = True\<rparr>"
proof -
  let ?ub = "utf8_encode u" and ?sv = "st_server y" and ?R = "\<lambda>m. \<lparr>cr_nickname = m, cr_welcomed = True\<rparr>"
  let ?N = "asc ''NICK '' @ n @ asc '' '' @ ?ub" and ?line = "utf8_encode (formatNickCommand u)"
  note k = c [unfolded connected_as_def]
  have find: "find_client fd ?sv = Some (?R n)" using k fd by (simp add: find_client_def map_of_eq_None_iff [THEN iffD2] map_add_def)
  have nt: "\<not> (\<exists>(g, q) \<in> set (sv_clients ?sv). g \<noteq> fd \<and> cr_nickname q = ?ub)" using k free by auto
  have "handle_nick fd ?ub ?sv = (set_client fd (?R ?ub) ?sv, [Broadcast ?N None])"
    using nickname_word [OF name_bytes(1) [OF u]] name_bytes(1) [OF u] nt find
    by (simp add: handle_nick_def read_word_def [of "[]"]) (simp add: is_valid_nickname_def)
  then have "serve_line fd ?line ?sv = (set_client fd (?R ?ub) ?sv, [Broadcast ?N None], True)"
    by (simp add: serve_line_obey nick_line [OF u])
  then have r: "receive_frame fd ?line ?sv = set_tasks (Handler fd) [Broadcast ?N None] (set_client fd (?R ?ub) ?sv)"
    by (simp add: receive_frame_def)
  define sv1 where "sv1 = set_tasks (Handler fd) [Broadcast ?N None] (set_client fd (?R ?ub) ?sv)"
  have cl: "sv_clients sv1 = cs @ [(fd, ?R ?ub)]" using k fd by (simp add: sv1_def update_last)
  define y1 where "y1 = y\<lparr>st_server := sv1, st_up := (st_up y)(c := [])\<rparr>"
  have s1: "stack_step env cfg y y1"
    using server_reads [OF refl, of fd y ?line cfg c "[]" env] k up fits(1) r by (simp add: y1_def sv1_def sole_peer_def)
  let ?gs = "broadcast_targets None sv1"
  define y2 where "y2 = y1\<lparr>st_server := set_tasks (Handler fd) (map (\<lambda>g. WriteFrame g ?N) ?gs @ []) sv1\<rparr>"
  have s2: "stack_step env cfg y1 y2"
    using works_quiet [of y1 "Handler fd" "Broadcast ?N None" "[]" cfg sv1 "map (\<lambda>g. WriteFrame g ?N) ?gs" env]
    by (simp add: y2_def y1_def) (simp add: sv1_def)
  have "count_list ?gs fd = 1"
  proof -
    have "?gs = map fst (filter (\<lambda>(fd, r). cr_welcomed r) cs) @ [fd]" by (simp add: broadcast_targets_def cl)
    moreover have "fd \<notin> set (map fst (filter (\<lambda>(fd, r). cr_welcomed r) cs))" using fd by force
    ultimately show ?thesis by (simp add: count_list_0_iff)
  qed
  note one = this
  have p2: "sole_peer fd c y2" and o2: "fd \<in> set (sv_open (st_server y2))" using k by (simp_all add: y2_def y1_def sv1_def sole_peer_def)
  have t2: "sv_tasks (st_server y2) (Handler fd) = map (\<lambda>g. WriteFrame g ?N) ?gs @ []" by (simp add: y2_def)
  from write_all [OF t2 fits(2) p2 o2] obtain z where z: "(stack_step env cfg)\<^sup>*\<^sup>* y2 z" "wrote_all fd ?N ?gs (Handler fd) [] c y2 z" by blast
  have "find_client fd (st_server z) = Some (?R ?ub)"
    using z(2) cl fd by (simp add: wrote_all_def find_client_def y2_def map_of_eq_None_iff [THEN iffD2] map_add_def)
  moreover have "(stack_step env cfg)\<^sup>*\<^sup>* y z" using s1 s2 z(1) by (meson converse_rtranclp_into_rtranclp)
  moreover have "st_gateway z = st_gateway y \<and> st_down z c = st_down y c @ framed [?N]"
    using z(2) one by (simp add: wrote_all_def y2_def y1_def)
  ultimately show ?thesis by blast
qed

subsection \<open>The gateway's side\<close>

lemma hears_line:
  assumes "bc_decoder (w_conn w c) = new_FrameDecoder m" and "length p \<le> m" and "length p < 2 ^ 32"
  shows "on_backend_data env c (framed [p]) w = onBackendEvent env (bc_session (w_conn w c)) (parseBackendLine (utf8_decode p)) w"
proof -
  have "on_data (framed [p]) (w_conn w c) = (w_conn w c, [parseBackendLine (utf8_decode p)], False)"
    using assms drain_frame [OF assms(2,3)] by (simp add: on_data_def push_drain new_FrameDecoder_def)
  then show ?thesis by (simp add: on_backend_data_def upd_conn_def)
qed

text \<open>The session \<open>r\<close> is logged in as \<open>i\<close>, has its connection \<open>c\<close> and waits for its name.\<close>

definition awaiting :: "nat \<Rightarrow> nat \<Rightarrow> nat \<Rightarrow> jsstr \<Rightarrow> jsstr \<Rightarrow> World \<Rightarrow> bool" where
  "awaiting m r c i u w \<longleftrightarrow> is_open w r \<and> s_id (w_sess w r) = i \<and> s_desiredUsername (w_sess w r) = Some u \<and> s_backend (w_sess w r) = Some c
     \<and> \<not> s_readyAnnounced (w_sess w r) \<and> s_pending (w_sess w r) = [] \<and> \<not> w_crashed w \<and> c < w_nconn w
     \<and> bc_session (w_conn w c) = r \<and> bc_socket (w_conn w c) = Wired \<and> \<not> bc_closed (w_conn w c) \<and> bc_decoder (w_conn w c) = new_FrameDecoder m"

lemma announced:
  assumes "is_open w r" and "s_pending (w_sess w r) = []"
  shows "\<exists>us cs rest. w_out (announceReady env r w) = w_out w @ Sent r (SReady (s_id (w_sess w r)) (s_nickname (w_sess w r)) us cs
      (historyForUser (e_ties env) (w_db w) (s_id (w_sess w r)))) # rest"
  using announce_queue [OF assms(1) refl refl refl, of env] assms(2) by fastforce

lemma sends_nick:
  assumes "awaiting m r c i u w" and "nm \<noteq> u" and "u \<noteq> []" and "encodeFrame_str (formatNickCommand u) = Some bytes"
  shows "awaiting m r c i u (onWelcome env r nm w) \<and> s_nickname (w_sess (onWelcome env r nm w) r) = nm
    \<and> w_out (onWelcome env r nm w) = w_out w @ [Wrote c bytes] \<and> w_db (onWelcome env r nm w) = w_db w"
proof -
  let ?w = "upd_sess r (\<lambda>s. s\<lparr>s_welcomed := True, s_nickname := nm\<rparr>) w"
  have "onWelcome env r nm w = backend_sendLine r (formatNickCommand u) ?w"
    using assms(1-3) by (simp add: onWelcome_def upd_sess_def awaiting_def)
  also have "\<dots> = emit (Wrote c bytes) (upd_conn c (\<lambda>_. (w_conn w c)\<lparr>bc_unacked := Suc (bc_unacked (w_conn w c))\<rparr>) ?w)"
    using assms(1,4) by (simp add: backend_sendLine_def sendLine_def awaiting_def upd_sess_def)
  finally show ?thesis
    using assms(1) by (simp add: awaiting_def is_open_def emit_def upd_conn_def upd_sess_def)
qed

text \<open>What becomes of the two answers of the server.\<close>

lemma welcome_ready:
  assumes "awaiting m r c i u w"
  shows "\<exists>us cs rest. w_out (onWelcome env r u w) = w_out w @ Sent r (SReady i u us cs (historyForUser (e_ties env) (w_db w) i)) # rest"
proof -
  let ?w = "upd_sess r (\<lambda>s. s\<lparr>s_welcomed := True, s_nickname := u\<rparr>) w"
  have "onWelcome env r u w = announceReady env r ?w" using assms by (simp add: onWelcome_def upd_sess_def awaiting_def)
  moreover have "is_open ?w r" "s_pending (w_sess ?w r) = []" "s_id (w_sess ?w r) = i" "s_nickname (w_sess ?w r) = u" "w_out ?w = w_out w" "w_db ?w = w_db w"
    using assms by (simp_all add: upd_sess_def awaiting_def is_open_def)
  ultimately show ?thesis using announced [of ?w r env] by simp
qed

lemma nick_ready:
  assumes "awaiting m r c i u w" and "s_nickname (w_sess w r) = nm"
  shows "\<exists>us cs rest. w_out (onNick env r nm u w) = w_out w @ Sent r (SReady i u us cs (historyForUser (e_ties env) (w_db w) i)) # rest"
proof -
  let ?w = "upd_sess r (\<lambda>s. s\<lparr>s_nickname := u, s_desiredUsername := (if s_desiredUsername s = Some u then None else s_desiredUsername s)\<rparr>) w"
  have "onNick env r nm u w = announceReady env r ?w" using assms by (simp add: onNick_def Let_def upd_sess_def awaiting_def)
  moreover have "is_open ?w r" "s_pending (w_sess ?w r) = []" "s_id (w_sess ?w r) = i" "s_nickname (w_sess ?w r) = u" "w_out ?w = w_out w" "w_db ?w = w_db w"
    using assms by (simp_all add: upd_sess_def awaiting_def is_open_def)
  ultimately show ?thesis using announced [of ?w r env] by simp
qed

lemma account_dials:
  assumes "roster_get (w_roster w) i = None" and "is_open w r" and "s_pending (w_sess w r) = []" and "\<not> s_readyAnnounced (w_sess w r)" and "\<not> w_crashed w"
    and "w' = handleAuth_account env r \<lparr>ur_id = i, ur_username = u\<rparr> w" and "c = w_nconn w"
  shows "w_out w' = w_out w @ [Dial c]" and "bc_socket (w_conn w' c) = Connecting" and "c < w_nconn w'" and "\<not> w_crashed w'" and "w_db w' = w_db w"
    and "awaiting (e_backendMaxMessageBytes env) r c i u (upd_conn c on_connected w')"
  using assms
  by (simp_all add: handleAuth_account_def Let_def emit_def upd_conn_def upd_sess_def connect_def new_BackendConnection_def
      awaiting_def is_open_def on_connected_def)

subsection \<open>A new connection has carried nothing\<close>

lemma uplink_wrote: "uplink es c \<noteq> [] \<Longrightarrow> \<exists>bs. Wrote c bs \<in> set es"
proof (induction es)
  case (Cons e es)
  have u: "uplink (e # es) c = (case e of Wrote c' bs \<Rightarrow> if c' = c then bs else [] | _ \<Rightarrow> []) @ uplink es c" by (simp add: uplink_def)
  show ?case
  proof (cases "\<exists>bs. e = Wrote c bs")
    case False
    then have "uplink (e # es) c = uplink es c" unfolding u by (cases e) simp_all
    then show ?thesis using Cons by auto
  qed auto
qed (simp add: uplink_def)

lemma moves_up: "st_up (gateway_moves w y) c \<noteq> [] \<Longrightarrow> st_up y c \<noteq> [] \<or> (\<exists>bs. Wrote c bs \<in> set (w_out w))"
  using uplink_wrote [of "drop (length (w_out (st_gateway y))) (w_out w)" c] by (auto simp: gateway_moves_def dest: in_set_dropD)

lemma deliver_up: "st_up (fold deliver es y) = st_up y"
proof (induction es arbitrary: y)
  case (Cons e es)
  have "st_up (deliver e y) = st_up y" by (cases e) (simp_all add: deliver.simps(1,3))
  with Cons show ?case by simp
qed simp

lemma step_up:
  assumes "stack_step env cfg y z" and up: "st_up z c \<noteq> []"
  shows "st_up y c \<noteq> [] \<or> (\<exists>bs. Wrote c bs \<in> set (w_out (st_gateway z)))"
  using assms(1)
proof cases
  case (gateway_acts w')
  then show ?thesis using up moves_up [of w' y c] by simp
next
  case (gateway_reads w d chunk rest)
  then show ?thesis using up moves_up [of "on_backend_data env d chunk w" "y\<lparr>st_down := (st_down y)(d := rest)\<rparr>" c] by simp
next
  case (server_works sv t task ts order sv' new)
  then show ?thesis using up by (simp add: server_moves_def deliver_up)
next
  case (server_reads sv fd q d rest)
  then show ?thesis using up by (cases "c = d") simp_all
qed (use up in simp_all)

lemma outs_grow:
  assumes "uuids_plain env" and "gw_inv w" and "(gateway_step env)\<^sup>*\<^sup>* w w'"
  shows "gw_inv w' \<and> set (w_out w) \<subseteq> set (w_out w')"
  using assms(3)
proof induction
  case (step v v')
  then have "gw_inv v'" using step_inv [OF assms(1) step.hyps(2)] by blast
  with step step_out [of env v v'] show ?case by fastforce
qed (simp add: assms(2))

lemma new_connection_silent:
  assumes "uuids_plain env" and "stack_init y0" and "server_limits cfg" and "(stack_step env cfg)\<^sup>*\<^sup>* y0 y"
  shows "st_up y (w_nconn (st_gateway y)) = []"
proof -
  have "stack_inv cfg y \<and> gw_inv (st_gateway y) \<and> (\<forall>c. st_up y c \<noteq> [] \<longrightarrow> (\<exists>bs. Wrote c bs \<in> set (w_out (st_gateway y))))"
    using assms(4)
  proof induction
    case base
    then show ?case using stack_runs(2) [OF assms(2,3) rtranclp.rtrancl_refl] init_inv assms(2) by (auto simp: stack_init_def)
  next
    case (step y z)
    have "stack_inv cfg z \<and> (gateway_step env)\<^sup>*\<^sup>* (st_gateway y) (st_gateway z)"
      using stack_follow [of cfg y env z] apart_runs [of env cfg "(st_gateway y, st_server y)" "(st_gateway z, st_server z)"] step by simp
    with outs_grow [OF assms(1), of "st_gateway y" "st_gateway z"] step.IH step_up [OF step.hyps(2)] show ?case by blast
  qed
  then have "c < w_nconn (st_gateway y)" if "st_up y c \<noteq> []" for c
    using that gate_wrote by (fastforce simp: gw_inv_def)
  then show ?thesis by blast
qed

subsection \<open>Both sides together\<close>

text \<open>The account may log in at session \<open>r\<close>, and the server has room for it under the handle \<open>fd\<close>.\<close>

definition may_log_in :: "Env \<Rightarrow> nat \<Rightarrow> jsstr \<Rightarrow> jsstr \<Rightarrow> UserRow \<Rightarrow> World \<Rightarrow> bool" where
  "may_log_in env r u password row w \<longleftrightarrow> \<not> w_crashed w \<and> r < w_nsess w \<and> is_open w r \<and> \<not> s_authenticated (w_sess w r)
     \<and> \<not> s_readyAnnounced (w_sess w r) \<and> s_pending (w_sess w r) = [] \<and> row_by_username (w_db w) u = Some row
     \<and> login_verify (e_kdf env) row password = Some \<lparr>ur_id = u_id row, ur_username = u\<rparr> \<and> roster_get (w_roster w) (u_id row) = None
     \<and> USERNAME_RE u \<and> valid_client_message (Login u password)"

definition has_room :: "ServerConfig \<Rightarrow> jsstr \<Rightarrow> nat \<Rightarrow> Server \<Rightarrow> bool" where
  "has_room cfg u fd sv \<longleftrightarrow> sv_running sv \<and> sv_tasks sv Acceptor = [] \<and> sv_tasks sv (Handler fd) = [] \<and> fd \<notin> set (sv_open sv)
     \<and> length (sv_clients sv) < max_clients cfg \<and> utf8_encode u \<notin> nicknames sv"

lemma login_frame_fits:
  assumes "valid_client_message (Login u password)"
  shows "wire_size (encodeOutbound (Login u password)) \<le> 16384"
  using stringify_size [OF outbound_ok [of "Login u password"]] assms by (simp add: encodeOutbound_def tagged_def sized_def limits)

text \<open>The gateway opens a connection of its own for the account.\<close>

lemma dial_phase:
  assumes "may_log_in env r u password row (st_gateway y)" and "e_json_parse env = json_parse num" and "e_maxClientMessageBytes env = 16384"
    and "c = w_nconn (st_gateway y)" and "y1 = gateway_moves (onClientRaw env r (utf8_encode (encodeOutbound (Login u password))) (st_gateway y)) y"
  shows "stack_step env cfg y y1"
    and "\<exists>z. (stack_step env cfg)\<^sup>*\<^sup>* y1 z \<and> awaiting (e_backendMaxMessageBytes env) r c (u_id row) u (st_gateway z)
      \<and> w_out (st_gateway z) = w_out (st_gateway y) @ [Dial c] \<and> w_db (st_gateway z) = w_db (st_gateway y)
      \<and> st_server z = st_server y \<and> st_peer z = st_peer y \<and> st_backlog z = st_backlog y @ [c] \<and> st_down z = st_down y \<and> st_up z = st_up y"
proof -
  let ?w = "st_gateway y" and ?job = "VerifyJob r row password" and ?a = "\<lparr>ur_id = u_id row, ur_username = u\<rparr>"
  note m = assms(1) [unfolded may_log_in_def]
  have "onClientRaw env r (utf8_encode (encodeOutbound (Login u password))) ?w = onClientMessage env r (Login u password) ?w"
    using m login_frame_fits by (intro browser_message [OF _ assms(2)]) (simp_all add: assms(3))
  also have "\<dots> = ?w\<lparr>w_jobs := w_jobs ?w @ [?job]\<rparr>" using m by (simp add: onClientMessage_def handleAuth_start_def)
  finally have raw: "onClientRaw env r (utf8_encode (encodeOutbound (Login u password))) ?w = ?w\<lparr>w_jobs := w_jobs ?w @ [?job]\<rparr>" .
  have "local_step env ?w (onClientRaw env r (utf8_encode (encodeOutbound (Login u password))) ?w)"
    by (rule local_step.intros(2)) (use m in \<open>simp_all add: is_open_def\<close>)
  then show "stack_step env cfg y y1" unfolding assms(5) by (rule stack_step.gateway_acts)
  have y1: "y1 = y\<lparr>st_gateway := ?w\<lparr>w_jobs := w_jobs ?w @ [?job]\<rparr>\<rparr>"
    by (simp add: assms(5) raw gateway_moves_def uplink_def)
  define w2 where "w2 = handleAuth_account env r ?a ?w"
  have d: "w_out w2 = w_out ?w @ [Dial c]" "bc_socket (w_conn w2 c) = Connecting" "c < w_nconn w2" "\<not> w_crashed w2" "w_db w2 = w_db ?w"
    "awaiting (e_backendMaxMessageBytes env) r c (u_id row) u (upd_conn c on_connected w2)"
    using m by (intro account_dials [OF _ _ _ _ _ w2_def assms(4)]; simp)+
  have "handleAuth_resume env ?job ?w = w2" using m by (simp add: w2_def)
  then have "local_step env (st_gateway y1) w2"
    using local_step.intros(4) [of "st_gateway y1" "w_jobs ?w" ?job "[]" env] m by (simp add: y1)
  then have s2: "stack_step env cfg y1 (gateway_moves w2 y1)" by (rule stack_step.gateway_acts)
  let ?y2 = "gateway_moves w2 y1"
  have y2: "st_up ?y2 = st_up y" "st_down ?y2 = st_down y" "st_peer ?y2 = st_peer y" "st_backlog ?y2 = st_backlog y"
    by (simp_all add: gateway_moves_def y1 d(1) uplink_def)
  have s3: "stack_step env cfg ?y2 (?y2\<lparr>st_gateway := upd_conn c on_connected w2, st_backlog := st_backlog ?y2 @ [c]\<rparr>)"
    by (rule gateway_connects) (simp_all add: d)
  show "\<exists>z. (stack_step env cfg)\<^sup>*\<^sup>* y1 z \<and> awaiting (e_backendMaxMessageBytes env) r c (u_id row) u (st_gateway z)
      \<and> w_out (st_gateway z) = w_out (st_gateway y) @ [Dial c] \<and> w_db (st_gateway z) = w_db (st_gateway y)
      \<and> st_server z = st_server y \<and> st_peer z = st_peer y \<and> st_backlog z = st_backlog y @ [c] \<and> st_down z = st_down y \<and> st_up z = st_up y"
    by (rule exI, intro conjI, rule rtranclp.rtrancl_into_rtrancl [OF r_into_rtranclp [of "stack_step env cfg", OF s2] s3])
      (simp_all add: d(6) y2, simp_all add: upd_conn_def d y1)
qed

text \<open>The gateway reads the one line that has arrived.\<close>

lemma reads_line:
  assumes "awaiting m r c i u (st_gateway y)" and "st_down y c = framed [p]" and "length p \<le> m" and "length p < 2 ^ 32"
    and "y' = gateway_moves (onBackendEvent env r (parseBackendLine (utf8_decode p)) (st_gateway y)) (y\<lparr>st_down := (st_down y)(c := [])\<rparr>)"
  shows "stack_step env cfg y y'"
proof -
  note a = assms(1) [unfolded awaiting_def]
  have "on_backend_data env c (framed [p]) (st_gateway y) = onBackendEvent env r (parseBackendLine (utf8_decode p)) (st_gateway y)"
    using hears_line [OF _ assms(3,4)] a by simp
  with gateway_reads [OF refl, of y c "framed [p]" "[]" env cfg] a assms(2) show ?thesis by (simp add: assms(5))
qed

lemma nickname_line_size:
  assumes "is_valid_nickname n" and "is_valid_nickname k"
  shows "length (asc ''WELCOME '' @ n) \<le> 64" and "length (asc ''NICK '' @ n @ asc '' '' @ k) \<le> 64"
  using assms by (simp_all add: is_valid_nickname_def MAX_NICKNAME_LENGTH_def asc_def)

lemma nick_frame:
  assumes "USERNAME_RE u"
  shows "encodeFrame_str (formatNickCommand u) = Some (framed [utf8_encode (formatNickCommand u)])" and "length (utf8_encode (formatNickCommand u)) \<le> 64"
proof -
  have "length (utf8_encode (js ''/nick '' @ u)) \<le> 3 * length (js ''/nick '' @ u)"
    using wire_size_length [of "js ''/nick '' @ u"] by (simp add: wire_size_def)
  moreover have "length (utf8_encode (formatNickCommand u)) = 6 + length (utf8_encode u)"
    using wire_size_append [OF wf_str_js, of "''/nick ''" u] by (simp add: wire_size_def formatNickCommand_def utf8_js)
  moreover have "length (utf8_encode u) \<le> 24"
    using name_bytes(1) [OF assms] by (simp add: is_valid_nickname_def MAX_NICKNAME_LENGTH_def)
  ultimately show "encodeFrame_str (formatNickCommand u) = Some (framed [utf8_encode (formatNickCommand u)])"
    "length (utf8_encode (formatNickCommand u)) \<le> 64"
    by (simp_all add: encodeFrame_str_def encodeFrame_def)
qed

text \<open>What the gateway does with the first line, the server's welcome, and with the answer to its \<open>/nick\<close>.\<close>

lemma greets:
  assumes "is_valid_nickname n"
  shows "parseBackendLine (utf8_decode (asc ''WELCOME '' @ n)) = EvWelcome (widen n)"
    and "USERNAME_RE u \<Longrightarrow> parseBackendLine (utf8_decode (asc ''NICK '' @ n @ asc '' '' @ utf8_encode u)) = EvNick (widen n) u"
proof -
  have n: "USERNAME_RE (widen n)" using assms by (simp add: nickname_name)
  show "parseBackendLine (utf8_decode (asc ''WELCOME '' @ n)) = EvWelcome (widen n)"
    using says_named(1) [OF assms] parse_spoken [OF vouched_spoken, of "EvWelcome (widen n)"] n by (simp add: says_def)
  show "parseBackendLine (utf8_decode (asc ''NICK '' @ n @ asc '' '' @ utf8_encode u)) = EvNick (widen n) u" if "USERNAME_RE u"
    using says_named(7) [OF assms name_bytes(1) [OF that]] parse_spoken [OF vouched_spoken, of "EvNick (widen n) u"] n that
    by (simp add: says_def name_bytes(3))
qed

lemma widen_inj: "widen a = widen b \<Longrightarrow> a = b"
proof -
  have "x = y" if "(ucast x :: 16 word) = ucast y" for x y :: "8 word"
    using arg_cong [OF that, of unat] by (simp add: unat_widen word_unat_eq_iff del: unsigned_ucast_eq)
  then have "inj (ucast :: 8 word \<Rightarrow> 16 word)" by (auto intro: injI)
  then show "widen a = widen b \<Longrightarrow> a = b" by (simp add: widen_def inj_map_eq_map)
qed

definition told_ready :: "Env \<Rightarrow> nat \<Rightarrow> jsstr \<Rightarrow> jsstr \<Rightarrow> World \<Rightarrow> World \<Rightarrow> bool" where
  "told_ready env r i u w w' \<longleftrightarrow> (\<exists>us cs. Sent r (SReady i u us cs (historyForUser (e_ties env) (w_db w) i)) \<in> set (drop (length (w_out w)) (w_out w')))"

lemma told_earlier:
  assumes "told_ready env r i u w1 w'" and "w_out w1 = w_out w @ es" and "w_db w1 = w_db w"
  shows "told_ready env r i u w w'"
  using assms set_drop_subset_set_drop [of "length (w_out w)" "length (w_out w1)" "w_out w'"]
  by (auto simp: told_ready_def)

lemma answer_phase:
  assumes w: "awaiting m r c i u (st_gateway y)" and k: "connected_as fd c n cs y" and down: "st_down y c = framed [asc ''WELCOME '' @ n]"
    and up: "st_up y c = []" and u: "USERNAME_RE u" and n: "is_valid_nickname n" and cs: "\<forall>(g, q) \<in> set cs. cr_nickname q \<noteq> utf8_encode u" "fd \<notin> fst ` set cs"
    and limits: "64 \<le> m" "64 \<le> max_message_size cfg"
  shows "\<exists>z. (stack_step env cfg)\<^sup>*\<^sup>* y z \<and> told_ready env r i u (st_gateway y) (st_gateway z)
    \<and> find_client fd (st_server z) = Some \<lparr>cr_nickname = utf8_encode u, cr_welcomed = True\<rparr>"
proof -
  let ?w = "st_gateway y" and ?N = "asc ''NICK '' @ n @ asc '' '' @ utf8_encode u"
  define w1 where "w1 = onWelcome env r (widen n) ?w"
  define y1 where "y1 = gateway_moves w1 (y\<lparr>st_down := (st_down y)(c := [])\<rparr>)"
  have "length (asc ''WELCOME '' @ n) \<le> m" "length (asc ''WELCOME '' @ n) < 2 ^ 32" using nickname_line_size(1) [OF n n] limits by simp_all
  then have s1: "stack_step env cfg y y1" by (rule reads_line [OF w down]) (simp add: y1_def w1_def greets(1) [OF n])
  have k1: "connected_as fd c n cs y1" using k by (simp add: y1_def connected_as_def sole_peer_def gateway_moves_def)
  show ?thesis
  proof (cases "widen n = u")
    case True
    then have "n = utf8_encode u" using widen_inj name_bytes(3) [OF u] by metis
    then have "find_client fd (st_server y1) = Some \<lparr>cr_nickname = utf8_encode u, cr_welcomed = True\<rparr>"
      using k1 cs(2) by (simp add: connected_as_def find_client_def map_of_eq_None_iff [THEN iffD2] map_add_def)
    moreover have "told_ready env r i u ?w w1"
      using welcome_ready [OF w, of env] True by (fastforce simp: w1_def told_ready_def)
    ultimately show ?thesis using s1 by (intro exI [of _ y1]) (simp add: y1_def)
  next
    case False
    let ?bytes = "framed [utf8_encode (formatNickCommand u)]"
    from sends_nick [OF w False name_nonempty [OF u] nick_frame(1) [OF u], of env]
    have w1: "awaiting m r c i u w1" "s_nickname (w_sess w1 r) = widen n" "w_out w1 = w_out ?w @ [Wrote c ?bytes]" "w_db w1 = w_db ?w"
      by (simp_all add: w1_def)
    have up1: "st_up y1 c = ?bytes" by (simp add: y1_def gateway_moves_def w1(3) uplink_def up)
    have "length (utf8_encode (formatNickCommand u)) \<le> max_message_size cfg" "length ?N \<le> max_message_size cfg" "length ?N \<le> m" "length ?N < 2 ^ 32"
      using nick_frame(2) [OF u] nickname_line_size(2) [OF n name_bytes(1) [OF u]] limits by simp_all
    note l = this
    from rename_phase [OF k1 up1 u cs l(1,2), of env] obtain y2 where y2: "(stack_step env cfg)\<^sup>*\<^sup>* y1 y2" "st_gateway y2 = w1"
      "st_down y2 c = framed [?N]" "find_client fd (st_server y2) = Some \<lparr>cr_nickname = utf8_encode u, cr_welcomed = True\<rparr>"
      by (auto simp: y1_def gateway_moves_def)
    define y3 where "y3 = gateway_moves (onNick env r (widen n) u w1) (y2\<lparr>st_down := (st_down y2)(c := [])\<rparr>)"
    have s3: "stack_step env cfg y2 y3"
      by (rule reads_line [of m r c i u _ ?N]) (use w1(1) y2(2,3) l greets(2) [OF n u] in \<open>simp_all add: y3_def\<close>)
    have "told_ready env r i u w1 (st_gateway y3)" using nick_ready [OF w1(1,2), of env] by (fastforce simp: told_ready_def y3_def)
    from told_earlier [OF this w1(3,4)] have "told_ready env r i u ?w (st_gateway y3)" .
    moreover have "(stack_step env cfg)\<^sup>*\<^sup>* y y3"
      using converse_rtranclp_into_rtranclp [of "stack_step env cfg", OF s1 rtranclp.rtrancl_into_rtrancl [OF y2(1) s3]] .
    ultimately show ?thesis using y2(4) by (intro exI [of _ y3]) (simp add: y3_def)
  qed
qed

lemma login_phases:
  assumes "stack_inv cfg y" and "may_log_in env r u password row (st_gateway y)" and "has_room cfg u fd (st_server y)"
    and "e_json_parse env = json_parse num" and "e_maxClientMessageBytes env = 16384" and "64 \<le> e_backendMaxMessageBytes env" and "64 \<le> max_message_size cfg"
    and "st_up y (w_nconn (st_gateway y)) = []"
    and "y1 = gateway_moves (onClientRaw env r (utf8_encode (encodeOutbound (Login u password))) (st_gateway y)) y"
  shows "\<exists>z. (stack_step env cfg)\<^sup>*\<^sup>* y1 z \<and> told_ready env r (u_id row) u (st_gateway y) (st_gateway z)
    \<and> find_client fd (st_server z) = Some \<lparr>cr_nickname = utf8_encode u, cr_welcomed = True\<rparr>"
proof -
  let ?c = "w_nconn (st_gateway y)" and ?sv = "st_server y" and ?m = "e_backendMaxMessageBytes env"
  let ?n = "assign_default_nickname ?sv"
  note room = assms(3) [unfolded has_room_def]
  have inv: "pipes_ok y" "names_inv cfg ?sv" "tokens_inv ?sv" "max_clients cfg < 2 ^ 31"
    using assms(1) by (simp_all add: stack_inv_def server_inv_def server_limits_def)
  have n: "is_valid_nickname ?n" using room inv(4) by (intro assigned_fresh(1) [of _ cfg]) simp_all
  have fresh: "\<forall>g. st_peer y g \<noteq> Some ?c" "st_down y ?c = []" using inv(1) by (auto simp: pipes_ok_def)
  have fd: "fd \<notin> fst ` set (sv_clients ?sv)"
  proof -
    have "find_client fd ?sv = None" using inv(3) room by (auto simp: tokens_inv_def)
    then show ?thesis by (simp add: find_client_def map_of_eq_None_iff)
  qed
  have free: "\<forall>(g, q) \<in> set (sv_clients ?sv). cr_nickname q \<noteq> utf8_encode u" using room by (force simp: nicknames_def)
  have u: "USERNAME_RE u" using assms(2) by (simp add: may_log_in_def)
  from dial_phase(2) [OF assms(2,4,5) refl assms(9)] obtain a where a: "(stack_step env cfg)\<^sup>*\<^sup>* y1 a" "awaiting ?m r ?c (u_id row) u (st_gateway a)"
    "w_out (st_gateway a) = w_out (st_gateway y) @ [Dial ?c]" "w_db (st_gateway a) = w_db (st_gateway y)" "st_server a = ?sv" "st_peer a = st_peer y"
    "st_backlog a = st_backlog y @ [?c]" "st_down a = st_down y" "st_up a = st_up y"
    by blast
  have "length (asc ''WELCOME '' @ ?n) \<le> max_message_size cfg" using nickname_line_size(1) [OF n n] assms(7) by simp
  from welcome_phase [of a fd cfg "st_backlog y" ?c ?n env] this room fd fresh(1)
  obtain b where b: "(stack_step env cfg)\<^sup>*\<^sup>* a b" "st_gateway b = st_gateway a" "st_up b = st_up y"
    "st_down b ?c = framed [asc ''WELCOME '' @ ?n]" "connected_as fd ?c ?n (sv_clients ?sv) b"
    by (auto simp: a fresh(2))
  from answer_phase [of ?m r ?c "u_id row" u b fd ?n "sv_clients ?sv" cfg env] a(2) b(2-5) assms(6-8) u n free fd
  obtain z where z: "(stack_step env cfg)\<^sup>*\<^sup>* b z" "told_ready env r (u_id row) u (st_gateway b) (st_gateway z)"
    "find_client fd (st_server z) = Some \<lparr>cr_nickname = utf8_encode u, cr_welcomed = True\<rparr>"
    by auto
  have "told_ready env r (u_id row) u (st_gateway y) (st_gateway z)"
    by (rule told_earlier [OF z(2)]) (simp_all add: b(2) a(3,4))
  then show ?thesis using z(3) rtranclp_trans [OF a(1) rtranclp_trans [OF b(1) z(1)]] by blast
qed

subsection \<open>The page opens\<close>

lemma page_opens:
  assumes "page_run num penv acts pg" and "p_client (pg_provider pg) = Some cl" and "k_socket cl = Some SkOpen" and "i \<noteq> []" and "u \<noteq> []"
    and "pg' = page_hears fresh num (SReady i u us cs ms) pg"
  shows "\<exists>f. pg_mounted pg' = AtChat f" and "u \<in> set (texts (page_view penv pg'))"
proof -
  have r: "page_run num penv acts pg'" unfolding assms(6) by (rule run_hears [OF assms(1-3)])
  have s: "userId (shown pg') = Some i" "nick (shown pg') = u"
    by (simp_all add: assms(6) hears_provider [OF assms(2)] reduce_READY_def del: server_json.simps)
  have "ChatApp (shown pg') = ChatLayout" using s assms(4) by (simp add: ChatApp_def truthy_def)
  then obtain f where f: "pg_mounted pg' = AtChat f" using run_match [OF r] by (auto simp: page_match_def split: Mounted.splits)
  then show "\<exists>f. pg_mounted pg' = AtChat f" by blast
  have "has_public (shown pg')" using run_public [OF r] by (simp add: both_public_def)
  then obtain a where a: "activeConversation (shown pg') = Some a" using public_active by blast
  have "u \<in> set (texts (sidebar_profile penv (shown pg')))" using s(2) assms(5) by (simp add: sidebar_profile_def Let_def)
  then have "u \<in> set (texts (Sidebar penv (shown pg') False (cf_query f)))" by (auto simp: Sidebar_def)
  from texts_layout(2) [OF this] show "u \<in> set (texts (page_view penv pg'))" by (simp add: page_view_def RootLayout_def f a)
qed

subsection \<open>Properties\<close>

text \<open>C17: A login can always be completed.  In any reachable state of the gateway, the server and the
  connections between them, let a session be open and not logged in, its user type the name and
  password of an account that is not online, and the server have room for one more client and
  the name be free there; nothing the session sent before waits for its login.  Then the login message of the browser can be followed by steps of the
  three programs after which the gateway has told the browser, under the name of the account and
  with the account's history, that it is ready, the server knows the connection under the same
  name, and the page, when it hears the message, shows the chat and the name in it.\<close>

theorem login_reaches_chat:
  assumes "uuids_plain env" and "stack_init y0" and "server_limits cfg" and "(stack_step env cfg)\<^sup>*\<^sup>* y0 y"
    and "may_log_in env r u password row (st_gateway y)" and "u_id row \<noteq> []" and "has_room cfg u fd (st_server y)"
    and "e_json_parse env = json_parse num" and "e_maxClientMessageBytes env = 16384" and "64 \<le> e_backendMaxMessageBytes env" and "64 \<le> max_message_size cfg"
    and "page_run num penv acts pg" and "p_client (pg_provider pg) = Some cl" and "k_socket cl = Some SkOpen"
  shows "\<exists>y1 z us cs ready f. stack_step env cfg y y1
    \<and> st_gateway y1 = onClientRaw env r (utf8_encode (encodeOutbound (Login u password))) (st_gateway y)
    \<and> (stack_step env cfg)\<^sup>*\<^sup>* y1 z
    \<and> ready = SReady (u_id row) u us cs (historyForUser (e_ties env) (w_db (st_gateway y)) (u_id row))
    \<and> Sent r ready \<in> set (drop (length (w_out (st_gateway y))) (w_out (st_gateway z)))
    \<and> find_client fd (st_server z) = Some \<lparr>cr_nickname = utf8_encode u, cr_welcomed = True\<rparr>
    \<and> pg_mounted (page_hears fresh num ready pg) = AtChat f
    \<and> u \<in> set (texts (page_view penv (page_hears fresh num ready pg)))"
proof -
  define y1 where "y1 = gateway_moves (onClientRaw env r (utf8_encode (encodeOutbound (Login u password))) (st_gateway y)) y"
  note s = dial_phase(1) [OF assms(5,8,9) refl y1_def]
  obtain z us cs where z: "(stack_step env cfg)\<^sup>*\<^sup>* y1 z"
    "Sent r (SReady (u_id row) u us cs (historyForUser (e_ties env) (w_db (st_gateway y)) (u_id row))) \<in> set (drop (length (w_out (st_gateway y))) (w_out (st_gateway z)))"
    "find_client fd (st_server z) = Some \<lparr>cr_nickname = utf8_encode u, cr_welcomed = True\<rparr>"
    using login_phases [OF stack_runs(2) [OF assms(2-4)] assms(5,7-11) new_connection_silent [OF assms(1-4)] y1_def] by (auto simp: told_ready_def)
  have "u \<noteq> []" using assms(5) name_nonempty by (simp add: may_log_in_def)
  note p = page_opens [OF assms(12-14,6) this refl,
      where us = us and cs = cs and ms = "historyForUser (e_ties env) (w_db (st_gateway y)) (u_id row)" and fresh = fresh]
  obtain f where "pg_mounted (page_hears fresh num (SReady (u_id row) u us cs (historyForUser (e_ties env) (w_db (st_gateway y)) (u_id row))) pg) = AtChat f"
    using p(1) by blast
  moreover have "st_gateway y1 = onClientRaw env r (utf8_encode (encodeOutbound (Login u password))) (st_gateway y)"
    by (simp add: y1_def)
  ultimately show ?thesis using s z p(2) by blast
qed

definition login_env :: Env where
  "login_env = demo_env\<lparr>e_json_parse := json_parse id, e_maxClientMessageBytes := 16384\<rparr>"

definition amy_row :: UserRow where
  "amy_row = \<lparr>u_id = amy_id, u_username = amy, u_password_hash = [], u_password_salt = [], u_created_at = js ''t''\<rparr>"

text \<open>A gateway that starts with the database of an earlier run, and its first connection.\<close>

definition login_stack0 :: Stack where
  "login_stack0 = demo_stack\<lparr>st_gateway := demo0\<lparr>w_db := w_db demo3\<rparr>\<rparr>"

definition login_stack :: Stack where
  "login_stack = gateway_moves (onConnection login_env (st_gateway login_stack0)) login_stack0"

lemma login_stack_run: "stack_init login_stack0" "(stack_step login_env demo_config)\<^sup>*\<^sup>* login_stack0 login_stack"
proof -
  have "gw_inv demo3" by (rule reachable_inv [OF demo_plain demo_init]) (use demo_steps in auto)
  moreover have "gateway_init demo0" by (rule demo_init)
  ultimately have "gateway_init (demo0\<lparr>w_db := w_db demo3\<rparr>)" by (simp add: gateway_init_def gw_inv_def)
  then show "stack_init login_stack0" by (simp add: stack_init_def login_stack0_def demo_stack_def)
  have "local_step login_env (st_gateway login_stack0) (onConnection login_env (st_gateway login_stack0))"
    by (rule local_step.intros(1)) (simp add: login_stack0_def demo0_def)
  then show "(stack_step login_env demo_config)\<^sup>*\<^sup>* login_stack0 login_stack"
    unfolding login_stack_def by (intro r_into_rtranclp stack_step.gateway_acts)
qed

lemma login_stack_facts:
  "may_log_in login_env 0 amy (js ''password'') amy_row (st_gateway login_stack)"
  "has_room demo_config amy 4 (st_server login_stack)"
proof -
  let ?w = "st_gateway login_stack"
  have w: "\<not> w_crashed ?w" "w_nsess ?w = 1" "w_sess ?w 0 = new_Session (e_uuid login_env 0)" "w_roster ?w = []" "w_db ?w = w_db demo3"
    by (simp_all add: login_stack_def login_stack0_def onConnection_def Let_def next_tick_def demo0_def)
  have db: "row_by_username (w_db demo3) amy = Some amy_row" by (simp add: demo3(10) row_by_username_def amy_row_def)
  have v: "login_verify (e_kdf login_env) amy_row (js ''password'') = Some \<lparr>ur_id = u_id amy_row, ur_username = amy\<rparr>"
    by (simp add: login_verify_def verifyPassword_def Let_def amy_row_def login_env_def demo_env_def to_record_def)
  have u: "USERNAME_RE amy" "valid_client_message (Login amy (js ''password''))"
    by (simp_all add: USERNAME_RE_def amy_def js_def username_unit_def) (simp_all add: sized_def limits)
  show "may_log_in login_env 0 amy (js ''password'') amy_row ?w"
    using db v u by (simp add: may_log_in_def w is_open_def new_Session_def roster_get_def)
  show "has_room demo_config amy 4 (st_server login_stack)"
    by (simp add: has_room_def login_stack_def login_stack0_def demo_stack_def new_Server_def demo_config_def nicknames_def)
qed

theorem login_reaches_chat_witness:
  "\<exists>z us cs ready. (stack_step login_env demo_config)\<^sup>*\<^sup>* login_stack z \<and> ready = SReady amy_id amy us cs (historyForUser (e_ties login_env) (w_db demo3) amy_id)
     \<and> Sent 0 ready \<in> set (w_out (st_gateway z)) \<and> find_client 4 (st_server z) = Some \<lparr>cr_nickname = utf8_encode amy, cr_welcomed = True\<rparr>
     \<and> amy \<in> set (texts (page_view plain_env (page_hears ([], []) id ready demo_open)))"
proof -
  obtain cl where c: "p_client (pg_provider demo_open) = Some cl" "k_socket cl = Some SkOpen" using demo_open_client by blast
  have e: "e_json_parse login_env = json_parse id" "e_maxClientMessageBytes login_env = 16384" "64 \<le> e_backendMaxMessageBytes login_env"
    "64 \<le> max_message_size demo_config" "uuids_plain login_env" "u_id amy_row \<noteq> []" "u_id amy_row = amy_id" "w_db (st_gateway login_stack) = w_db demo3"
    using demo_plain by (simp_all add: uuids_plain_def login_env_def demo_env_def demo_config_def amy_row_def amy_id_def login_stack_def login_stack0_def onConnection_def Let_def next_tick_def)
  from login_reaches_chat [OF e(5) login_stack_run(1) demo_limits login_stack_run(2) login_stack_facts(1) e(6) login_stack_facts(2) e(1-4)
      demo_open_run c, where fresh = "([], [])"]
  show ?thesis unfolding e(7,8) by (blast dest: in_set_dropD intro: converse_rtranclp_into_rtranclp)
qed

end
