(* ===== verification/Spec2Isabelle.thy ===== *)
theory Spec2Isabelle
  imports GatewayFaults GatewayProcess StackLogin
begin

text \<open>
  \<^bold>\<open>ThreadLink: the gateway and the browser client.\<close>

  ThreadLink is a chat system of three processes.  A C++ server (\<open>src/src\<close>) distributes lines
  of text between TCP connections.  A gateway (\<open>src/gateway/src\<close>, TypeScript on node) gives
  every browser a WebSocket and every logged-in account one TCP connection to the server; it owns
  the accounts, the conversations and the history in SQLite tables.  A browser client
  (\<open>src/frontend\<close>, TypeScript with React) keeps its view of the chat in a reducer and shows
  it as a page.  This library models the two TypeScript programs, with the page as a document,
  the C++ server that they rely on, and their composition.

  \<^bold>\<open>Strings and bytes.\<close>  \<open>Prelude\<close> holds the shared interfaces and lemmas: association lists
  as JavaScript maps (locale \<open>js_map\<close>, interpreted on \<open>AList\<close>) and invariants of step
  relations (locale \<open>invariant_system\<close>, interpreted on the gateway, its orderly runs, its
  process, the chat state, the client, the whole system and the C++ server).  \<open>JsString\<close> models a JavaScript string as its UTF-16 code units
  (\<open>16 word\<close>) and a buffer as bytes (\<open>8 word\<close>), with \<open>trim\<close>, \<open>indexOf\<close>, UTF-8 and
  hexadecimal digits.  \<open>JsonText\<close> writes out \<open>JSON.stringify\<close> and \<open>JSON.parse\<close> on such strings.

  \<^bold>\<open>The gateway.\<close>
  \<^item> \<open>WireProtocol\<close> (\<open>wireProtocol.ts\<close>): the frame decoder \<open>push\<close> and \<open>encodeFrame\<close>; locale
    \<open>frame_channel\<close>.  Frames survive every way of cutting the byte stream; an oversized frame
    is refused.
  \<^item> \<open>BackendMessages\<close> (\<open>backendMessages.ts\<close>): the parser of the server's lines and the
    formatters of the gateway's, against the server's own reading (\<open>handle_line\<close>, after
    \<open>Server.cpp\<close>).
  \<^item> \<open>ClientProtocol\<close> (\<open>clientProtocol.ts\<close>): the messages and the validator.  It is sound,
    complete for what the frontend sends, and throws exactly for one kind of value.
  \<^item> \<open>Database\<close>, \<open>Accounts\<close>, \<open>Conversations\<close>, \<open>MessageStore\<close> (\<open>db.ts\<close>, \<open>auth.ts\<close>,
    \<open>users.ts\<close>, \<open>conversationManager.ts\<close>, \<open>messageStore.ts\<close>): the tables as lists of rows
    and the statements on them, with their key constraints as errors; registration and login,
    membership (locale \<open>membership_store\<close>), history as a sorted selection.
  \<^item> \<open>BackendConnection\<close> (\<open>backendConnection.ts\<close>): the life of one TCP connection.
  \<^item> \<open>Sessions\<close> (\<open>session.ts\<close>, \<open>sessionManager.ts\<close>): the session record and the roster.
  \<^item> \<open>Gateway\<close> (\<open>gatewayServer.ts\<close>): the record \<open>World\<close> is the server object with all it
    reaches; every handler is a function on it.  Handlers are cut at their awaits:
    \<open>handleAuth_start\<close>, \<open>handleAuth_resume\<close>, \<open>handleAuth_account\<close> and \<open>handleAuth_unavailable\<close>
    are one \<open>handleAuth\<close>, and \<open>gateway_step\<close> interleaves them with all other events, as
    node does.
  \<^item> \<open>GatewayInv\<close>, \<open>GatewaySafety\<close>: the invariant of the server and its preservation by every
    step.  \<open>GatewayProps\<close>: safety of all reachable states (authentication, privacy, isolation,
    the tables).  \<open>GatewayDelivery\<close>: the exact effects of the handlers.  \<open>GatewayScenario\<close>: a
    concrete run.  \<open>GatewayFaults\<close>: interleavings around the awaits of \<open>handleAuth\<close>.
  \<^item> \<open>Config\<close> (\<open>config.ts\<close>, \<open>logger.ts\<close>) and \<open>GatewayProcess\<close> (\<open>index.ts\<close>): the configuration, the
    start of the process on the tables of a file, its shutdown, cut at its await, and its being
    killed, between two events or after any statement (\<open>stmt\<close>) of a handler.  What was stored is
    found by the next process; a kill inside the creation of a direct conversation can leave one
    without members (\<open>torn_direct_never_heals\<close>).

  \<^bold>\<open>The browser client.\<close>
  \<^item> \<open>ChatState\<close> (\<open>context/chatState.ts\<close>, \<open>types/chat.ts\<close>): \<open>chatReducer\<close> with one function
    per action; the invariant of the state; what a login restores is what the gateway stored.
  \<^item> \<open>ProtocolText\<close> (\<open>types/protocol.ts\<close> and the encoder of \<open>clientProtocol.ts\<close>): the messages
    of both directions as JSON text.
  \<^item> \<open>ChatClient\<close> (\<open>lib/websocket-client.ts\<close>): the record \<open>ThreadLinkClient\<close>, its operations,
    the handlers of the socket and the timer, and the relations \<open>client_event\<close> and
    \<open>client_step\<close>.  Its fields stay consistent, reconnecting ends, and the delays are as
    scheduled.
  \<^item> \<open>ChatProvider\<close> (\<open>context/ChatProvider.tsx\<close>): the state and the refs of the provider, the
    callbacks of the client and the operations of the context (\<open>act\<close>); \<open>provider_run\<close>
    interleaves renders, actions of the user and events of the client.
  \<^item> \<open>Views\<close> (\<open>components\<close>, \<open>lib/storage.ts\<close>, \<open>lib/id.ts\<close>): what the components decide:
    the rows of the sidebar, titles, and what the forms hand on.  \<open>MessageView\<close>
    (\<open>MessageList.tsx\<close>, \<open>NicknameModal.tsx\<close>, \<open>hooks/useAutoScroll.ts\<close>): the list of messages, and
    when it scrolls.
  \<^item> \<open>Markup\<close>: documents of elements, texts and controls; which events a document \<open>offers\<close>: the
    clicks on enabled buttons, the input of enabled fields, the submission of a form whose fields
    satisfy their constraints.  \<open>Components\<close> (\<open>components\<close>): the document of every component, with
    its conditions, labels and handlers.  \<open>Page\<close> (\<open>ChatLayout.tsx\<close>, \<open>app\<close>): the record \<open>Page\<close> is
    the provider with the component that is mounted and the fields of its forms; \<open>page_run\<close> lets the
    user do what the page offers, and the socket and the timer what they do, in any order;
    \<open>page_step\<close> and \<open>page_later\<close> are its steps.
  \<^item> \<open>PageSafety\<close> (locale \<open>provider_invariant\<close>, with two interpretations), \<open>PageProps\<close>: what the page
    can make the client send, and how often it logs in.

  \<^bold>\<open>The C++ server.\<close>
  \<^item> \<open>BackendServer\<close> (\<open>src/src/Server.cpp\<close>): the map of clients, the handlers, and the threads: what a
    thread does in one critical section is one step, what it has still to do are its tasks, and
    \<open>server_step\<close> interleaves the acceptor and all handlers.
  \<^item> \<open>BackendServerInv\<close>: a descriptor has one owner, nicknames are different and valid.
    \<open>BackendServerWire\<close>: everything the server writes is a line of its vocabulary with names that the
    gateway accepts, so the assumption of \<open>gateway_step\<close> on names holds.  \<open>BackendServerLines\<close>: it
    reads the bytes of a line as \<open>handle_line\<close> reads its text.  \<open>BackendServerProps\<close>: the properties,
    and a run in which a private message goes to a stranger.
  \<^item> \<open>Stack\<close>: the gateway, the server and the bytes on the connections between them as one step
    relation; it refines the two models (locale \<open>step_refinement\<close>), so that what is proved of the
    gateway under its assumption on the names it reads holds without it.
  \<^item> \<open>StackLogin\<close>: a login step by step through the three programs, from the browser's message to the
    chat on the page: the lemmas \<open>dial_phase\<close>, \<open>welcome_phase\<close>, \<open>answer_phase\<close> follow one program
    each, for any state of the others.

  \<^bold>\<open>The composition.\<close>  \<open>EndToEnd\<close>: a message that the browser sends is handled by the
  gateway as this very message, and the other way round, over UTF-8 and JSON text.  \<open>ChatSystem\<close>:
  one gateway and any number of browsers as one step relation; the views of all browsers stay
  consistent; a group message travels from the sender's composer through the tables to the
  screens of the members; what happens after an automatic reconnect.  \<open>PageSystem\<close>: the same from
  page to page: what is typed on one is shown on the other; what a page offers without a
  connection, and what is left of a session after signing out.

  \<^bold>\<open>Parameters.\<close>  \<open>Env\<close> supplies what node supplies: random ids, clock, salts, the key
  derivation function \<open>scrypt\<close>, \<open>JSON.parse\<close>, the configuration and, from SQLite, the order of
  messages with equal time stamps (\<open>e_ties\<close>).  Properties assume of
  them only what they name: \<open>uuids_plain\<close> (a random id contains no separator and is not the id
  of the public conversation), that new ids are new, or that \<open>JSON.parse\<close> is \<open>json_parse\<close>.
  \<open>num\<close> is what a numeral of a JSON text becomes as text; no message of the program contains one.

  \<^bold>\<open>Termination and fuel.\<close>  All functions are total.  The nesting of a JSON text is bounded by
  fuel: the parser starts with twice the length of the text plus two, which is always enough
  (\<open>json_parse_total\<close>).  The decoder's loop consumes its buffer.

  \<^bold>\<open>Not modelled.\<close>  SQLite beyond the meaning of the statements (files, locks, statements that
  fail for lack of space, the encoding of texts, the order of rows that no \<open>ORDER BY\<close> fixes,
  except of messages); the text of log lines and of the configuration's warnings; class names
  that do not depend on the state, animation and focus of the React components, and the format of
  times (\<open>lib/format.ts\<close> calls \<open>Intl\<close>); React's batching of renders, except that a callback may see
  the state of an older render; of the C++ server the sockets, the console, signals and the
  reaping of threads.  \<open>Stack\<close> lets the server accept waiting connections in any order, where
  \<open>accept\<close> takes the first.
\<close>

end
